(* ===== verification/Prelude.thy ===== *)
theory Prelude
  imports Main "HOL-Library.Word" "HOL-Library.Product_Lexorder"
begin

text \<open>
  What every component of the development shares: the machine types of the crate, the ordered
  maps and sets of the Rust standard library, Rust's \<open>?\<close> operator on state-changing
  functions, and the contract of the "repeat until nothing changes" loops.

  A fixed-size byte array \<open>[u8; N]\<close> is the big-endian word of \<open>8 * N\<close> bits: the
  derived \<open>Ord\<close> of an array is lexicographic, which on big-endian words of one width is the
  numeric order. \<open>u64\<close>, \<open>u32\<close> and \<open>u16\<close> are words of their
  width, \<open>usize\<close> is \<open>nat\<close>, \<open>i64\<close> timestamps are \<open>int\<close>
  (they are compared and stored, never computed with).
\<close>

section \<open>Machine types\<close>

type_synonym byte = "8 word"
type_synonym bytes = "byte list"
type_synonym bytes16 = "128 word"
type_synonym bytes24 = "192 word"
type_synonym bytes32 = "256 word"
type_synonym u16 = "16 word"
type_synonym u32 = "32 word"
type_synonym u64 = "64 word"
type_synonym unix_seconds = int

text \<open>\<open>x.saturating_add(1)\<close> on an unsigned integer.\<close>

definition sat_succ :: "'w::len word \<Rightarrow> 'w word" where
  "sat_succ x = (if x = - 1 then x else x + 1)"

lemma unat_sat_succ:
  "unat (sat_succ x) = (if x = - 1 then unat x else Suc (unat x))"
  by (simp add: sat_succ_def unat_plus_simple word_less_nat_alt) (metis add.commute max_word_wrap plus_1_eq_Suc unatSuc)

lemma sat_succ_ge: "x \<le> sat_succ x"
  by (auto simp: word_le_nat_alt unat_sat_succ)

lemma sat_succ_gt: "x \<noteq> - 1 \<Longrightarrow> x < sat_succ x"
  by (auto simp: word_less_nat_alt unat_sat_succ)

text \<open>The big-endian bytes of a word: \<open>to_be_bytes\<close> of an integer of \<open>n\<close> bytes.\<close>

fun be_bytes :: "nat \<Rightarrow> 'w::len word \<Rightarrow> bytes" where
  "be_bytes 0 w = []"
| "be_bytes (Suc n) w = ucast (drop_bit (8 * n) w) # be_bytes n w"

lemma length_be_bytes [simp]: "length (be_bytes n w) = n"
  by (induction n) auto

text \<open>A byte string of a word's width determines the word.\<close>

lemma bit_head_be_bytes:
  fixes w w' :: "'w::len word"
  assumes "(ucast (drop_bit m w) :: byte) = ucast (drop_bit m w')" and "i < 8"
  shows "bit w (m + i) = bit w' (m + i)"
proof -
  have "bit (ucast (drop_bit m w) :: byte) i = bit (ucast (drop_bit m w') :: byte) i" using assms by simp
  with assms(2) show ?thesis by (simp add: bit_ucast_iff bit_drop_bit_eq)
qed

lemma be_bytes_bits:
  fixes w w' :: "'w::len word"
  assumes "be_bytes n w = be_bytes n w'" and "i < 8 * n"
  shows "bit w i = bit w' i"
  using assms
proof (induction n)
  case (Suc n)
  show ?case
  proof (cases "i < 8 * n")
    case True
    with Suc show ?thesis by simp
  next
    case False
    with Suc.prems bit_head_be_bytes [of "8 * n" w w' "i - 8 * n"] show ?thesis by simp
  qed
qed simp

lemma be_bytes_inj:
  fixes w w' :: "'w::len word"
  assumes "be_bytes n w = be_bytes n w'" and "LENGTH('w) \<le> 8 * n"
  shows "w = w'"
  using be_bytes_bits [OF assms(1)] assms(2) by (intro bit_word_eqI) simp

section \<open>Results and the question-mark operator\<close>

text \<open>
  A fallible method on \<open>&mut self\<close> is a function to the new state and a result, because
  what was changed before an early \<open>return Err(..)\<close> stays changed. \<open>and_then r k\<close>
  is \<open>let x = r?; k\<close>.
\<close>

type_synonym ('s, 'e, 'a) step = "'s \<times> ('e + 'a)"

definition and_then :: "('s, 'e, 'a) step \<Rightarrow> ('a \<Rightarrow> 's \<Rightarrow> ('s, 'e, 'b) step) \<Rightarrow> ('s, 'e, 'b) step" where
  "and_then r k = (case r of (s, Inl e) \<Rightarrow> (s, Inl e) | (s, Inr x) \<Rightarrow> k x s)"

lemma and_then_simps [simp]:
  "and_then (s, Inl e) k = (s, Inl e)"
  "and_then (s, Inr x) k = k x s"
  by (simp_all add: and_then_def)

lemma and_then_cases:
  obtains (err) s e where "r = (s, Inl e)" "and_then r k = (s, Inl e)"
    | (ok) s x where "r = (s, Inr x)" "and_then r k = k x s"
  by (cases r; cases "snd r") auto

text \<open>A state invariant passes through \<open>?\<close> when both halves keep it.\<close>

lemma and_then_inv:
  assumes "P (fst r)" and "\<And>x s. r = (s, Inr x) \<Longrightarrow> P s \<Longrightarrow> P (fst (k x s))"
  shows "P (fst (and_then r k))"
  using assms by (cases rule: and_then_cases [of r k]) auto

lemma and_then_InrE:
  assumes "and_then r k = (s', Inr y)"
  obtains s x where "r = (s, Inr x)" and "k x s = (s', Inr y)"
  using assms by (cases rule: and_then_cases [of r k]) auto

lemma and_then_split:
  "P (and_then r k) \<longleftrightarrow>
     (\<forall>s e. r = (s, Inl e) \<longrightarrow> P (s, Inl e)) \<and> (\<forall>s x. r = (s, Inr x) \<longrightarrow> P (k x s))"
  by (cases rule: and_then_cases [of r k]) auto

definition is_ok :: "'e + 'a \<Rightarrow> bool" where
  "is_ok r = (case r of Inl _ \<Rightarrow> False | Inr _ \<Rightarrow> True)"

lemma is_ok_simps [simp]: "is_ok (Inr x)" "\<not> is_ok (Inl e)"
  by (simp_all add: is_ok_def)

text \<open>\<open>iter().map(f).collect::<Result<Vec<_>, _>>()\<close>: the first error wins.\<close>

fun collect_results :: "('e + 'a) list \<Rightarrow> 'e + 'a list" where
  "collect_results [] = Inr []"
| "collect_results (Inl e # rs) = Inl e"
| "collect_results (Inr x # rs) =
     (case collect_results rs of Inl e \<Rightarrow> Inl e | Inr xs \<Rightarrow> Inr (x # xs))"

lemma collect_results_map_Inr [simp]: "collect_results (map Inr xs) = Inr xs"
  by (induction xs) auto

lemma collect_results_Inr_iff: "collect_results rs = Inr xs \<longleftrightarrow> rs = map Inr xs"
  by (induction rs arbitrary: xs rule: collect_results.induct) (auto split: sum.splits)

section \<open>Ordered maps and sets\<close>

text \<open>
  \<open>BTreeMap\<close> and \<open>BTreeSet\<close> are kept as strictly sorted lists: iteration order is
  list order, and two maps with the same entries are the same list.
\<close>

type_synonym ('k, 'v) btree_map = "('k \<times> 'v) list"
type_synonym 'k btree_set = "'k list"

fun bm_insert :: "'k::linorder \<Rightarrow> 'v \<Rightarrow> ('k, 'v) btree_map \<Rightarrow> ('k, 'v) btree_map" where
  "bm_insert k v [] = [(k, v)]"
| "bm_insert k v ((a, b) # m) =
     (if k < a then (k, v) # (a, b) # m
      else if k = a then (k, v) # m
      else (a, b) # bm_insert k v m)"

abbreviation bm_get :: "('k, 'v) btree_map \<Rightarrow> 'k \<Rightarrow> 'v option" where
  "bm_get m k \<equiv> map_of m k"

definition bm_ok :: "('k::linorder, 'v) btree_map \<Rightarrow> bool" where
  "bm_ok m \<longleftrightarrow> sorted_wrt (<) (map fst m)"

fun bs_insert :: "'k::linorder \<Rightarrow> 'k btree_set \<Rightarrow> 'k btree_set" where
  "bs_insert k [] = [k]"
| "bs_insert k (a # s) =
     (if k < a then k # a # s else if k = a then a # s else a # bs_insert k s)"

definition bs_ok :: "'k::linorder btree_set \<Rightarrow> bool" where
  "bs_ok s \<longleftrightarrow> sorted_wrt (<) s"

definition bs_of :: "'k::linorder list \<Rightarrow> 'k btree_set" where
  "bs_of xs = fold bs_insert xs []"

lemma bm_get_insert [simp]: "bm_get (bm_insert k v m) = (map_of m)(k \<mapsto> v)"
  by (induction k v m rule: bm_insert.induct) (auto simp: fun_eq_iff)

lemma keys_bm_insert [simp]: "fst ` set (bm_insert k v m) = insert k (fst ` set m)"
  by (induction k v m rule: bm_insert.induct) auto

lemma set_bm_insert_subset: "set (bm_insert k v m) \<subseteq> insert (k, v) (set m)"
  by (induction k v m rule: bm_insert.induct) auto

lemma set_bm_insert_fresh: "k \<notin> fst ` set m \<Longrightarrow> set (bm_insert k v m) = insert (k, v) (set m)"
  by (induction k v m rule: bm_insert.induct) auto

lemma bm_ok_Nil [simp]: "bm_ok []"
  by (simp add: bm_ok_def)

lemma bm_ok_Cons: "bm_ok ((k, v) # m) \<longleftrightarrow> (\<forall>k' \<in> fst ` set m. k < k') \<and> bm_ok m"
  by (auto simp: bm_ok_def)

lemma bm_ok_insert [simp]: "bm_ok m \<Longrightarrow> bm_ok (bm_insert k v m)"
proof (induction k v m rule: bm_insert.induct)
  case (2 k v a b m)
  then show ?case
    by (simp add: bm_ok_Cons) (metis (no_types, lifting) imageE image_eqI less_trans neqE)
qed (simp add: bm_ok_Cons)

lemma bm_ok_distinct: "bm_ok m \<Longrightarrow> distinct (map fst m)"
  by (simp add: bm_ok_def strict_sorted_iff)

lemma bm_get_in_set: "bm_ok m \<Longrightarrow> bm_get m k = Some v \<longleftrightarrow> (k, v) \<in> set m"
  by (simp add: bm_ok_distinct)

lemma bm_get_key: "bm_get m k = Some v \<Longrightarrow> k \<in> fst ` set m"
  by (metis map_of_eq_None_iff option.distinct(1))

lemma dom_bm_get: "dom (map_of m) = fst ` set m"
  by (rule dom_map_of_conv_image_fst)

lemma bm_insert_no_change: "bm_ok m \<Longrightarrow> bm_get m k = Some v \<Longrightarrow> bm_insert k v m = m"
proof (induction k v m rule: bm_insert.induct)
  case (2 k v a b m)
  then show ?case
    by (auto simp: bm_ok_Cons dest!: bm_get_key split: if_splits)
qed simp

text \<open>The same entries make the same list.\<close>

lemma bm_ext:
  assumes "bm_ok m" and "bm_ok m'" and "map_of m = map_of m'"
  shows "m = m'"
proof -
  have "set (map fst m) = set (map fst m')"
    using assms(3) by (metis dom_bm_get list.set_map)
  then have keys: "map fst m = map fst m'"
    using assms(1,2) by (simp add: bm_ok_def strict_sorted_equal)
  have "m = map (\<lambda>k. (k, the (map_of m k))) (map fst m)" if "bm_ok m" for m :: "('a \<times> 'b) list"
    using bm_ok_distinct [OF that] by (auto intro!: map_idI [symmetric] simp: comp_def)
  with assms keys show ?thesis by metis
qed

lemma set_bs_insert [simp]: "set (bs_insert k s) = insert k (set s)"
  by (induction k s rule: bs_insert.induct) auto

lemma bs_ok_Nil [simp]: "bs_ok []"
  by (simp add: bs_ok_def)

lemma bs_ok_insert [simp]: "bs_ok s \<Longrightarrow> bs_ok (bs_insert k s)"
  by (induction k s rule: bs_insert.induct) (auto simp: bs_ok_def)

lemma bs_ok_distinct: "bs_ok s \<Longrightarrow> distinct s"
  by (simp add: bs_ok_def strict_sorted_iff)

lemma bs_ext: "bs_ok s \<Longrightarrow> bs_ok s' \<Longrightarrow> set s = set s' \<Longrightarrow> s = s'"
  by (simp add: bs_ok_def strict_sorted_equal)

lemma bs_insert_no_change: "bs_ok s \<Longrightarrow> k \<in> set s \<Longrightarrow> bs_insert k s = s"
  by (simp add: bs_ext insert_absorb)

lemma fold_bs_insert: "set (fold bs_insert xs s) = set xs \<union> set s"
  by (induction xs arbitrary: s) auto

lemma fold_bs_insert_ok: "bs_ok s \<Longrightarrow> bs_ok (fold bs_insert xs s)"
  by (induction xs arbitrary: s) auto

lemma set_bs_of [simp]: "set (bs_of xs) = set xs"
  by (simp add: bs_of_def fold_bs_insert)

lemma bs_ok_bs_of [simp]: "bs_ok (bs_of xs)"
  by (simp add: bs_of_def fold_bs_insert_ok)

lemma length_bs_of: "length (bs_of xs) = card (set xs)"
  by (metis bs_ok_bs_of bs_ok_distinct distinct_card set_bs_of)

section \<open>Stores that only grow\<close>

text \<open>
  A store that accepts items one at a time, keeps the valid ones and forgets the order they came
  in: \<open>view\<close> is the set of items it holds, \<open>U\<close> the items that can reach it. Any two delivery
  orders of the same items give the same store, and an item delivered again changes nothing.
\<close>

locale grow_only =
  fixes ins :: "'x \<Rightarrow> 's \<Rightarrow> 's"
    and view :: "'s \<Rightarrow> 'x set"
    and valid :: "'x \<Rightarrow> bool"
    and wf :: "'s \<Rightarrow> bool"
    and U :: "'x set"
  assumes wf_ins: "wf s \<Longrightarrow> x \<in> U \<Longrightarrow> wf (ins x s)"
    and view_ins: "wf s \<Longrightarrow> x \<in> U \<Longrightarrow> view (ins x s) = view s \<union> {y. y = x \<and> valid y}"
    and view_determines: "wf s \<Longrightarrow> wf t \<Longrightarrow> view s = view t \<Longrightarrow> s = t"
begin

lemma wf_fold: "wf s \<Longrightarrow> set xs \<subseteq> U \<Longrightarrow> wf (fold ins xs s)"
  by (induction xs arbitrary: s) (auto simp: wf_ins)

lemma view_fold: "wf s \<Longrightarrow> set xs \<subseteq> U \<Longrightarrow> view (fold ins xs s) = view s \<union> {x \<in> set xs. valid x}"
  by (induction xs arbitrary: s) (auto simp: wf_ins view_ins)

lemma determined_by_view:
  assumes "wf s" and "set xs \<subseteq> U" and "wf t" and "view t = view s \<union> {x \<in> set xs. valid x}"
  shows "t = fold ins xs s"
  using assms by (intro view_determines) (simp_all add: wf_fold view_fold)

lemma order_independent:
  assumes "wf s" and "set xs \<subseteq> U" and "set xs = set ys"
  shows "fold ins xs s = fold ins ys s"
  using assms by (intro view_determines) (simp_all add: wf_fold view_fold)

lemma redelivery: "wf s \<Longrightarrow> x \<in> U \<Longrightarrow> x \<in> view s \<or> \<not> valid x \<Longrightarrow> ins x s = s"
  by (rule view_determines) (auto simp: wf_ins view_ins)

end

lemma map_of_determined:
  assumes "bm_ok m" and "bm_ok m'" and "set m = set m'"
  shows "m = m'"
proof (rule bm_ext [OF assms(1,2)])
  show "map_of m = map_of m'"
    using assms by (intro map_of_inject_set [THEN iffD2]) (simp_all add: bm_ok_distinct)
qed

lemma set_bm_insert:
  assumes "bm_ok m"
  shows "set (bm_insert k v m) = insert (k, v) {(a, b) \<in> set m. a \<noteq> k}"
proof -
  have "(a, b) \<in> set (bm_insert k v m) \<longleftrightarrow> bm_get (bm_insert k v m) a = Some b" for a b
    using bm_get_in_set [OF bm_ok_insert [OF assms]] by simp
  then show ?thesis using bm_get_in_set [OF assms] by (auto split: if_splits)
qed

lemma length_bm_insert:
  assumes "bm_ok m"
  shows "length (bm_insert k v m) = (if bm_get m k = None then Suc (length m) else length m)"
proof -
  have "length n = card (fst ` set n)" if "bm_ok n" for n :: "('a \<times> 'b) list"
    using bm_ok_distinct [OF that] distinct_card [of "map fst n"] by simp
  with assms show ?thesis
    by (simp add: map_of_eq_None_iff insert_absorb)
qed

interpretation bm_grow: grow_only "\<lambda>(k, v). bm_insert k v" set "\<lambda>_. True"
    "\<lambda>m. bm_ok m \<and> set m \<subseteq> U \<and> inj_on fst U" U for U
proof unfold_locales
  fix s :: "('a::linorder \<times> 'b) list" and x
  assume s: "bm_ok s \<and> set s \<subseteq> U \<and> inj_on fst U" and x: "x \<in> U"
  obtain k v where kv: "x = (k, v)" by fastforce
  have set: "set (bm_insert k v s) = insert (k, v) {(a, b) \<in> set s. a \<noteq> k}"
    using s by (simp add: set_bm_insert)
  with s x show "bm_ok ((case x of (k, v) \<Rightarrow> bm_insert k v) s)
      \<and> set ((case x of (k, v) \<Rightarrow> bm_insert k v) s) \<subseteq> U \<and> inj_on fst U"
    by (auto simp: kv)
  have "(k, b) \<in> set s \<Longrightarrow> b = v" for b
    using s x inj_onD [of fst U "(k, b)" "(k, v)"] by (auto simp: kv)
  with set show "set ((case x of (k, v) \<Rightarrow> bm_insert k v) s) = set s \<union> {y. y = x \<and> True}"
    by (auto simp: kv)
qed (use map_of_determined in blast)

interpretation bs_grow: grow_only bs_insert set "\<lambda>_. True" bs_ok UNIV
  by unfold_locales (auto intro: bs_ext)

section \<open>Loops that run until a round changes nothing\<close>

text \<open>
  Three loops of the core have one shape: run a round over everything, and go again while the
  round reported progress. \<open>run_rounds\<close> is that loop cut off after \<open>n\<close> rounds, so
  that "it stops, and after how many rounds" can be said of the loop itself.
\<close>

fun run_rounds :: "('s \<Rightarrow> 's \<times> bool) \<Rightarrow> nat \<Rightarrow> 's \<Rightarrow> 's option" where
  "run_rounds round 0 s = None"
| "run_rounds round (Suc n) s =
     (case round s of (s', progress) \<Rightarrow> if progress then run_rounds round n s' else Some s')"

locale settling_loop =
  fixes round :: "'s \<Rightarrow> 's \<times> bool"
    and loop :: "'s \<Rightarrow> 's"
    and meas :: "'s \<Rightarrow> nat"
  assumes loop_unfold: "loop s = (case round s of (s', progress) \<Rightarrow> if progress then loop s' else s')"
    and round_decreases: "round s = (s', True) \<Longrightarrow> meas s' < meas s"
begin

lemma loop_induct:
  assumes "\<And>s. (\<And>s'. round s = (s', True) \<Longrightarrow> P s') \<Longrightarrow> P s"
  shows "P s"
proof (induction "meas s" arbitrary: s rule: less_induct)
  case less
  show ?case by (rule assms) (auto dest: round_decreases intro: less)
qed

text \<open>A property that every round keeps holds of the result.\<close>

lemma loop_inv:
  assumes "P s" and "\<And>s. P s \<Longrightarrow> P (fst (round s))"
  shows "P (loop s)"
  using assms(1)
proof (induction s rule: loop_induct)
  case (1 s)
  show ?case
  proof (cases "round s")
    case (Pair s' progress)
    with 1 assms(2) [of s] have "P s'" by simp
    with Pair 1 show ?thesis by (subst loop_unfold) (cases progress; simp)
  qed
qed

text \<open>The result comes from a round that made no progress.\<close>

lemma loop_settled_inv:
  assumes "P s" and step: "\<And>s. P s \<Longrightarrow> P (fst (round s))"
  obtains t where "P t" and "round t = (loop s, False)"
proof -
  have "\<exists>t. P t \<and> round t = (loop s, False)"
    using assms(1)
  proof (induction s rule: loop_induct)
    case (1 s)
    show ?case
    proof (cases "round s")
      case (Pair s' progress)
      with 1(2) step [of s] have s': "P s'" by simp
      show ?thesis
      proof (cases progress)
        case True
        then have "loop s = loop s'" using Pair by (subst loop_unfold) simp
        with 1(1) Pair True s' show ?thesis by simp
      next
        case False
        then have "loop s = s'" using Pair by (subst loop_unfold) simp
        with Pair False 1(2) show ?thesis by (auto intro!: exI [of _ s])
      qed
    qed
  qed
  then show thesis using that by blast
qed

text \<open>The measure bounds the rounds, the last one (without progress) included.\<close>

lemma run_rounds_loop: "meas s < n \<Longrightarrow> run_rounds round n s = Some (loop s)"
proof (induction n arbitrary: s)
  case (Suc n)
  show ?case
  proof (cases "round s")
    case (Pair s' progress)
    show ?thesis
    proof (cases progress)
      case True
      with Pair round_decreases [of s s'] Suc.prems have "meas s' < n" by simp
      moreover have "loop s = loop s'" using Pair True by (subst loop_unfold) simp
      ultimately show ?thesis using Suc.IH Pair True by simp
    next
      case False
      then have "loop s = s'" using Pair by (subst loop_unfold) simp
      with Pair False show ?thesis by simp
    qed
  qed
qed simp

end

text \<open>
  The two facts a fold over a round's items needs: a property kept by every step is kept by the
  fold, and the items may be assumed to come from the list.
\<close>

lemma fold_invariant_set:
  assumes "P s" and "\<And>x s. x \<in> set xs \<Longrightarrow> P s \<Longrightarrow> P (f x s)"
  shows "P (fold f xs s)"
  using assms by (induction xs arbitrary: s) auto

lemma set_map_filter: "set (List.map_filter f xs) = {y. \<exists>x \<in> set xs. f x = Some y}"
  by (force simp: List.map_filter_def)

lemma fold_no_change:
  assumes "\<And>x. x \<in> set xs \<Longrightarrow> f x s = s"
  shows "fold f xs s = s"
  using assms by (induction xs) auto

end
