(* ===== verification/Core_Error.thy ===== *)
theory Core_Error
  imports Prelude
begin

text \<open>
  The error type of the core crate (\<open>error.rs\<close>). \<open>CgkaError\<close> belongs to beekem: the
  crate names three of its variants and passes the rest through.
\<close>

datatype cgka_error =
    OutOfOrderOperation
  | RemoveLastMember
  | IdentifierNotFound
  | OtherCgkaError string

datatype core_error =
    Cgka cgka_error
  | BadSignature
  | WrongDomain
  | Unauthorized bytes32
  | Uncertified bytes32
  | Signing string
  | Aead
  | MalformedSegment string
  | SignerYielded
  | MissingInitAdd
  | NotInvited
  | IncompleteLog nat
  | Serialization string
  | MalformedKey bytes32
  | SnapshotVersion u16 u16
  | ManifestError string
  | UnknownDocument
  | UnknownVersion string
  | UnknownDevice
  | NotThisUsersDevice
  | NotAnAdmin
  | NotAWriter
  | QuorumRequired u32 u32
  | LastAdmin

type_synonym 'a core_result = "core_error + 'a"

end
