(* ===== verification/Capability.thy ===== *)
theory Capability
  imports Core_Error
begin

text \<open>
  The authorization component (\<open>capability.rs\<close>): signed certificates, the store that
  accepts them, and the closure the store derives from the certificate set. Signatures, digests
  and curve points belong to \<open>keyhive_crypto\<close> and \<open>ed25519_dalek\<close>, so they are
  the record \<open>cert_crypto\<close> of functions that the operations take as an argument.
\<close>

section \<open>Roles\<close>

datatype role = Admin | Editor | Viewer

definition can_write :: "role \<Rightarrow> bool" where
  "can_write r \<longleftrightarrow> r = Admin \<or> r = Editor"

definition can_administer :: "role \<Rightarrow> bool" where
  "can_administer r \<longleftrightarrow> r = Admin"

lemma role_simps [simp]:
  "can_write Admin" "can_write Editor" "\<not> can_write Viewer"
  "can_administer Admin" "\<not> can_administer Editor" "\<not> can_administer Viewer"
  by (simp_all add: can_write_def can_administer_def)

section \<open>Signed payloads\<close>

text \<open>A sixteen-byte ASCII tag, read as the big-endian word of its bytes.\<close>

definition ascii16 :: "string \<Rightarrow> bytes16" where
  "ascii16 s = foldl (\<lambda>acc c. acc * 256 + of_nat (of_char c)) 0 s"

definition GRANT_DOMAIN :: bytes16 where
  "GRANT_DOMAIN = ascii16 ''iroh-beekem/grnt''"

definition BINDING_DOMAIN :: bytes16 where
  "BINDING_DOMAIN = ascii16 ''iroh-beekem/bind''"

definition PROPOSAL_DOMAIN :: bytes16 where
  "PROPOSAL_DOMAIN = ascii16 ''iroh-beekem/prop''"

definition APPROVAL_DOMAIN :: bytes16 where
  "APPROVAL_DOMAIN = ascii16 ''iroh-beekem/aprv''"

definition POLICY_DOMAIN :: bytes16 where
  "POLICY_DOMAIN = ascii16 ''iroh-beekem/plcy''"

definition DEFAULT_THRESHOLD :: u32 where
  "DEFAULT_THRESHOLD = 1"

record grant =
  g_domain :: bytes16
  g_subject :: bytes32
  g_capability :: role
  g_seq :: u64
  g_not_after :: "u64 option"
  g_nonce :: bytes16

record policy =
  pl_domain :: bytes16
  pl_threshold :: u32
  pl_nonce :: bytes16

datatype admin_action =
    RemoveMember bytes32
  | SetRole bytes32 role

record admin_proposal =
  ap_domain :: bytes16
  ap_action :: admin_action
  ap_seq :: u64
  ap_expires :: "u64 option"
  ap_nonce :: bytes16

record approval =
  av_domain :: bytes16
  av_proposal :: bytes32
  av_nonce :: bytes16

record device_binding =
  db_domain :: bytes16
  db_device :: bytes32
  db_user :: bytes32
  db_nonce :: bytes16

text \<open>\<open>keyhive_crypto::signed::Signed<T>\<close>: a payload, its issuer's key, a signature.\<close>

record 'p signed =
  sg_issuer :: bytes32
  sg_payload :: 'p
  sg_signature :: bytes

datatype certificate =
    Grant "grant signed"
  | Binding "device_binding signed"
  | Proposal "admin_proposal signed"
  | Approval "approval signed"
  | Policy "policy signed"

definition grant_new :: "bytes32 \<Rightarrow> role \<Rightarrow> u64 \<Rightarrow> u64 option \<Rightarrow> bytes16 \<Rightarrow> grant" where
  "grant_new subject capability sq not_after nonce =
     \<lparr>g_domain = GRANT_DOMAIN, g_subject = subject, g_capability = capability, g_seq = sq,
      g_not_after = not_after, g_nonce = nonce\<rparr>"

definition device_binding_new :: "bytes32 \<Rightarrow> bytes32 \<Rightarrow> bytes16 \<Rightarrow> device_binding" where
  "device_binding_new device user nonce =
     \<lparr>db_domain = BINDING_DOMAIN, db_device = device, db_user = user, db_nonce = nonce\<rparr>"

definition admin_proposal_new :: "admin_action \<Rightarrow> u64 \<Rightarrow> u64 option \<Rightarrow> bytes16 \<Rightarrow> admin_proposal" where
  "admin_proposal_new action sq expires nonce =
     \<lparr>ap_domain = PROPOSAL_DOMAIN, ap_action = action, ap_seq = sq, ap_expires = expires,
      ap_nonce = nonce\<rparr>"

definition approval_new :: "bytes32 \<Rightarrow> bytes16 \<Rightarrow> approval" where
  "approval_new proposal nonce =
     \<lparr>av_domain = APPROVAL_DOMAIN, av_proposal = proposal, av_nonce = nonce\<rparr>"

definition policy_new :: "u32 \<Rightarrow> bytes16 \<Rightarrow> policy" where
  "policy_new threshold nonce =
     \<lparr>pl_domain = POLICY_DOMAIN, pl_threshold = threshold, pl_nonce = nonce\<rparr>"

section \<open>What the crate takes from its crypto libraries\<close>

text \<open>
  \<open>cc_verify\<close> is \<open>Signed::try_verify\<close>, \<open>cc_digest\<close> is
  \<open>Signed::digest\<close>, the \<open>cc_sign\<close> fields are \<open>MemorySigner::try_sign_sync\<close> at each
  payload type (the signer is its 32 secret bytes), \<open>cc_verifying_key\<close> is
  \<open>MemorySigner::verifying_key\<close> and \<open>cc_is_point\<close> says when
  \<open>VerifyingKey::from_bytes\<close> succeeds.
\<close>

record cert_crypto =
  cc_verify :: "certificate \<Rightarrow> bool"
  cc_digest :: "certificate \<Rightarrow> bytes32"
  cc_sign_grant :: "bytes32 \<Rightarrow> grant \<Rightarrow> string + grant signed"
  cc_sign_binding :: "bytes32 \<Rightarrow> device_binding \<Rightarrow> string + device_binding signed"
  cc_sign_proposal :: "bytes32 \<Rightarrow> admin_proposal \<Rightarrow> string + admin_proposal signed"
  cc_sign_approval :: "bytes32 \<Rightarrow> approval \<Rightarrow> string + approval signed"
  cc_sign_policy :: "bytes32 \<Rightarrow> policy \<Rightarrow> string + policy signed"
  cc_verifying_key :: "bytes32 \<Rightarrow> bytes32"
  cc_is_point :: "bytes32 \<Rightarrow> bool"

text \<open>A \<open>MemberId\<close> is identified with the 32 bytes of its key.\<close>

definition member_from_bytes :: "cert_crypto \<Rightarrow> bytes32 \<Rightarrow> bytes32 core_result" where
  "member_from_bytes X b = (if cc_is_point X b then Inr b else Inl (MalformedKey b))"

definition signed_as :: "('p signed \<Rightarrow> certificate) \<Rightarrow> string + 'p signed \<Rightarrow> certificate core_result" where
  "signed_as wrap r = (case r of Inl e \<Rightarrow> Inl (Signing e) | Inr sg \<Rightarrow> Inr (wrap sg))"

definition grant_sign :: "cert_crypto \<Rightarrow> grant \<Rightarrow> bytes32 \<Rightarrow> certificate core_result" where
  "grant_sign X g signer = signed_as Grant (cc_sign_grant X signer g)"

definition device_binding_sign :: "cert_crypto \<Rightarrow> device_binding \<Rightarrow> bytes32 \<Rightarrow> certificate core_result" where
  "device_binding_sign X b signer = signed_as Binding (cc_sign_binding X signer b)"

definition admin_proposal_sign :: "cert_crypto \<Rightarrow> admin_proposal \<Rightarrow> bytes32 \<Rightarrow> certificate core_result" where
  "admin_proposal_sign X p signer = signed_as Proposal (cc_sign_proposal X signer p)"

definition approval_sign :: "cert_crypto \<Rightarrow> approval \<Rightarrow> bytes32 \<Rightarrow> certificate core_result" where
  "approval_sign X a signer = signed_as Approval (cc_sign_approval X signer a)"

definition policy_sign :: "cert_crypto \<Rightarrow> policy \<Rightarrow> bytes32 \<Rightarrow> certificate core_result" where
  "policy_sign X p signer = signed_as Policy (cc_sign_policy X signer p)"

fun certificate_issuer :: "certificate \<Rightarrow> bytes32" where
  "certificate_issuer (Grant sg) = sg_issuer sg"
| "certificate_issuer (Binding sg) = sg_issuer sg"
| "certificate_issuer (Proposal sg) = sg_issuer sg"
| "certificate_issuer (Approval sg) = sg_issuer sg"
| "certificate_issuer (Policy sg) = sg_issuer sg"

definition certificate_digest :: "cert_crypto \<Rightarrow> certificate \<Rightarrow> bytes32" where
  "certificate_digest X c = cc_digest X c"

fun domain_ok :: "certificate \<Rightarrow> bool" where
  "domain_ok (Grant sg) = (g_domain (sg_payload sg) = GRANT_DOMAIN)"
| "domain_ok (Binding sg) = (db_domain (sg_payload sg) = BINDING_DOMAIN)"
| "domain_ok (Proposal sg) = (ap_domain (sg_payload sg) = PROPOSAL_DOMAIN)"
| "domain_ok (Approval sg) = (av_domain (sg_payload sg) = APPROVAL_DOMAIN)"
| "domain_ok (Policy sg) = (pl_domain (sg_payload sg) = POLICY_DOMAIN)"

definition certificate_verify :: "cert_crypto \<Rightarrow> certificate \<Rightarrow> unit core_result" where
  "certificate_verify X c =
     (if domain_ok c then (if cc_verify X c then Inr () else Inl BadSignature)
      else Inl WrongDomain)"

abbreviation cert_valid :: "cert_crypto \<Rightarrow> certificate \<Rightarrow> bool" where
  "cert_valid X c \<equiv> certificate_verify X c = Inr ()"

lemma cert_valid_iff: "cert_valid X c \<longleftrightarrow> domain_ok c \<and> cc_verify X c"
  by (simp add: certificate_verify_def)

section \<open>The certificate store\<close>

record capability_store =
  cs_founder :: bytes32
  cs_grants :: "(bytes32, grant signed) btree_map"
  cs_bindings :: "(bytes32, device_binding signed) btree_map"
  cs_device_user :: "(bytes32, bytes32) btree_map"
  cs_ever_admin :: "bytes32 btree_set"
  cs_roles :: "(bytes32, role) btree_map"
  cs_proposals :: "(bytes32, admin_proposal signed) btree_map"
  cs_approvals :: "(bytes32, approval signed) btree_map"
  cs_policies :: "(bytes32, policy signed) btree_map"
  cs_threshold :: u32
  cs_executed :: "bytes32 btree_set"

subsection \<open>The derived closure\<close>

definition resolve_threshold :: "capability_store \<Rightarrow> u32" where
  "resolve_threshold S =
     (case [max (pl_threshold (sg_payload sg)) 1. sg \<leftarrow> map snd (cs_policies S), sg_issuer sg = cs_founder S]
      of [] \<Rightarrow> DEFAULT_THRESHOLD | t # ts \<Rightarrow> fold max ts t)"

definition approving_users ::
  "(bytes32, approval signed) btree_map \<Rightarrow> (bytes32, bytes32) btree_map \<Rightarrow> bytes32 btree_set
     \<Rightarrow> bytes32 \<Rightarrow> bytes32 btree_set" where
  "approving_users approvals device_user ever_admin proposal =
     bs_of (filter (\<lambda>user. user \<in> set ever_admin)
       (List.map_filter (\<lambda>sg. bm_get device_user (sg_issuer sg))
         (filter (\<lambda>sg. av_proposal (sg_payload sg) = proposal) (map snd approvals))))"

definition grant_is_authorised ::
  "u32 \<Rightarrow> bytes32 \<Rightarrow> bytes32 \<Rightarrow> grant \<Rightarrow> bytes32 btree_set
     \<Rightarrow> (bytes32, admin_proposal signed) btree_map \<Rightarrow> bool" where
  "grant_is_authorised threshold issuer_user founder g executed proposals \<longleftrightarrow>
     threshold \<le> DEFAULT_THRESHOLD \<or> issuer_user = founder
     \<or> list_ex (\<lambda>digest. case bm_get proposals digest of
           None \<Rightarrow> False
         | Some sg \<Rightarrow> ap_action (sg_payload sg) = SetRole (g_subject g) (g_capability g)) executed"

text \<open>The local variables of \<open>recompute\<close> that its loop grows.\<close>

record closure =
  cl_device_user :: "(bytes32, bytes32) btree_map"
  cl_ever_admin :: "bytes32 btree_set"
  cl_executed :: "bytes32 btree_set"

definition bind_step :: "bytes32 \<times> device_binding signed \<Rightarrow> closure \<times> bool \<Rightarrow> closure \<times> bool" where
  "bind_step = (\<lambda>(digest, sg) (c, changed).
     let b = sg_payload sg in
     if bm_get (cl_device_user c) (db_device b) \<noteq> None then (c, changed)
     else case bm_get (cl_device_user c) (sg_issuer sg) of
         None \<Rightarrow> (c, changed)
       | Some issuer_user \<Rightarrow>
           if issuer_user = db_user b \<or> issuer_user \<in> set (cl_ever_admin c)
           then (c\<lparr>cl_device_user := bm_insert (db_device b) (db_user b) (cl_device_user c)\<rparr>, True)
           else (c, changed))"

definition propose_step ::
  "capability_store \<Rightarrow> u32 \<Rightarrow> bytes32 \<times> admin_proposal signed \<Rightarrow> closure \<times> bool \<Rightarrow> closure \<times> bool" where
  "propose_step S threshold = (\<lambda>(digest, sg) (c, changed).
     if digest \<in> set (cl_executed c) then (c, changed)
     else case bm_get (cl_device_user c) (sg_issuer sg) of
         None \<Rightarrow> (c, changed)
       | Some issuer_user \<Rightarrow>
           if issuer_user \<notin> set (cl_ever_admin c) then (c, changed)
           else if unat threshold \<le> length (approving_users (cs_approvals S) (cl_device_user c)
                                       (cl_ever_admin c) digest)
           then (c\<lparr>cl_executed := bs_insert digest (cl_executed c)\<rparr>, True)
           else (c, changed))"

definition grant_step ::
  "capability_store \<Rightarrow> u32 \<Rightarrow> bytes32 \<times> grant signed \<Rightarrow> closure \<times> bool \<Rightarrow> closure \<times> bool" where
  "grant_step S threshold = (\<lambda>(digest, sg) (c, changed).
     let g = sg_payload sg in
     if \<not> can_administer (g_capability g) then (c, changed)
     else case bm_get (cl_device_user c) (sg_issuer sg) of
         None \<Rightarrow> (c, changed)
       | Some issuer_user \<Rightarrow>
           if issuer_user \<notin> set (cl_ever_admin c) then (c, changed)
           else if \<not> grant_is_authorised threshold issuer_user (cs_founder S) g (cl_executed c)
                       (cs_proposals S) then (c, changed)
           else if g_subject g \<in> set (cl_ever_admin c) then (c, changed)
           else (c\<lparr>cl_ever_admin := bs_insert (g_subject g) (cl_ever_admin c)\<rparr>, True))"

text \<open>One turn of the \<open>loop\<close>: the bindings, then the proposals, then the grants.\<close>

definition closure_round :: "capability_store \<Rightarrow> u32 \<Rightarrow> closure \<Rightarrow> closure \<times> bool" where
  "closure_round S threshold c =
     fold (grant_step S threshold) (cs_grants S)
       (fold (propose_step S threshold) (cs_proposals S)
         (fold bind_step (cs_bindings S) (c, False)))"

text \<open>What is still missing from the closure; every change makes it smaller.\<close>

definition closure_gap :: "capability_store \<Rightarrow> closure \<Rightarrow> nat" where
  "closure_gap S c =
     card ((db_device \<circ> sg_payload \<circ> snd) ` set (cs_bindings S) - fst ` set (cl_device_user c))
     + card (fst ` set (cs_proposals S) - set (cl_executed c))
     + card ((g_subject \<circ> sg_payload \<circ> snd) ` set (cs_grants S) - set (cl_ever_admin c))"

definition closure_pending :: "capability_store \<Rightarrow> closure \<Rightarrow> closure \<times> bool \<Rightarrow> bool" where
  "closure_pending S c0 = (\<lambda>(c, changed).
     closure_gap S c \<le> closure_gap S c0 \<and> (changed \<longrightarrow> closure_gap S c < closure_gap S c0))"

lemma card_Diff_insert_less:
  "finite A \<Longrightarrow> x \<in> A \<Longrightarrow> x \<notin> B \<Longrightarrow> card (A - insert x B) < card (A - B)"
  by (rule psubset_card_mono) auto

lemma bind_step_pending:
  assumes "x \<in> set (cs_bindings S)" and "closure_pending S c0 st"
  shows "closure_pending S c0 (bind_step x st)"
proof -
  obtain digest sg c changed where x: "x = (digest, sg)" and st: "st = (c, changed)"
    by (metis surj_pair)
  let ?A = "(db_device \<circ> sg_payload \<circ> snd) ` set (cs_bindings S)"
  have "db_device (sg_payload sg) \<in> ?A" using assms(1) x by force
  then have "bm_get (cl_device_user c) (db_device (sg_payload sg)) = None \<Longrightarrow>
      card (?A - insert (db_device (sg_payload sg)) (fst ` set (cl_device_user c)))
        < card (?A - fst ` set (cl_device_user c))"
    by (intro card_Diff_insert_less) (auto simp: map_of_eq_None_iff)
  with assms(2) show ?thesis
    by (auto simp: x st bind_step_def closure_pending_def closure_gap_def Let_def split: option.splits)
qed

lemma propose_step_pending:
  assumes "x \<in> set (cs_proposals S)" and "closure_pending S c0 st"
  shows "closure_pending S c0 (propose_step S t x st)"
proof -
  obtain digest sg c changed where x: "x = (digest, sg)" and st: "st = (c, changed)"
    by (metis surj_pair)
  have "digest \<in> fst ` set (cs_proposals S)" using assms(1) x by force
  then have "digest \<notin> set (cl_executed c) \<Longrightarrow>
      card (fst ` set (cs_proposals S) - insert digest (set (cl_executed c)))
        < card (fst ` set (cs_proposals S) - set (cl_executed c))"
    by (intro card_Diff_insert_less) auto
  with assms(2) show ?thesis
    by (auto simp: x st propose_step_def closure_pending_def closure_gap_def split: option.splits)
qed

lemma grant_step_pending:
  assumes "x \<in> set (cs_grants S)" and "closure_pending S c0 st"
  shows "closure_pending S c0 (grant_step S t x st)"
proof -
  obtain digest sg c changed where x: "x = (digest, sg)" and st: "st = (c, changed)"
    by (metis surj_pair)
  let ?A = "(g_subject \<circ> sg_payload \<circ> snd) ` set (cs_grants S)"
  have "g_subject (sg_payload sg) \<in> ?A" using assms(1) x by force
  then have "g_subject (sg_payload sg) \<notin> set (cl_ever_admin c) \<Longrightarrow>
      card (?A - insert (g_subject (sg_payload sg)) (set (cl_ever_admin c)))
        < card (?A - set (cl_ever_admin c))"
    by (intro card_Diff_insert_less) auto
  with assms(2) show ?thesis
    by (auto simp: x st grant_step_def closure_pending_def closure_gap_def Let_def split: option.splits)
qed

lemma closure_round_gap:
  assumes "closure_round S t c = (c', True)"
  shows "closure_gap S c' < closure_gap S c"
proof -
  have "closure_pending S c (fold bind_step (cs_bindings S) (c, False))"
    by (rule fold_invariant_set) (simp add: closure_pending_def, rule bind_step_pending)
  then have "closure_pending S c (fold (propose_step S t) (cs_proposals S)
      (fold bind_step (cs_bindings S) (c, False)))"
    by (rule fold_invariant_set) (rule propose_step_pending)
  then have "closure_pending S c (closure_round S t c)"
    unfolding closure_round_def by (rule fold_invariant_set) (rule grant_step_pending)
  with assms show ?thesis by (simp add: closure_pending_def)
qed

function closure_loop :: "capability_store \<Rightarrow> u32 \<Rightarrow> closure \<Rightarrow> closure" where
  "closure_loop S threshold c =
     (case closure_round S threshold c of
        (c', changed) \<Rightarrow> if changed then closure_loop S threshold c' else c')"
  by pat_completeness auto
termination
  by (relation "measure (\<lambda>(S, t, c). closure_gap S c)") (auto dest: closure_round_gap [OF sym])

declare closure_loop.simps [simp del]

interpretation closure_settles: settling_loop "closure_round S t" "closure_loop S t" "closure_gap S"
  for S t
  by unfold_locales (rule closure_loop.simps, erule closure_round_gap)

subsection \<open>Resolving roles\<close>

text \<open>
  \<open>best\<close> is the rank \<open>(seq, digest)\<close> a user's role was set at, \<open>roles\<close> the role.
\<close>

definition supersede ::
  "bytes32 \<Rightarrow> role \<Rightarrow> u64 \<times> bytes32
     \<Rightarrow> (bytes32, u64 \<times> bytes32) btree_map \<times> (bytes32, role) btree_map
     \<Rightarrow> (bytes32, u64 \<times> bytes32) btree_map \<times> (bytes32, role) btree_map" where
  "supersede user r rank = (\<lambda>(best, roles).
     if (case bm_get best user of None \<Rightarrow> True | Some current \<Rightarrow> current < rank)
     then (bm_insert user rank best, bm_insert user r roles)
     else (best, roles))"

definition role_grant_step ::
  "capability_store \<Rightarrow> u32 \<Rightarrow> closure \<Rightarrow> bytes32 \<times> grant signed
     \<Rightarrow> (bytes32, u64 \<times> bytes32) btree_map \<times> (bytes32, role) btree_map
     \<Rightarrow> (bytes32, u64 \<times> bytes32) btree_map \<times> (bytes32, role) btree_map" where
  "role_grant_step S threshold c = (\<lambda>(digest, sg) st.
     case bm_get (cl_device_user c) (sg_issuer sg) of
       None \<Rightarrow> st
     | Some issuer_user \<Rightarrow>
         if issuer_user \<notin> set (cl_ever_admin c) then st
         else if \<not> grant_is_authorised threshold issuer_user (cs_founder S) (sg_payload sg)
                     (cl_executed c) (cs_proposals S) then st
         else supersede (g_subject (sg_payload sg)) (g_capability (sg_payload sg))
                (g_seq (sg_payload sg), digest) st)"

definition role_proposal_step ::
  "closure \<Rightarrow> bytes32 \<times> admin_proposal signed
     \<Rightarrow> (bytes32, u64 \<times> bytes32) btree_map \<times> (bytes32, role) btree_map
     \<Rightarrow> (bytes32, u64 \<times> bytes32) btree_map \<times> (bytes32, role) btree_map" where
  "role_proposal_step c = (\<lambda>(digest, sg) st.
     if digest \<notin> set (cl_executed c) then st
     else case ap_action (sg_payload sg) of
         RemoveMember _ \<Rightarrow> st
       | SetRole user r \<Rightarrow> supersede user r (ap_seq (sg_payload sg), digest) st)"

definition resolve_roles :: "capability_store \<Rightarrow> u32 \<Rightarrow> closure \<Rightarrow> (bytes32, role) btree_map" where
  "resolve_roles S threshold c =
     snd (fold (role_proposal_step c) (cs_proposals S)
       (fold (role_grant_step S threshold c) (cs_grants S)
         ([(cs_founder S, (0, 0))], [(cs_founder S, Admin)])))"

definition closure_init :: "capability_store \<Rightarrow> closure" where
  "closure_init S =
     \<lparr>cl_device_user = [(cs_founder S, cs_founder S)], cl_ever_admin = [cs_founder S],
      cl_executed = []\<rparr>"

definition recompute :: "capability_store \<Rightarrow> capability_store" where
  "recompute S =
     (let threshold = resolve_threshold S;
          c = closure_loop S threshold (closure_init S);
          roles = resolve_roles S threshold c
      in S\<lparr>cs_threshold := threshold, cs_executed := cl_executed c,
           cs_device_user := cl_device_user c, cs_ever_admin := cl_ever_admin c,
           cs_roles := roles\<rparr>)"

subsection \<open>Construction and growth\<close>

definition capability_store_new :: "bytes32 \<Rightarrow> capability_store" where
  "capability_store_new founder = recompute
     \<lparr>cs_founder = founder, cs_grants = [], cs_bindings = [], cs_device_user = [],
      cs_ever_admin = [], cs_roles = [], cs_proposals = [], cs_approvals = [], cs_policies = [],
      cs_threshold = DEFAULT_THRESHOLD, cs_executed = []\<rparr>"

text \<open>\<open>stage\<close> answers whether the digest was new; a certificate that does not verify is an error.\<close>

definition stage :: "cert_crypto \<Rightarrow> certificate \<Rightarrow> capability_store \<Rightarrow> (capability_store, core_error, bool) step" where
  "stage X cert S =
     (case certificate_verify X cert of
        Inl e \<Rightarrow> (S, Inl e)
      | Inr _ \<Rightarrow>
          let digest = certificate_digest X cert in
          (case cert of
             Grant sg \<Rightarrow> (S\<lparr>cs_grants := bm_insert digest sg (cs_grants S)\<rparr>,
                          Inr (bm_get (cs_grants S) digest = None))
           | Binding sg \<Rightarrow> (S\<lparr>cs_bindings := bm_insert digest sg (cs_bindings S)\<rparr>,
                          Inr (bm_get (cs_bindings S) digest = None))
           | Proposal sg \<Rightarrow> (S\<lparr>cs_proposals := bm_insert digest sg (cs_proposals S)\<rparr>,
                          Inr (bm_get (cs_proposals S) digest = None))
           | Approval sg \<Rightarrow> (S\<lparr>cs_approvals := bm_insert digest sg (cs_approvals S)\<rparr>,
                          Inr (bm_get (cs_approvals S) digest = None))
           | Policy sg \<Rightarrow> (S\<lparr>cs_policies := bm_insert digest sg (cs_policies S)\<rparr>,
                          Inr (bm_get (cs_policies S) digest = None))))"

definition store_insert :: "cert_crypto \<Rightarrow> certificate \<Rightarrow> capability_store \<Rightarrow> (capability_store, core_error, bool) step" where
  "store_insert X cert S =
     and_then (stage X cert S) (\<lambda>changed S'. (if changed then recompute S' else S', Inr changed))"

definition extend_step :: "cert_crypto \<Rightarrow> certificate \<Rightarrow> capability_store \<times> nat \<Rightarrow> capability_store \<times> nat" where
  "extend_step X cert = (\<lambda>(S, added).
     case stage X cert S of (S', Inr True) \<Rightarrow> (S', Suc added) | (S', _) \<Rightarrow> (S', added))"

definition store_extend :: "cert_crypto \<Rightarrow> certificate list \<Rightarrow> capability_store \<Rightarrow> capability_store \<times> nat" where
  "store_extend X certs S =
     (let (S', added) = fold (extend_step X) certs (S, 0)
      in (if 0 < added then recompute S' else S', added))"

definition certificates :: "capability_store \<Rightarrow> certificate list" where
  "certificates S =
     map Binding (map snd (cs_bindings S)) @ map Grant (map snd (cs_grants S))
     @ map Proposal (map snd (cs_proposals S)) @ map Approval (map snd (cs_approvals S))
     @ map Policy (map snd (cs_policies S))"

definition store_len :: "capability_store \<Rightarrow> nat" where
  "store_len S = length (cs_grants S) + length (cs_bindings S) + length (cs_proposals S)
     + length (cs_approvals S) + length (cs_policies S)"

definition store_is_empty :: "capability_store \<Rightarrow> bool" where
  "store_is_empty S \<longleftrightarrow> store_len S = 0"

subsection \<open>Queries\<close>

definition approvers :: "capability_store \<Rightarrow> bytes32 \<Rightarrow> bytes32 btree_set" where
  "approvers S proposal = approving_users (cs_approvals S) (cs_device_user S) (cs_ever_admin S) proposal"

definition approver_count :: "capability_store \<Rightarrow> bytes32 \<Rightarrow> nat" where
  "approver_count S proposal = length (approvers S proposal)"

definition proposes :: "capability_store \<Rightarrow> admin_action \<Rightarrow> bytes32 \<Rightarrow> bool" where
  "proposes S action digest \<longleftrightarrow>
     (case bm_get (cs_proposals S) digest of None \<Rightarrow> False | Some sg \<Rightarrow> ap_action (sg_payload sg) = action)"

definition is_executed_action :: "capability_store \<Rightarrow> admin_action \<Rightarrow> bool" where
  "is_executed_action S action \<longleftrightarrow> list_ex (proposes S action) (cs_executed S)"

definition is_executable :: "capability_store \<Rightarrow> bytes32 \<Rightarrow> bool" where
  "is_executable S proposal \<longleftrightarrow> proposal \<in> set (cs_executed S)"

definition proof_of :: "capability_store \<Rightarrow> admin_action \<Rightarrow> certificate list" where
  "proof_of S action =
     (case find (proposes S action) (cs_executed S) of
        None \<Rightarrow> []
      | Some digest \<Rightarrow>
          map Policy (filter (\<lambda>sg. sg_issuer sg = cs_founder S) (map snd (cs_policies S)))
          @ (case bm_get (cs_proposals S) digest of None \<Rightarrow> [] | Some sg \<Rightarrow> [Proposal sg])
          @ map Approval (filter (\<lambda>sg. av_proposal (sg_payload sg) = digest) (map snd (cs_approvals S))))"

definition executable :: "capability_store \<Rightarrow> (bytes32 \<times> admin_action) list" where
  "executable S = List.map_filter (\<lambda>digest.
     map_option (\<lambda>sg. (digest, ap_action (sg_payload sg))) (bm_get (cs_proposals S) digest)) (cs_executed S)"

record proposal_status =
  ps_digest :: bytes32
  ps_action :: admin_action
  ps_approvals :: nat
  ps_required :: u32
  ps_executable :: bool

definition proposals :: "capability_store \<Rightarrow> proposal_status list" where
  "proposals S = map (\<lambda>(digest, sg).
     \<lparr>ps_digest = digest, ps_action = ap_action (sg_payload sg), ps_approvals = approver_count S digest,
      ps_required = cs_threshold S, ps_executable = (digest \<in> set (cs_executed S))\<rparr>) (cs_proposals S)"

definition highest_succ :: "u64 list \<Rightarrow> u64" where
  "highest_succ seqs = (case seqs of [] \<Rightarrow> 0 | s # ss \<Rightarrow> sat_succ (fold max ss s))"

definition next_proposal_seq :: "capability_store \<Rightarrow> u64" where
  "next_proposal_seq S = highest_succ (map (\<lambda>sg. ap_seq (sg_payload sg)) (map snd (cs_proposals S)))"

definition ever_admin :: "capability_store \<Rightarrow> bytes32 \<Rightarrow> bool" where
  "ever_admin S user \<longleftrightarrow> user \<in> set (cs_ever_admin S)"

definition role_of :: "capability_store \<Rightarrow> bytes32 \<Rightarrow> role option" where
  "role_of S user = bm_get (cs_roles S) user"

definition user_of :: "capability_store \<Rightarrow> bytes32 \<Rightarrow> bytes32 option" where
  "user_of S device = bm_get (cs_device_user S) device"

definition role_of_member :: "capability_store \<Rightarrow> bytes32 \<Rightarrow> role option" where
  "role_of_member S device = Option.bind (user_of S device) (role_of S)"

definition is_certified_device :: "capability_store \<Rightarrow> bytes32 \<Rightarrow> bool" where
  "is_certified_device S device \<longleftrightarrow> bm_get (cs_device_user S) device \<noteq> None"

definition certified_devices :: "capability_store \<Rightarrow> bytes32 list" where
  "certified_devices S = map fst (cs_device_user S)"

definition devices_of :: "capability_store \<Rightarrow> bytes32 \<Rightarrow> bytes32 list" where
  "devices_of S user = map fst (filter (\<lambda>(_, owner). owner = user) (cs_device_user S))"

definition store_roles :: "capability_store \<Rightarrow> (bytes32 \<times> role) list" where
  "store_roles S = cs_roles S"

definition admin_count :: "capability_store \<Rightarrow> nat" where
  "admin_count S = length (filter can_administer (map snd (cs_roles S)))"

definition may_administer :: "capability_store \<Rightarrow> bytes32 \<Rightarrow> bool" where
  "may_administer S device \<longleftrightarrow>
     (case role_of_member S device of None \<Rightarrow> False | Some r \<Rightarrow> can_administer r)"

definition may_bind_device_to :: "capability_store \<Rightarrow> bytes32 \<Rightarrow> bytes32 \<Rightarrow> bool" where
  "may_bind_device_to S issuer user \<longleftrightarrow> user_of S issuer = Some user \<or> may_administer S issuer"

definition next_seq :: "capability_store \<Rightarrow> bytes32 \<Rightarrow> u64" where
  "next_seq S subject = highest_succ (map (\<lambda>sg. g_seq (sg_payload sg))
     (filter (\<lambda>sg. g_subject (sg_payload sg) = subject) (map snd (cs_grants S))))"

end
