(* ===== verification/Capability_Closure.thy ===== *)
theory Capability_Closure
  imports Capability
begin

text \<open>
  What the closure of a certificate set means. \<open>bound\<close>, \<open>admin\<close> and
  \<open>quorum\<close> say by rules which devices, administrators and proposals a certificate set
  justifies, starting from the founder; the loop of \<open>recompute\<close> is sound for these rules,
  complete for them when no device is named by two bindings, and its result depends on the set of
  certificates only, not on how they arrived.
\<close>

section \<open>Rounds that change nothing\<close>

text \<open>
  Every step of a round either leaves the closure alone or raises the flag, and never lowers it.
\<close>

definition flagged :: "('c \<times> bool \<Rightarrow> 'c \<times> bool) \<Rightarrow> bool" where
  "flagged f \<longleftrightarrow> (\<forall>c. snd (f (c, True))) \<and> (\<forall>c c'. f (c, False) = (c', False) \<longrightarrow> c' = c)"

lemma flagged_bind_step: "flagged (bind_step x)"
  by (cases x) (auto simp: flagged_def bind_step_def Let_def split: option.splits if_splits)

lemma flagged_propose_step: "flagged (propose_step S t x)"
  by (cases x) (auto simp: flagged_def propose_step_def split: option.splits if_splits)

lemma flagged_grant_step: "flagged (grant_step S t x)"
  by (cases x) (auto simp: flagged_def grant_step_def Let_def split: option.splits if_splits)

lemma flagged_fold_True: "(\<And>x. flagged (f x)) \<Longrightarrow> snd (fold f xs (c, True))"
  by (induction xs arbitrary: c) (auto simp: flagged_def, metis prod.collapse)

lemma flagged_fold_False:
  assumes "\<And>x. flagged (f x)" and "fold f xs (c, False) = (c', False)"
  shows "c' = c \<and> (\<forall>x \<in> set xs. f x (c, False) = (c, False))"
  using assms(2)
proof (induction xs)
  case (Cons x xs)
  obtain c1 b where fx: "f x (c, False) = (c1, b)" by fastforce
  have "\<not> b"
    using Cons.prems fx flagged_fold_True [of f xs c1, OF assms(1)] by (cases b) auto
  with fx assms(1) have "c1 = c" by (auto simp: flagged_def)
  with \<open>\<not> b\<close> fx Cons show ?case by auto
qed simp

lemma closure_round_settled:
  assumes "closure_round S t c = (c', False)"
  shows "c' = c"
    and "x \<in> set (cs_bindings S) \<Longrightarrow> bind_step x (c, False) = (c, False)"
    and "y \<in> set (cs_proposals S) \<Longrightarrow> propose_step S t y (c, False) = (c, False)"
    and "z \<in> set (cs_grants S) \<Longrightarrow> grant_step S t z (c, False) = (c, False)"
proof -
  obtain c1 b1 where r1: "fold bind_step (cs_bindings S) (c, False) = (c1, b1)" by fastforce
  obtain c2 b2 where r2: "fold (propose_step S t) (cs_proposals S) (c1, b1) = (c2, b2)" by fastforce
  have r3: "fold (grant_step S t) (cs_grants S) (c2, b2) = (c', False)"
    using assms by (simp add: closure_round_def r1 r2)
  have b2: "\<not> b2"
    using r3 flagged_fold_True [of "grant_step S t" "cs_grants S" c2] flagged_grant_step by (cases b2) auto
  then have b1: "\<not> b1"
    using r2 flagged_fold_True [of "propose_step S t" "cs_proposals S" c1] flagged_propose_step
    by (cases b1) auto
  have 1: "c1 = c \<and> (\<forall>x \<in> set (cs_bindings S). bind_step x (c, False) = (c, False))"
    using flagged_fold_False [OF flagged_bind_step] r1 b1 by simp
  moreover have 2: "c2 = c1 \<and> (\<forall>x \<in> set (cs_proposals S). propose_step S t x (c1, False) = (c1, False))"
    using flagged_fold_False [OF flagged_propose_step] r2 b1 b2 by simp
  moreover have 3: "c' = c2 \<and> (\<forall>x \<in> set (cs_grants S). grant_step S t x (c2, False) = (c2, False))"
    using flagged_fold_False [OF flagged_grant_step] r3 b2 by simp
  ultimately show "c' = c"
    and "x \<in> set (cs_bindings S) \<Longrightarrow> bind_step x (c, False) = (c, False)"
    and "y \<in> set (cs_proposals S) \<Longrightarrow> propose_step S t y (c, False) = (c, False)"
    and "z \<in> set (cs_grants S) \<Longrightarrow> grant_step S t z (c, False) = (c, False)"
    by auto
qed

text \<open>The closure a store holds after \<open>recompute\<close>.\<close>

definition closure_of :: "capability_store \<Rightarrow> closure" where
  "closure_of S = closure_loop S (resolve_threshold S) (closure_init S)"

lemma closure_of_settled:
  "closure_round S (resolve_threshold S) (closure_of S) = (closure_of S, False)"
proof -
  obtain t where "closure_round S (resolve_threshold S) t = (closure_of S, False)"
    using closure_settles.loop_settled_inv [of "\<lambda>_. True" "closure_init S" S "resolve_threshold S"]
    unfolding closure_of_def by auto
  moreover from closure_round_settled(1) [OF this] have "closure_of S = t" .
  ultimately show ?thesis by simp
qed

section \<open>What a certificate set justifies\<close>

inductive bound :: "capability_store \<Rightarrow> u32 \<Rightarrow> bytes32 \<Rightarrow> bytes32 \<Rightarrow> bool"
  and admin :: "capability_store \<Rightarrow> u32 \<Rightarrow> bytes32 \<Rightarrow> bool"
  and quorum :: "capability_store \<Rightarrow> u32 \<Rightarrow> bytes32 \<Rightarrow> bool"
  for S t where
  founder_bound: "bound S t (cs_founder S) (cs_founder S)"
| founder_admin: "admin S t (cs_founder S)"
| own_device: "(d, sg) \<in> set (cs_bindings S) \<Longrightarrow> bound S t (sg_issuer sg) (db_user (sg_payload sg)) \<Longrightarrow>
     bound S t (db_device (sg_payload sg)) (db_user (sg_payload sg))"
| admin_binds: "(d, sg) \<in> set (cs_bindings S) \<Longrightarrow> bound S t (sg_issuer sg) u \<Longrightarrow> admin S t u \<Longrightarrow>
     bound S t (db_device (sg_payload sg)) (db_user (sg_payload sg))"
| admin_grants: "(d, sg) \<in> set (cs_grants S) \<Longrightarrow> can_administer (g_capability (sg_payload sg)) \<Longrightarrow>
     bound S t (sg_issuer sg) u \<Longrightarrow> admin S t u \<Longrightarrow>
     t \<le> DEFAULT_THRESHOLD \<or> u = cs_founder S \<or>
       (\<exists>p psg. quorum S t p \<and> bm_get (cs_proposals S) p = Some psg \<and>
          ap_action (sg_payload psg) = SetRole (g_subject (sg_payload sg)) (g_capability (sg_payload sg))) \<Longrightarrow>
     admin S t (g_subject (sg_payload sg))"
| quorum_reached: "(d, sg) \<in> set (cs_proposals S) \<Longrightarrow> bound S t (sg_issuer sg) u \<Longrightarrow> admin S t u \<Longrightarrow>
     finite U \<Longrightarrow> unat t \<le> card U \<Longrightarrow>
     (\<forall>v \<in> U. \<exists>a asg. (a, asg) \<in> set (cs_approvals S) \<and> av_proposal (sg_payload asg) = d \<and>
        bound S t (sg_issuer asg) v \<and> admin S t v) \<Longrightarrow>
     quorum S t d"

lemma approving_users_iff:
  "u \<in> set (approving_users approvals du ea p) \<longleftrightarrow>
     (\<exists>a sg. (a, sg) \<in> set approvals \<and> av_proposal (sg_payload sg) = p \<and>
        bm_get du (sg_issuer sg) = Some u \<and> u \<in> set ea)"
  by (auto simp: approving_users_def set_map_filter) force+

lemma length_approving_users:
  "length (approving_users approvals du ea p) = card (set (approving_users approvals du ea p))"
  unfolding approving_users_def by (simp add: length_bs_of)

definition justified :: "capability_store \<Rightarrow> u32 \<Rightarrow> closure \<Rightarrow> bool" where
  "justified S t c \<longleftrightarrow>
     (\<forall>d u. bm_get (cl_device_user c) d = Some u \<longrightarrow> bound S t d u) \<and>
     (\<forall>u \<in> set (cl_ever_admin c). admin S t u) \<and>
     (\<forall>p \<in> set (cl_executed c). quorum S t p)"

lemma justified_init: "justified S t (closure_init S)"
  by (auto simp: justified_def closure_init_def intro: founder_bound founder_admin split: if_splits)

lemma bind_step_justified:
  assumes "x \<in> set (cs_bindings S)" and "justified S t (fst st)"
  shows "justified S t (fst (bind_step x st))"
proof -
  obtain d sg c changed where x: "x = (d, sg)" and st: "st = (c, changed)" by (metis surj_pair)
  have "bound S t (db_device (sg_payload sg)) (db_user (sg_payload sg))"
    if "bm_get (cl_device_user c) (sg_issuer sg) = Some u"
      and "u = db_user (sg_payload sg) \<or> u \<in> set (cl_ever_admin c)" for u
    using that assms x st by (auto simp: justified_def intro: own_device admin_binds)
  with assms(2) show ?thesis
    by (auto simp: x st bind_step_def justified_def Let_def split: option.splits)
qed

lemma propose_step_justified:
  assumes "x \<in> set (cs_proposals S)" and "justified S t (fst st)"
  shows "justified S t (fst (propose_step S t x st))"
proof -
  obtain d sg c changed where x: "x = (d, sg)" and st: "st = (c, changed)" by (metis surj_pair)
  have "quorum S t d"
    if "bm_get (cl_device_user c) (sg_issuer sg) = Some u" and "u \<in> set (cl_ever_admin c)"
      and "unat t \<le> length (approving_users (cs_approvals S) (cl_device_user c) (cl_ever_admin c) d)" for u
    using assms x st that
    by (intro quorum_reached [where U = "set (approving_users (cs_approvals S) (cl_device_user c) (cl_ever_admin c) d)"])
      (auto simp: justified_def length_approving_users approving_users_iff, blast)
  with assms(2) show ?thesis
    by (auto simp: x st propose_step_def justified_def split: option.splits)
qed

lemma grant_step_justified:
  assumes "x \<in> set (cs_grants S)" and "justified S t (fst st)"
  shows "justified S t (fst (grant_step S t x st))"
proof -
  obtain d sg c changed where x: "x = (d, sg)" and st: "st = (c, changed)" by (metis surj_pair)
  have "admin S t (g_subject (sg_payload sg))"
    if "can_administer (g_capability (sg_payload sg))"
      and "bm_get (cl_device_user c) (sg_issuer sg) = Some u" and "u \<in> set (cl_ever_admin c)"
      and "grant_is_authorised t u (cs_founder S) (sg_payload sg) (cl_executed c) (cs_proposals S)" for u
    using assms x st that
    by (intro admin_grants [where u = u and d = d])
      (auto simp: justified_def grant_is_authorised_def list_ex_iff split: option.splits)
  with assms(2) show ?thesis
    by (auto simp: x st grant_step_def justified_def Let_def split: option.splits)
qed

lemma closure_round_justified: "justified S t c \<Longrightarrow> justified S t (fst (closure_round S t c))"
  unfolding closure_round_def
  by (rule fold_invariant_set [where P = "\<lambda>st. justified S t (fst st)"],
      rule fold_invariant_set [where P = "\<lambda>st. justified S t (fst st)"],
      rule fold_invariant_set [where P = "\<lambda>st. justified S t (fst st)"])
    (simp_all add: bind_step_justified propose_step_justified grant_step_justified)

text \<open>Soundness: whatever the loop derives, the rules justify from the founder.\<close>

lemma closure_of_justified: "justified S (resolve_threshold S) (closure_of S)"
  unfolding closure_of_def
  by (rule closure_settles.loop_inv) (simp_all add: justified_init closure_round_justified)

section \<open>Completeness when a device is bound once\<close>

text \<open>Who the bindings of a store say each device belongs to, the founder's axiom first.\<close>

definition binding_pairs :: "capability_store \<Rightarrow> (bytes32 \<times> bytes32) list" where
  "binding_pairs S = (cs_founder S, cs_founder S)
     # map (\<lambda>(_, sg). (db_device (sg_payload sg), db_user (sg_payload sg))) (cs_bindings S)"

definition unique_bindings :: "capability_store \<Rightarrow> bool" where
  "unique_bindings S \<longleftrightarrow> inj_on fst (set (binding_pairs S))"

lemma bound_sourced: "bound S t d u \<Longrightarrow> (d, u) \<in> set (binding_pairs S)"
  by (cases rule: bound.cases) (force simp: binding_pairs_def)+

lemma bound_unique:
  assumes "unique_bindings S" and "bound S t d u" and "bound S t d v"
  shows "u = v"
  using inj_onD [OF assms(1) [unfolded unique_bindings_def], of "(d, u)" "(d, v)"]
    bound_sourced [OF assms(2)] bound_sourced [OF assms(3)] by simp

text \<open>The loop only adds: entries of the closure are never changed or dropped.\<close>

definition grown :: "closure \<Rightarrow> closure \<Rightarrow> bool" where
  "grown c c' \<longleftrightarrow>
     (\<forall>d u. bm_get (cl_device_user c) d = Some u \<longrightarrow> bm_get (cl_device_user c') d = Some u)
     \<and> set (cl_ever_admin c) \<subseteq> set (cl_ever_admin c') \<and> set (cl_executed c) \<subseteq> set (cl_executed c')"

lemma grown_refl [simp]: "grown c c"
  by (simp add: grown_def)

lemma grown_trans: "grown c c' \<Longrightarrow> grown c' c'' \<Longrightarrow> grown c c''"
  by (auto simp: grown_def)

lemma grown_bind_step: "grown (fst st) (fst (bind_step x st))"
  by (cases x; cases st) (auto simp: grown_def bind_step_def Let_def split: option.splits)

lemma grown_propose_step: "grown (fst st) (fst (propose_step S t x st))"
  by (cases x; cases st) (auto simp: grown_def propose_step_def split: option.splits)

lemma grown_grant_step: "grown (fst st) (fst (grant_step S t x st))"
  by (cases x; cases st) (auto simp: grown_def grant_step_def Let_def split: option.splits)

lemma grown_fold: "(\<And>x st. grown (fst st) (fst (f x st))) \<Longrightarrow> grown (fst st) (fst (fold f xs st))"
  by (rule fold_invariant_set [where P = "\<lambda>st'. grown (fst st) (fst st')"]) (auto intro: grown_trans)

lemma grown_round: "grown c (fst (closure_round S t c))"
proof -
  let ?b = "fold bind_step (cs_bindings S) (c, False)"
  let ?p = "fold (propose_step S t) (cs_proposals S) ?b"
  have "grown c (fst ?b)"
    using grown_fold [of bind_step "(c, False)", OF grown_bind_step] by simp
  moreover have "grown (fst ?b) (fst ?p)" by (rule grown_fold) (rule grown_propose_step)
  moreover have "grown (fst ?p) (fst (closure_round S t c))"
    unfolding closure_round_def by (rule grown_fold) (rule grown_grant_step)
  ultimately show ?thesis by (rule grown_trans [OF grown_trans])
qed

lemma grown_closure_of: "grown (closure_init S) (closure_of S)"
  unfolding closure_of_def
  by (rule closure_settles.loop_inv [where P = "grown (closure_init S)"])
    (simp, rule grown_trans [OF _ grown_round])

lemma closure_of_founder:
  "bm_get (cl_device_user (closure_of S)) (cs_founder S) = Some (cs_founder S)"
  "cs_founder S \<in> set (cl_ever_admin (closure_of S))"
  using grown_closure_of [of S] by (auto simp: grown_def closure_init_def)

lemma settled_bind:
  assumes "(k, sg) \<in> set (cs_bindings S)"
    and "bm_get (cl_device_user (closure_of S)) (sg_issuer sg) = Some u"
    and "u = db_user (sg_payload sg) \<or> u \<in> set (cl_ever_admin (closure_of S))"
  shows "bm_get (cl_device_user (closure_of S)) (db_device (sg_payload sg)) \<noteq> None"
  using closure_round_settled(2) [OF closure_of_settled assms(1)] assms(2,3)
  by (simp add: bind_step_def Let_def split: if_splits)

lemma settled_grant:
  assumes "(k, sg) \<in> set (cs_grants S)" and "can_administer (g_capability (sg_payload sg))"
    and "bm_get (cl_device_user (closure_of S)) (sg_issuer sg) = Some u"
    and "u \<in> set (cl_ever_admin (closure_of S))"
    and "grant_is_authorised (resolve_threshold S) u (cs_founder S) (sg_payload sg)
           (cl_executed (closure_of S)) (cs_proposals S)"
  shows "g_subject (sg_payload sg) \<in> set (cl_ever_admin (closure_of S))"
  using closure_round_settled(4) [OF closure_of_settled assms(1)] assms(2-)
  by (simp add: grant_step_def Let_def split: if_splits)

lemma settled_propose:
  assumes "(k, sg) \<in> set (cs_proposals S)"
    and "bm_get (cl_device_user (closure_of S)) (sg_issuer sg) = Some u"
    and "u \<in> set (cl_ever_admin (closure_of S))"
    and "unat (resolve_threshold S) \<le> length (approving_users (cs_approvals S)
           (cl_device_user (closure_of S)) (cl_ever_admin (closure_of S)) k)"
  shows "k \<in> set (cl_executed (closure_of S))"
  using closure_round_settled(3) [OF closure_of_settled assms(1)] assms(2-)
  by (simp add: propose_step_def split: if_splits)

lemma closure_of_bound_iff:
  assumes "unique_bindings S" and "bm_get (cl_device_user (closure_of S)) d \<noteq> None"
    and "bound S (resolve_threshold S) d u"
  shows "bm_get (cl_device_user (closure_of S)) d = Some u"
proof -
  obtain v where v: "bm_get (cl_device_user (closure_of S)) d = Some v" using assms(2) by auto
  then have "bound S (resolve_threshold S) d v"
    using closure_of_justified [of S] by (simp add: justified_def)
  with v bound_unique [OF assms(1) assms(3)] show ?thesis by simp
qed

lemma closure_of_complete:
  fixes S defines "t \<equiv> resolve_threshold S"
  assumes uniq: "unique_bindings S"
  shows "bound S t d u \<Longrightarrow> bm_get (cl_device_user (closure_of S)) d = Some u"
    and "admin S t v \<Longrightarrow> v \<in> set (cl_ever_admin (closure_of S))"
    and "quorum S t p \<Longrightarrow> p \<in> set (cl_executed (closure_of S))"
proof (induction rule: bound_admin_quorum.inducts)
  case (own_device k sg)
  then have "bm_get (cl_device_user (closure_of S)) (db_device (sg_payload sg)) \<noteq> None"
    by (intro settled_bind [of k sg S]) auto
  with own_device show ?case
    by (intro closure_of_bound_iff [OF uniq]) (auto simp: t_def intro: bound_admin_quorum.own_device)
next
  case (admin_binds k sg u)
  then have "bm_get (cl_device_user (closure_of S)) (db_device (sg_payload sg)) \<noteq> None"
    by (intro settled_bind [of k sg S]) auto
  with admin_binds show ?case
    by (intro closure_of_bound_iff [OF uniq]) (auto simp: t_def intro: bound_admin_quorum.admin_binds)
next
  case (admin_grants k sg u)
  then have "grant_is_authorised t u (cs_founder S) (sg_payload sg) (cl_executed (closure_of S)) (cs_proposals S)"
    by (fastforce simp: grant_is_authorised_def list_ex_iff)
  with admin_grants show ?case
    by (intro settled_grant [of k sg S u]) (auto simp: t_def)
next
  case (quorum_reached k sg u U)
  have "U \<subseteq> set (approving_users (cs_approvals S) (cl_device_user (closure_of S))
      (cl_ever_admin (closure_of S)) k)"
    using quorum_reached by (fastforce simp: approving_users_iff)
  then have "card U \<le> length (approving_users (cs_approvals S) (cl_device_user (closure_of S))
      (cl_ever_admin (closure_of S)) k)"
    by (simp add: length_approving_users card_mono)
  with quorum_reached show ?case by (intro settled_propose [of k sg S u]) (auto simp: t_def)
qed (simp_all add: closure_of_founder)

text \<open>The executed proposals, exactly: an administrator's proposal with enough approvers.\<close>

definition supported :: "capability_store \<Rightarrow> u32 \<Rightarrow> closure \<Rightarrow> bytes32 \<Rightarrow> bool" where
  "supported S t c p \<longleftrightarrow> (\<exists>sg u. (p, sg) \<in> set (cs_proposals S)
     \<and> bm_get (cl_device_user c) (sg_issuer sg) = Some u \<and> u \<in> set (cl_ever_admin c)
     \<and> unat t \<le> length (approving_users (cs_approvals S) (cl_device_user c) (cl_ever_admin c) p))"

lemma approving_users_grown:
  assumes "grown c c'"
  shows "length (approving_users apps (cl_device_user c) (cl_ever_admin c) p)
    \<le> length (approving_users apps (cl_device_user c') (cl_ever_admin c') p)"
proof -
  have "set (approving_users apps (cl_device_user c) (cl_ever_admin c) p)
      \<subseteq> set (approving_users apps (cl_device_user c') (cl_ever_admin c') p)"
    using assms by (fastforce simp: approving_users_iff grown_def)
  then show ?thesis by (simp add: length_approving_users card_mono)
qed

lemma supported_grown: "supported S t c p \<Longrightarrow> grown c c' \<Longrightarrow> supported S t c' p"
  using approving_users_grown [of c c' "cs_approvals S" p]
  unfolding supported_def grown_def by (meson le_trans subsetD)

definition all_supported :: "capability_store \<Rightarrow> u32 \<Rightarrow> closure \<Rightarrow> bool" where
  "all_supported S t c \<longleftrightarrow> (\<forall>p \<in> set (cl_executed c). supported S t c p)"

lemma all_supported_bind:
  "all_supported S t (fst st) \<Longrightarrow> all_supported S t (fst (bind_step x st))"
proof -
  have "cl_executed (fst (bind_step x st)) = cl_executed (fst st)"
    by (cases x; cases st) (auto simp: bind_step_def Let_def split: option.splits)
  then show "all_supported S t (fst st) \<Longrightarrow> all_supported S t (fst (bind_step x st))"
    using supported_grown [OF _ grown_bind_step] by (metis all_supported_def)
qed

lemma all_supported_grant:
  "all_supported S t (fst st) \<Longrightarrow> all_supported S t (fst (grant_step S t x st))"
proof -
  have "cl_executed (fst (grant_step S t x st)) = cl_executed (fst st)"
    by (cases x; cases st) (auto simp: grant_step_def Let_def split: option.splits)
  then show "all_supported S t (fst st) \<Longrightarrow> all_supported S t (fst (grant_step S t x st))"
    using supported_grown [OF _ grown_grant_step] by (metis all_supported_def)
qed

lemma all_supported_propose:
  assumes "x \<in> set (cs_proposals S)" and "all_supported S t (fst st)"
  shows "all_supported S t (fst (propose_step S t x st))"
proof -
  obtain d sg c changed where x: "x = (d, sg)" and st: "st = (c, changed)" by (metis surj_pair)
  have "fst (propose_step S t x st) = c \<or>
      supported S t c d \<and> set (cl_executed (fst (propose_step S t x st))) = insert d (set (cl_executed c))"
    using assms(1) by (auto simp: x st propose_step_def supported_def split: option.splits)
  moreover have "grown c (fst (propose_step S t x st))"
    using grown_propose_step [of st S t x] by (simp add: st)
  ultimately show ?thesis
    using assms(2) supported_grown [of S t c _ "fst (propose_step S t x st)"]
    by (auto simp: all_supported_def st)
qed

lemma closure_of_supported: "all_supported S (resolve_threshold S) (closure_of S)"
  unfolding closure_of_def
proof (rule closure_settles.loop_inv [where P = "all_supported S (resolve_threshold S)"])
  fix c assume "all_supported S (resolve_threshold S) c"
  then show "all_supported S (resolve_threshold S) (fst (closure_round S (resolve_threshold S) c))"
    unfolding closure_round_def
    by (intro fold_invariant_set [where P = "\<lambda>st. all_supported S (resolve_threshold S) (fst st)"]
        all_supported_grant all_supported_propose all_supported_bind) auto
qed (simp add: all_supported_def closure_init_def)

lemma executed_iff_supported:
  "p \<in> set (cl_executed (closure_of S)) \<longleftrightarrow> supported S (resolve_threshold S) (closure_of S) p"
  using closure_of_supported [of S] settled_propose [of p _ S]
  by (auto simp: all_supported_def supported_def)

end
