(* ===== verification/Capability_Store.thy ===== *)
theory Capability_Store
  imports Capability_Closure
begin

text \<open>
  The store as a replicated object: its invariant, that it is determined by the founder and the
  set of certificates it holds, and what its queries answer in terms of those certificates.
\<close>

section \<open>The derived fields depend on the certificates only\<close>

definition same_base :: "capability_store \<Rightarrow> capability_store \<Rightarrow> bool" where
  "same_base S T \<longleftrightarrow> cs_founder S = cs_founder T \<and> cs_grants S = cs_grants T
     \<and> cs_bindings S = cs_bindings T \<and> cs_proposals S = cs_proposals T
     \<and> cs_approvals S = cs_approvals T \<and> cs_policies S = cs_policies T"

lemma same_base_steps:
  assumes "same_base S T"
  shows "resolve_threshold S = resolve_threshold T" and "closure_init S = closure_init T"
    and "closure_round S t = closure_round T t" and "resolve_roles S t = resolve_roles T t"
proof -
  have eq: "cs_founder S = cs_founder T" "cs_grants S = cs_grants T" "cs_bindings S = cs_bindings T"
    "cs_proposals S = cs_proposals T" "cs_approvals S = cs_approvals T" "cs_policies S = cs_policies T"
    using assms by (simp_all add: same_base_def)
  show "resolve_threshold S = resolve_threshold T" "closure_init S = closure_init T"
    "closure_round S t = closure_round T t" "resolve_roles S t = resolve_roles T t"
    unfolding resolve_threshold_def closure_init_def closure_round_def [abs_def] propose_step_def
      grant_step_def resolve_roles_def [abs_def] role_grant_step_def [abs_def] eq
    by (rule refl)+
qed

lemma same_base_loop:
  assumes "same_base S T"
  shows "closure_loop S t c = closure_loop T t c"
proof (induction c rule: closure_settles.loop_induct [of S t])
  case (1 c)
  then show ?case
    by (subst (1 2) closure_loop.simps)
      (auto simp: same_base_steps(3) [OF assms] split: prod.splits)
qed

lemma recompute_same_base: "same_base S T \<Longrightarrow> recompute S = recompute T"
  by (intro capability_store.equality)
    (simp_all add: recompute_def Let_def same_base_steps [of S T] same_base_loop [of S T],
      simp_all add: same_base_def)

lemma recompute_base [simp]:
  "cs_founder (recompute S) = cs_founder S" "cs_grants (recompute S) = cs_grants S"
  "cs_bindings (recompute S) = cs_bindings S" "cs_proposals (recompute S) = cs_proposals S"
  "cs_approvals (recompute S) = cs_approvals S" "cs_policies (recompute S) = cs_policies S"
  by (simp_all add: recompute_def Let_def)

lemma recompute_idem [simp]: "recompute (recompute S) = recompute S"
  by (rule recompute_same_base) (simp add: same_base_def)

lemma certificates_recompute [simp]: "certificates (recompute S) = certificates S"
  by (simp add: certificates_def)

text \<open>The derived fields of a recomputed store are the closure of its certificates.\<close>

definition settled :: "capability_store \<Rightarrow> bool" where
  "settled S \<longleftrightarrow> recompute S = S"

lemma settled_fields:
  assumes "settled S"
  shows "cs_device_user S = cl_device_user (closure_of S)"
    and "cs_ever_admin S = cl_ever_admin (closure_of S)"
    and "cs_executed S = cl_executed (closure_of S)"
    and "cs_threshold S = resolve_threshold S"
    and "cs_roles S = resolve_roles S (resolve_threshold S) (closure_of S)"
proof -
  have S: "recompute S = S" using assms by (simp add: settled_def)
  show "cs_device_user S = cl_device_user (closure_of S)" by (subst S [symmetric]) (simp add: recompute_def Let_def closure_of_def)
  show "cs_ever_admin S = cl_ever_admin (closure_of S)" by (subst S [symmetric]) (simp add: recompute_def Let_def closure_of_def)
  show "cs_executed S = cl_executed (closure_of S)" by (subst S [symmetric]) (simp add: recompute_def Let_def closure_of_def)
  show "cs_threshold S = resolve_threshold S" by (subst S [symmetric]) (simp add: recompute_def Let_def)
  show "cs_roles S = resolve_roles S (resolve_threshold S) (closure_of S)"
    by (subst S [symmetric]) (simp add: recompute_def Let_def closure_of_def)
qed

section \<open>The store invariant\<close>

text \<open>Each map is ordered, holds verified certificates only, and each under its own digest.\<close>

definition keyed :: "cert_crypto \<Rightarrow> ('p signed \<Rightarrow> certificate) \<Rightarrow> (bytes32, 'p signed) btree_map \<Rightarrow> bool" where
  "keyed X mk m \<longleftrightarrow> bm_ok m \<and> (\<forall>(d, sg) \<in> set m. d = cc_digest X (mk sg) \<and> cert_valid X (mk sg))"

definition base_wf :: "cert_crypto \<Rightarrow> capability_store \<Rightarrow> bool" where
  "base_wf X S \<longleftrightarrow> keyed X Grant (cs_grants S) \<and> keyed X Binding (cs_bindings S)
     \<and> keyed X Proposal (cs_proposals S) \<and> keyed X Approval (cs_approvals S)
     \<and> keyed X Policy (cs_policies S)"

definition store_wf :: "cert_crypto \<Rightarrow> capability_store \<Rightarrow> bool" where
  "store_wf X S \<longleftrightarrow> base_wf X S \<and> settled S"

lemma keyed_insert:
  assumes "keyed X mk m" and "cert_valid X (mk sg)"
  shows "keyed X mk (bm_insert (cc_digest X (mk sg)) sg m)"
  using assms by (auto simp: keyed_def set_bm_insert)

lemma keyed_entries: "keyed X mk m \<Longrightarrow> set m = (\<lambda>sg. (cc_digest X (mk sg), sg)) ` snd ` set m"
  by (force simp: keyed_def)

lemma keyed_ext:
  assumes "keyed X mk m" and "keyed X mk m'" and "snd ` set m = snd ` set m'"
  shows "m = m'"
  using assms keyed_entries [OF assms(1)] keyed_entries [OF assms(2)]
  by (intro map_of_determined) (simp_all add: keyed_def)

lemma keyed_insert_view:
  assumes "keyed X mk m" and "inj_on (cc_digest X) U" and "mk ` snd ` set m \<subseteq> U" and "mk sg \<in> U"
    and "inj mk"
  shows "snd ` set (bm_insert (cc_digest X (mk sg)) sg m) = insert sg (snd ` set m)"
proof -
  have "b = sg" if "(cc_digest X (mk sg), b) \<in> set m" for b
  proof -
    have "cc_digest X (mk b) = cc_digest X (mk sg)" using assms(1) that by (auto simp: keyed_def)
    moreover have "mk b \<in> U" using assms(3) that by force
    ultimately show ?thesis using assms(2,4,5) by (auto dest: inj_onD injD)
  qed
  then have "insert (cc_digest X (mk sg), sg) {(a, b) \<in> set m. a \<noteq> cc_digest X (mk sg)}
      = insert (cc_digest X (mk sg), sg) (set m)" by blast
  with assms(1) show ?thesis by (simp add: keyed_def set_bm_insert)
qed

lemma set_certificates:
  "Grant g \<in> set (certificates S) \<longleftrightarrow> g \<in> snd ` set (cs_grants S)"
  "Binding b \<in> set (certificates S) \<longleftrightarrow> b \<in> snd ` set (cs_bindings S)"
  "Proposal p \<in> set (certificates S) \<longleftrightarrow> p \<in> snd ` set (cs_proposals S)"
  "Approval a \<in> set (certificates S) \<longleftrightarrow> a \<in> snd ` set (cs_approvals S)"
  "Policy l \<in> set (certificates S) \<longleftrightarrow> l \<in> snd ` set (cs_policies S)"
  by (auto simp: certificates_def)

lemma set_certificates_Un:
  "set (certificates S) = Binding ` snd ` set (cs_bindings S) \<union> (Grant ` snd ` set (cs_grants S)
     \<union> (Proposal ` snd ` set (cs_proposals S) \<union> (Approval ` snd ` set (cs_approvals S)
     \<union> Policy ` snd ` set (cs_policies S))))"
  by (simp add: certificates_def image_image)

lemma base_determined:
  assumes "base_wf X S" and "base_wf X T" and "cs_founder S = cs_founder T"
    and "set (certificates S) = set (certificates T)"
  shows "same_base S T"
proof -
  have "snd ` set (cs_grants S) = snd ` set (cs_grants T)"
    "snd ` set (cs_bindings S) = snd ` set (cs_bindings T)"
    "snd ` set (cs_proposals S) = snd ` set (cs_proposals T)"
    "snd ` set (cs_approvals S) = snd ` set (cs_approvals T)"
    "snd ` set (cs_policies S) = snd ` set (cs_policies T)"
    using assms(4) by (simp_all only: set_eq_iff set_certificates [symmetric]) blast+
  then show ?thesis
    using assms unfolding same_base_def base_wf_def by (intro conjI; blast intro: keyed_ext)
qed

lemma store_determined:
  assumes "store_wf X S" and "store_wf X T" and "cs_founder S = cs_founder T"
    and "set (certificates S) = set (certificates T)"
  shows "S = T"
  using assms recompute_same_base [OF base_determined [of X S T]] by (simp add: store_wf_def settled_def)

section \<open>Staging and inserting\<close>

lemma stage_invalid: "\<not> cert_valid X c \<Longrightarrow> fst (stage X c S) = S \<and> \<not> is_ok (snd (stage X c S))"
  by (auto simp: stage_def split: sum.splits)

lemma base_wf_stage: "base_wf X S \<Longrightarrow> base_wf X (fst (stage X c S))"
  by (cases c) (auto simp: stage_def base_wf_def Let_def certificate_digest_def keyed_insert split: sum.splits)

lemma founder_stage [simp]: "cs_founder (fst (stage X c S)) = cs_founder S"
  by (cases c) (simp_all add: stage_def Let_def split: sum.splits)

lemma certificates_stage:
  assumes wf: "base_wf X S" and inj: "inj_on (cc_digest X) U" and S: "set (certificates S) \<subseteq> U" and c: "c \<in> U"
  shows "set (certificates (fst (stage X c S))) = set (certificates S) \<union> {y. y = c \<and> cert_valid X y}"
proof (cases "cert_valid X c")
  case True
  have "inj Grant" "inj Binding" "inj Proposal" "inj Approval" "inj Policy" by (auto intro: injI)
  note view = this [THEN keyed_insert_view [OF _ inj, rotated -1]]
  from True wf S c show ?thesis
    by (cases c) (simp_all add: stage_def Let_def certificate_digest_def base_wf_def
        set_certificates_Un view insert_is_Un [symmetric] del: image_image, auto)
qed (auto simp: stage_invalid)

lemma keyed_known:
  assumes "keyed X mk m" and "bm_get m d \<noteq> None"
  shows "\<exists>sg \<in> snd ` set m. cc_digest X (mk sg) = d"
  using assms by (force simp: keyed_def dest!: map_of_SomeD)

lemma stage_known:
  assumes wf: "base_wf X S" and known: "stage X c S = (S', Inr False)"
  shows "cert_valid X c" and "\<exists>c' \<in> set (certificates S). cc_digest X c' = cc_digest X c"
proof -
  show valid: "cert_valid X c" using known stage_invalid [of X c S] by auto
  show "\<exists>c' \<in> set (certificates S). cc_digest X c' = cc_digest X c"
  proof (cases c)
    case (Grant sg)
    then have "bm_get (cs_grants S) (cc_digest X c) \<noteq> None"
      using known valid by (simp add: stage_def Let_def certificate_digest_def)
    then show ?thesis
      using keyed_known [of X Grant "cs_grants S"] wf set_certificates(1) [of _ S]
      by (metis base_wf_def)
  next
    case (Binding sg)
    then have "bm_get (cs_bindings S) (cc_digest X c) \<noteq> None"
      using known valid by (simp add: stage_def Let_def certificate_digest_def)
    then show ?thesis
      using keyed_known [of X Binding "cs_bindings S"] wf set_certificates(2) [of _ S]
      by (metis base_wf_def)
  next
    case (Proposal sg)
    then have "bm_get (cs_proposals S) (cc_digest X c) \<noteq> None"
      using known valid by (simp add: stage_def Let_def certificate_digest_def)
    then show ?thesis
      using keyed_known [of X Proposal "cs_proposals S"] wf set_certificates(3) [of _ S]
      by (metis base_wf_def)
  next
    case (Approval sg)
    then have "bm_get (cs_approvals S) (cc_digest X c) \<noteq> None"
      using known valid by (simp add: stage_def Let_def certificate_digest_def)
    then show ?thesis
      using keyed_known [of X Approval "cs_approvals S"] wf set_certificates(4) [of _ S]
      by (metis base_wf_def)
  next
    case (Policy sg)
    then have "bm_get (cs_policies S) (cc_digest X c) \<noteq> None"
      using known valid by (simp add: stage_def Let_def certificate_digest_def)
    then show ?thesis
      using keyed_known [of X Policy "cs_policies S"] wf set_certificates(5) [of _ S]
      by (metis base_wf_def)
  qed
qed

lemma stage_derived [simp]:
  "cs_device_user (fst (stage X c S)) = cs_device_user S" "cs_ever_admin (fst (stage X c S)) = cs_ever_admin S"
  "cs_roles (fst (stage X c S)) = cs_roles S" "cs_threshold (fst (stage X c S)) = cs_threshold S"
  "cs_executed (fst (stage X c S)) = cs_executed S"
  by (cases c; simp add: stage_def Let_def split: sum.splits)+

text \<open>
  An answer \<open>Ok(false)\<close>, "already known", leaves the store unchanged when digests do not
  collide, so skipping \<open>recompute\<close> there skips nothing.
\<close>

definition store_ins :: "cert_crypto \<Rightarrow> certificate \<Rightarrow> capability_store \<Rightarrow> capability_store" where
  "store_ins X c S = fst (store_insert X c S)"

definition reaches :: "cert_crypto \<Rightarrow> bytes32 \<Rightarrow> certificate set \<Rightarrow> capability_store \<Rightarrow> bool" where
  "reaches X f U S \<longleftrightarrow> store_wf X S \<and> cs_founder S = f \<and> set (certificates S) \<subseteq> U \<and> inj_on (cc_digest X) U"

lemma stage_known_same:
  assumes wf: "base_wf X S" and U: "inj_on (cc_digest X) U" "set (certificates S) \<subseteq> U" "c \<in> U"
    and known: "stage X c S = (S', Inr False)"
  shows "S' = S" and "c \<in> set (certificates S)"
proof -
  obtain c' where "c' \<in> set (certificates S)" "cc_digest X c' = cc_digest X c"
    using stage_known(2) [OF wf known] by blast
  with U show c: "c \<in> set (certificates S)" by (auto dest: inj_onD)
  have S': "S' = fst (stage X c S)" using known by simp
  have "same_base S' S"
    using c certificates_stage [OF wf U] base_wf_stage [OF wf] wf unfolding S'
    by (intro base_determined [of X]) auto
  then show "S' = S" unfolding same_base_def S' by (intro capability_store.equality) simp_all
qed

lemma stage_error: "stage X c S = (S', Inl e) \<Longrightarrow> S' = S \<and> \<not> cert_valid X c"
  by (auto simp: stage_def Let_def split: sum.splits certificate.splits)

lemma store_ins_cases:
  assumes "reaches X f U S" and "c \<in> U"
  shows "store_ins X c S = recompute (fst (stage X c S))"
proof (cases "stage X c S")
  case (Pair S' r)
  have S: "recompute S = S" using assms(1) by (simp add: reaches_def store_wf_def settled_def)
  show ?thesis
  proof (cases r)
    case (Inl e)
    then have "S' = S" using Pair stage_error [of X c S] by simp
    with S show ?thesis by (simp add: Pair Inl store_ins_def store_insert_def)
  next
    case (Inr changed)
    with S show ?thesis
      using stage_known_same(1) [of X S U c S'] assms Pair unfolding reaches_def store_wf_def
      by (cases changed) (auto simp: store_ins_def store_insert_def)
  qed
qed

interpretation cert_grow: grow_only "store_ins X" "\<lambda>S. set (certificates S)" "cert_valid X" "reaches X f U" U
  for X f U
proof unfold_locales
  fix S c assume S: "reaches X f U S" and c: "c \<in> U"
  then have wf: "base_wf X S" and U: "inj_on (cc_digest X) U" "set (certificates S) \<subseteq> U"
    by (simp_all add: reaches_def store_wf_def)
  note ins = store_ins_cases [OF S c]
  show "set (certificates (store_ins X c S)) = set (certificates S) \<union> {y. y = c \<and> cert_valid X y}"
    by (simp add: ins certificates_stage [OF wf U c])
  moreover have "base_wf X (recompute (fst (stage X c S)))"
    using base_wf_stage [OF wf] by (simp add: base_wf_def)
  ultimately show "reaches X f U (store_ins X c S)"
    using S U c by (auto simp: reaches_def store_wf_def settled_def ins)
next
  fix S T assume "reaches X f U S" and "reaches X f U T" and "set (certificates S) = set (certificates T)"
  then show "S = T" by (intro store_determined [of X]) (simp_all add: reaches_def)
qed

section \<open>Batches\<close>

text \<open>What the loop of \<open>extend\<close> has done so far, \<open>done\<close> being the certificates it has seen.\<close>

definition extended :: "cert_crypto \<Rightarrow> capability_store \<Rightarrow> certificate set \<Rightarrow> capability_store \<times> nat \<Rightarrow> bool" where
  "extended X S seen = (\<lambda>(S', added). base_wf X S' \<and> cs_founder S' = cs_founder S
     \<and> set (certificates S') = set (certificates S) \<union> {c \<in> seen. cert_valid X c}
     \<and> store_len S' = store_len S + added \<and> (added = 0 \<longrightarrow> S' = S))"

lemma store_len_stage:
  assumes "base_wf X S"
  shows "store_len (fst (stage X c S)) = store_len S + (if snd (stage X c S) = Inr True then 1 else 0)"
  using assms
  by (cases c) (auto simp: stage_def Let_def store_len_def base_wf_def keyed_def length_bm_insert
      split: sum.splits)

lemma extended_step:
  assumes "extended X S seen st" and U: "inj_on (cc_digest X) U" "set (certificates S) \<union> seen \<subseteq> U" "c \<in> U"
  shows "extended X S (insert c seen) (extend_step X c st)"
proof -
  obtain S' n where st: "st = (S', n)" by fastforce
  have wf: "base_wf X S'" and S': "set (certificates S') \<subseteq> U" and n: "n = 0 \<Longrightarrow> S' = S"
    using assms by (auto simp: extended_def st)
  obtain S'' r where stage: "stage X c S' = (S'', r)" by fastforce
  note facts = certificates_stage [OF wf U(1) S' U(3)] base_wf_stage [OF wf, of c]
    store_len_stage [OF wf, of c] founder_stage [of X c S']
  show ?thesis
  proof (cases "r = Inr True")
    case True
    then show ?thesis
      using assms(1) facts by (auto simp: extended_def st stage extend_step_def)
  next
    case False
    then have "S'' = S'" using stage_error [of X c S'] stage_known_same [OF wf U(1) S' U(3)] stage
      by (cases r) auto
    with False show ?thesis
      using assms(1) facts
      by (auto simp: extended_def st stage extend_step_def split: sum.splits bool.splits)
  qed
qed

lemma extended_fold:
  assumes "extended X S seen st" and "inj_on (cc_digest X) U" and "set (certificates S) \<union> seen \<union> set cs \<subseteq> U"
  shows "extended X S (seen \<union> set cs) (fold (extend_step X) cs st)"
  using assms
proof (induction cs arbitrary: seen st)
  case (Cons c cs)
  then have "extended X S (insert c seen) (extend_step X c st)"
    by (intro extended_step [where U = U]) auto
  with Cons.IH [OF this] Cons.prems show ?case by simp
qed simp

lemma store_extend_spec:
  assumes "reaches X f U S" and "set cs \<subseteq> U"
  shows "reaches X f U (fst (store_extend X cs S))"
    and "set (certificates (fst (store_extend X cs S))) = set (certificates S) \<union> {c \<in> set cs. cert_valid X c}"
    and "store_len (fst (store_extend X cs S)) = store_len S + snd (store_extend X cs S)"
proof -
  obtain S' n where fold: "fold (extend_step X) cs (S, 0) = (S', n)" by fastforce
  have "extended X S {} (S, 0)" using assms(1) by (simp add: extended_def reaches_def store_wf_def)
  from extended_fold [OF this, of U cs] have ext: "extended X S (set cs) (S', n)"
    using assms by (simp add: fold reaches_def)
  have res: "store_extend X cs S = (recompute S', n)"
    using ext assms(1) by (auto simp: store_extend_def fold extended_def reaches_def store_wf_def settled_def)
  show "reaches X f U (fst (store_extend X cs S))"
    using ext assms by (auto simp: res extended_def reaches_def store_wf_def settled_def base_wf_def)
  show "set (certificates (fst (store_extend X cs S))) = set (certificates S) \<union> {c \<in> set cs. cert_valid X c}"
    "store_len (fst (store_extend X cs S)) = store_len S + snd (store_extend X cs S)"
    using ext by (simp_all add: res extended_def store_len_def)
qed

lemma store_extend_fold:
  assumes "reaches X f U S" and "set cs \<subseteq> U"
  shows "fst (store_extend X cs S) = fold (store_ins X) cs S"
  using assms store_extend_spec [OF assms] by (intro cert_grow.determined_by_view) auto

lemma reaches_new:
  assumes "inj_on (cc_digest X) U"
  shows "reaches X f U (capability_store_new f)"
  using assms
  by (simp add: reaches_def store_wf_def capability_store_new_def settled_def base_wf_def keyed_def certificates_def)

lemma extend_batches:
  assumes "reaches X f U S" and "set (concat bs) \<subseteq> U"
  shows "fold (\<lambda>b S. fst (store_extend X b S)) bs S = fold (store_ins X) (concat bs) S"
  using assms
proof (induction bs arbitrary: S)
  case (Cons b bs)
  then have "reaches X f U (fst (store_extend X b S))" "set b \<subseteq> U"
    by (auto intro: store_extend_spec)
  with Cons store_extend_fold [of X f U S b] show ?case by simp
qed simp

section \<open>A store through its life\<close>

text \<open>
  \<open>collision_free\<close> is the assumption on the digest: no two certificates that verify have the same one.
  Then, whatever certificates arrive, forged ones included, a well-formed store stays well-formed and forgets
  nothing.
\<close>

definition collision_free :: "cert_crypto \<Rightarrow> bool" where
  "collision_free X \<longleftrightarrow> inj_on (cc_digest X) {c. cert_valid X c}"

definition certs_advance :: "cert_crypto \<Rightarrow> capability_store \<Rightarrow> capability_store \<Rightarrow> bool" where
  "certs_advance X S S' \<longleftrightarrow> cs_founder S' = cs_founder S
     \<and> (collision_free X \<and> store_wf X S \<longrightarrow> store_wf X S' \<and> set (certificates S) \<subseteq> set (certificates S'))"

lemma certs_advance_refl [simp]: "certs_advance X S S"
  by (simp add: certs_advance_def)

lemma certs_advance_trans: "certs_advance X S S' \<Longrightarrow> certs_advance X S' S'' \<Longrightarrow> certs_advance X S S''"
  by (auto simp: certs_advance_def)

lemma certificates_valid: "base_wf X S \<Longrightarrow> c \<in> set (certificates S) \<Longrightarrow> cert_valid X c"
  by (force simp: set_certificates_Un base_wf_def keyed_def)

lemma valid_reaches: "collision_free X \<Longrightarrow> store_wf X S \<Longrightarrow> reaches X (cs_founder S) {c. cert_valid X c} S"
  using certificates_valid [of X S] by (auto simp: reaches_def store_wf_def collision_free_def)

lemma store_extend_valid: "store_extend X cs S = store_extend X (filter (cert_valid X) cs) S"
proof -
  have skip: "extend_step X c st = st" if "\<not> cert_valid X c" for c st
    using stage_invalid [OF that, of "fst st"]
    by (cases st; cases "stage X c (fst st)"; cases "snd (stage X c (fst st))") (auto simp: extend_step_def is_ok_def)
  have "fold (extend_step X) cs st = fold (extend_step X) (filter (cert_valid X) cs) st" for st
    by (induction cs arbitrary: st) (simp_all add: skip)
  then show ?thesis by (simp add: store_extend_def)
qed

lemma store_extend_wf:
  assumes "collision_free X" and "store_wf X S"
  shows "store_wf X (fst (store_extend X cs S))"
    and "set (certificates (fst (store_extend X cs S))) = set (certificates S) \<union> {c \<in> set cs. cert_valid X c}"
    and "cs_founder (fst (store_extend X cs S)) = cs_founder S"
  using store_extend_spec [OF valid_reaches [OF assms], of "filter (cert_valid X) cs"]
  by (auto simp: store_extend_valid [of X cs] reaches_def)

lemma store_insert_advances:
  assumes "collision_free X" and "store_wf X S"
  shows "store_wf X (fst (store_insert X c S)) \<and> set (certificates S) \<subseteq> set (certificates (fst (store_insert X c S)))"
proof (cases "cert_valid X c")
  case True
  then show ?thesis
    using cert_grow.view_ins [OF valid_reaches [OF assms], of c] cert_grow.wf_ins [OF valid_reaches [OF assms], of c]
    by (auto simp: store_ins_def reaches_def)
next
  case False
  then show ?thesis
    using stage_invalid [OF False, of S] assms(2)
    by (cases "stage X c S"; cases "snd (stage X c S)") (auto simp: store_insert_def is_ok_def)
qed

end
