(* ===== verification/Capability_Security.thy ===== *)
theory Capability_Security
  imports Capability_Store
begin

text \<open>
  What the store's answers mean for security: a certificate from a key that is not a certified
  device changes no answer, every administrator's authority is derived from the founder's, a
  proposal is executed exactly when it has its quorum, and a user's role is the one set at the
  highest rank.
\<close>

section \<open>Certificates of outsiders are inert\<close>

text \<open>
  \<open>quiet i k\<close>: the loop has not bound device \<open>i\<close> and not executed proposal \<open>k\<close>. The
  loop only adds, so a state before a quiet one is quiet.
\<close>

definition quiet :: "bytes32 \<Rightarrow> bytes32 \<Rightarrow> closure \<Rightarrow> bool" where
  "quiet i k c \<longleftrightarrow> bm_get (cl_device_user c) i = None \<and> k \<notin> set (cl_executed c)"

lemma quiet_before: "grown c c' \<Longrightarrow> quiet i k c' \<Longrightarrow> quiet i k c"
  by (cases "bm_get (cl_device_user c) i") (auto simp: quiet_def grown_def)

lemma fold_inert:
  assumes inert: "\<And>st. Q st \<Longrightarrow> f (k, v) st = st"
    and same: "\<And>x st. x \<in> set m \<Longrightarrow> Q st \<Longrightarrow> f x st = g x st"
    and "Q (fold g m st)" and earlier: "\<And>x st. Q (g x st) \<Longrightarrow> Q st" and "k \<notin> fst ` set m"
  shows "fold f (bm_insert k v m) st = fold g m st"
proof -
  have Q: "Q (fold g n st) \<Longrightarrow> Q st" for n st 
  proof (induction n arbitrary: st)
    case (Cons x n)
    then have "Q (g x st)" by simp
    then show ?case by (rule earlier)
  qed simp
  have plain: "Q (fold g n st) \<Longrightarrow> set n \<subseteq> set m \<Longrightarrow> fold f n st = fold g n st" for n st
  proof (induction n arbitrary: st)
    case (Cons x n)
    then have "f x st = g x st" using Q [of "x # n" st] same by simp
    with Cons show ?case by simp
  qed simp
  have "set n \<subseteq> set m \<Longrightarrow> Q (fold g n st) \<Longrightarrow> k \<notin> fst ` set n \<Longrightarrow>
      fold f (bm_insert k v n) st = fold g n st" for n st
  proof (induction n arbitrary: st)
    case Nil
    then show ?case by (simp add: inert)
  next
    case (Cons x n)
    obtain a b where x: "x = (a, b)" by fastforce
    have st: "Q st" using Cons.prems(2) by (rule Q)
    have fx: "f (a, b) st = g (a, b) st" using Cons.prems(1) st same x by simp
    have "k \<noteq> a" using Cons.prems(3) x by auto
    with Cons.IH [of "g (a, b) st"] plain [of "(a, b) # n" st] Cons.prems
    show ?case unfolding x by (cases "k < a") (simp_all add: fx inert [OF st])
  qed
  then show ?thesis using assms(3,5) by simp
qed

text \<open>\<open>extra i k m' m\<close>: \<open>m'\<close> may have one entry more, new, at \<open>k\<close>, issued by \<open>i\<close>.\<close>

definition extra :: "bytes32 \<Rightarrow> bytes32 \<Rightarrow> (bytes32, 'p signed) btree_map \<Rightarrow> (bytes32, 'p signed) btree_map \<Rightarrow> bool" where
  "extra i k m' m \<longleftrightarrow> m' = m \<or> (\<exists>sg. m' = bm_insert k sg m \<and> sg_issuer sg = i \<and> k \<notin> fst ` set m)"

definition adds :: "bytes32 \<Rightarrow> bytes32 \<Rightarrow> capability_store \<Rightarrow> capability_store \<Rightarrow> bool" where
  "adds i k T S \<longleftrightarrow> cs_founder T = cs_founder S \<and> i \<noteq> cs_founder S
     \<and> extra i k (cs_grants T) (cs_grants S) \<and> extra i k (cs_bindings T) (cs_bindings S)
     \<and> extra i k (cs_proposals T) (cs_proposals S) \<and> extra i k (cs_approvals T) (cs_approvals S)
     \<and> extra i k (cs_policies T) (cs_policies S)"

lemma extra_set: "extra i k m' m \<Longrightarrow> set m \<subseteq> set m' \<and> (\<forall>(d, sg) \<in> set m' - set m. sg_issuer sg = i)"
  by (auto simp: extra_def set_bm_insert_fresh)

lemma extra_get: "extra i k m' m \<Longrightarrow> d \<noteq> k \<Longrightarrow> bm_get m' d = bm_get m d"
  by (auto simp: extra_def)

lemma fold_extra:
  assumes "extra i k m' m" and "\<And>sg st. sg_issuer sg = i \<Longrightarrow> Q st \<Longrightarrow> f (k, sg) st = st"
    and same: "\<And>x st. Q st \<Longrightarrow> f x st = g x st"
    and "Q (fold g m st)" and earlier: "\<And>x st. Q (g x st) \<Longrightarrow> Q st"
  shows "fold f m' st = fold g m st"
proof -
  have Q: "Q (fold g n st) \<Longrightarrow> Q st" for n st
  proof (induction n arbitrary: st)
    case (Cons x n)
    then have "Q (g x st)" by simp
    then show ?case by (rule earlier)
  qed simp
  have "Q (fold g m st) \<Longrightarrow> fold f m st = fold g m st"
  proof (induction m arbitrary: st)
    case (Cons x m)
    then show ?case using Q [of "x # m" st] same by simp
  qed simp
  moreover have "fold f (bm_insert k sg m) st = fold g m st"
    if "sg_issuer sg = i" "k \<notin> fst ` set m" for sg
    by (rule fold_inert [where Q = Q, OF assms(2) [OF that(1)] same assms(4) earlier that(2)])
  ultimately show ?thesis using assms(1,4) by (auto simp: extra_def)
qed

lemma approving_users_extra:
  assumes "extra i k m' m" and "bm_get du i = None"
  shows "approving_users m' du ea p = approving_users m du ea p"
proof (rule bs_ext)
  have "bm_get du (sg_issuer sg) = Some u \<Longrightarrow> (a, sg) \<in> set m' \<longleftrightarrow> (a, sg) \<in> set m" for a sg u
    using extra_set [OF assms(1)] assms(2) by force
  then show "set (approving_users m' du ea p) = set (approving_users m du ea p)"
    unfolding set_eq_iff approving_users_iff by blast
qed (simp_all add: approving_users_def)

lemma grant_is_authorised_extra:
  assumes "extra i k m' m" and "k \<notin> set executed"
  shows "grant_is_authorised t u f g executed m' = grant_is_authorised t u f g executed m"
  using assms extra_get [OF assms(1)] by (fastforce simp: grant_is_authorised_def list_ex_iff)

lemma adds_steps:
  assumes "adds i k T S" and "quiet i k (fst st)"
  shows "propose_step T t x st = propose_step S t x st" and "grant_step T t y st = grant_step S t y st"
    and "sg_issuer b = i \<Longrightarrow> bind_step (k, b) st = st"
    and "sg_issuer p = i \<Longrightarrow> propose_step T t (k, p) st = st"
    and "sg_issuer g = i \<Longrightarrow> grant_step T t (k, g) st = st"
proof -
  obtain c changed where st: "st = (c, changed)" by fastforce
  obtain d psg e gsg where x: "x = (d, psg)" and y: "y = (e, gsg)" by (metis surj_pair)
  have "approving_users (cs_approvals T) (cl_device_user c) ea q = approving_users (cs_approvals S) (cl_device_user c) ea q"
    for ea q using assms st by (intro approving_users_extra [of i k]) (auto simp: adds_def quiet_def)
  then show "propose_step T t x st = propose_step S t x st"
    unfolding st x propose_step_def by (simp only: split_conv)
  have "grant_is_authorised t u f h (cl_executed c) (cs_proposals T)
      = grant_is_authorised t u f h (cl_executed c) (cs_proposals S)" for u f h
    using assms st by (intro grant_is_authorised_extra [of i k]) (auto simp: adds_def quiet_def)
  moreover have "cs_founder T = cs_founder S" using assms(1) by (simp add: adds_def)
  ultimately show "grant_step T t y st = grant_step S t y st"
    unfolding st y grant_step_def by (simp only: split_conv)
  show "sg_issuer b = i \<Longrightarrow> bind_step (k, b) st = st" "sg_issuer p = i \<Longrightarrow> propose_step T t (k, p) st = st"
    "sg_issuer g = i \<Longrightarrow> grant_step T t (k, g) st = st"
    using assms(2) by (cases st; simp add: bind_step_def propose_step_def grant_step_def quiet_def Let_def)+
qed

lemma adds_round:
  assumes "adds i k T S" and "quiet i k (fst (closure_round S t c))"
  shows "closure_round T t c = closure_round S t c"
proof -
  let ?b = "fold bind_step (cs_bindings S) (c, False)"
  let ?p = "fold (propose_step S t) (cs_proposals S) ?b"
  have q3: "quiet i k (fst (fold (grant_step S t) (cs_grants S) ?p))"
    using assms(2) by (simp add: closure_round_def)
  then have q2: "quiet i k (fst ?p)"
    by (rule quiet_before [rotated]) (rule grown_fold, rule grown_grant_step)
  then have q1: "quiet i k (fst ?b)"
    by (rule quiet_before [rotated]) (rule grown_fold, rule grown_propose_step)
  note ad = assms(1) [unfolded adds_def]
  let ?Q = "\<lambda>st. quiet i k (fst st)"
  have "fold bind_step (cs_bindings T) (c, False) = ?b"
    by (rule fold_extra [where Q = ?Q, OF _ adds_steps(3) [OF assms(1)] refl q1
        quiet_before [OF grown_bind_step]]) (use ad in auto)
  moreover have "fold (propose_step T t) (cs_proposals T) ?b = ?p"
    by (rule fold_extra [where Q = ?Q, OF _ adds_steps(4,1) [OF assms(1)] q2
        quiet_before [OF grown_propose_step]]) (use ad in auto)
  moreover have "fold (grant_step T t) (cs_grants T) ?p = fold (grant_step S t) (cs_grants S) ?p"
    by (rule fold_extra [where Q = ?Q, OF _ adds_steps(5,2) [OF assms(1)] q3
        quiet_before [OF grown_grant_step]]) (use ad in auto)
  ultimately show ?thesis by (simp add: closure_round_def)
qed

lemma grown_loop: "grown c (closure_loop S t c)"
  by (rule closure_settles.loop_inv [where P = "grown c"]) (simp, rule grown_trans [OF _ grown_round])

lemma adds_loop:
  assumes "adds i k T S"
  shows "quiet i k (closure_loop S t c) \<Longrightarrow> closure_loop T t c = closure_loop S t c"
proof (induction c rule: closure_settles.loop_induct [of S t])
  case (1 c)
  have "grown (fst (closure_round S t c)) (closure_loop S t c)"
    by (subst closure_loop.simps) (auto simp: grown_loop split: prod.splits)
  then have round: "closure_round T t c = closure_round S t c"
    by (rule adds_round [OF assms quiet_before]) (rule 1(2))
  obtain c' b where c': "closure_round S t c = (c', b)" by fastforce
  have S: "closure_loop S t c = (if b then closure_loop S t c' else c')"
    by (subst closure_loop.simps) (simp add: c')
  have "closure_loop T t c = (if b then closure_loop T t c' else c')"
    by (subst closure_loop.simps) (simp add: c' round)
  with S 1 c' show ?case by (cases b) simp_all
qed

lemma adds_roles:
  assumes "adds i k T S" and "quiet i k c"
  shows "resolve_roles T t c = resolve_roles S t c"
proof -
  note ad = assms(1) [unfolded adds_def]
  have auth: "grant_is_authorised t u f h (cl_executed c) (cs_proposals T)
      = grant_is_authorised t u f h (cl_executed c) (cs_proposals S)" for u f h
    using assms by (intro grant_is_authorised_extra [of i k]) (auto simp: adds_def quiet_def)
  have founder: "cs_founder T = cs_founder S" using ad by simp
  have same: "role_grant_step T t c = role_grant_step S t c"
    unfolding role_grant_step_def auth founder by (rule refl)
  have "fold (role_grant_step T t c) (cs_grants T) st = fold (role_grant_step S t c) (cs_grants S) st" for st
    unfolding same using ad assms(2)
    by (intro fold_extra [where Q = "\<lambda>_. True" and i = i and k = k])
      (auto simp: role_grant_step_def quiet_def)
  moreover have "fold (role_proposal_step c) (cs_proposals T) st = fold (role_proposal_step c) (cs_proposals S) st" for st
    using ad assms(2)
    by (intro fold_extra [where Q = "\<lambda>_. True" and i = i and k = k])
      (auto simp: role_proposal_step_def quiet_def)
  ultimately show ?thesis unfolding resolve_roles_def founder by simp
qed

lemma filter_insert_other:
  "k \<notin> fst ` set m \<Longrightarrow> \<not> P v \<Longrightarrow> filter P (map snd (bm_insert k v m)) = filter P (map snd m)"
  by (induction k v m rule: bm_insert.induct) auto

lemma resolve_threshold_filter:
  "resolve_threshold S = (case map (\<lambda>sg. max (pl_threshold (sg_payload sg)) 1)
       (filter (\<lambda>sg. sg_issuer sg = cs_founder S) (map snd (cs_policies S)))
     of [] \<Rightarrow> DEFAULT_THRESHOLD | t # ts \<Rightarrow> fold max ts t)"
proof -
  have "[max (pl_threshold (sg_payload sg)) 1. sg \<leftarrow> xs, sg_issuer sg = f]
      = map (\<lambda>sg. max (pl_threshold (sg_payload sg)) 1) (filter (\<lambda>sg. sg_issuer sg = f) xs)"
    for f and xs :: "policy signed list" by (induction xs) auto
  then show ?thesis unfolding resolve_threshold_def by (simp only:)
qed

lemma adds_threshold: "adds i k T S \<Longrightarrow> resolve_threshold T = resolve_threshold S"
  by (auto simp: adds_def extra_def resolve_threshold_filter filter_insert_other)

lemma adds_stage:
  assumes "base_wf X S" and "certificate_issuer c \<noteq> cs_founder S"
  shows "fst (stage X c S) = S \<or> adds (certificate_issuer c) (cc_digest X c) (fst (stage X c S)) S
    \<or> (\<exists>c' \<in> set (certificates S). cc_digest X c' = cc_digest X c)"
proof (cases "stage X c S")
  case (Pair S' r)
  consider "r = Inr True" | "r = Inr False" | e where "r = Inl e" by (cases r) auto
  then show ?thesis
  proof cases
    case 1
    with Pair have "adds (certificate_issuer c) (cc_digest X c) S' S"
      using assms(2)
      by (cases c) (auto simp: stage_def Let_def adds_def extra_def certificate_digest_def
          map_of_eq_None_iff split: sum.splits)
    then show ?thesis by (simp add: Pair)
  next
    case 2
    with Pair stage_known(2) [OF assms(1)] show ?thesis by auto
  next
    case 3
    with Pair stage_error [of X c S] show ?thesis by auto
  qed
qed

lemma executed_are_proposals: "set (cl_executed (closure_of S)) \<subseteq> fst ` set (cs_proposals S)"
  unfolding subset_iff executed_iff_supported supported_def by force

lemma outsider_recompute:
  assumes "settled S" and "adds i k T S" and "bm_get (cs_device_user S) i = None"
    and "k \<notin> fst ` set (cs_proposals S)"
  shows "cs_device_user (recompute T) = cs_device_user S" and "cs_ever_admin (recompute T) = cs_ever_admin S"
    and "cs_roles (recompute T) = cs_roles S" and "cs_executed (recompute T) = cs_executed S"
    and "cs_threshold (recompute T) = cs_threshold S"
proof -
  have quiet: "quiet i k (closure_of S)"
    using assms executed_are_proposals [of S] settled_fields [OF assms(1)] by (auto simp: quiet_def)
  have init: "closure_init T = closure_init S" using assms(2) by (simp add: closure_init_def adds_def)
  have "closure_of T = closure_of S"
    using adds_loop [OF assms(2), of "resolve_threshold S"] quiet
    by (simp add: closure_of_def adds_threshold [OF assms(2)] init)
  moreover have "settled (recompute T)" by (simp add: settled_def)
  moreover have same: "same_base (recompute T) T" by (simp add: same_base_def)
  moreover have "closure_of (recompute T) = closure_of T"
    by (simp add: closure_of_def same_base_steps [OF same] same_base_loop [OF same])
  ultimately show "cs_device_user (recompute T) = cs_device_user S" "cs_ever_admin (recompute T) = cs_ever_admin S"
    "cs_roles (recompute T) = cs_roles S" "cs_executed (recompute T) = cs_executed S"
    "cs_threshold (recompute T) = cs_threshold S"
    using adds_roles [OF assms(2) quiet]
    by (simp_all add: settled_fields assms(1) same_base_steps [OF same] adds_threshold [OF assms(2)])
qed

section \<open>Roles by rank\<close>

text \<open>
  The claims about roles that the closure accepts, in the order \<open>resolve_roles\<close> meets them: the
  founder's own role, the authorised grants, the executed role proposals.
\<close>

definition grant_events ::
  "capability_store \<Rightarrow> u32 \<Rightarrow> closure \<Rightarrow> (bytes32, grant signed) btree_map
     \<Rightarrow> (bytes32 \<times> role \<times> u64 \<times> bytes32) list" where
  "grant_events S t c gs =
     [(g_subject (sg_payload sg), g_capability (sg_payload sg), g_seq (sg_payload sg), d).
        (d, sg) \<leftarrow> gs,
        case bm_get (cl_device_user c) (sg_issuer sg) of None \<Rightarrow> False
        | Some u \<Rightarrow> u \<in> set (cl_ever_admin c) \<and>
            grant_is_authorised t u (cs_founder S) (sg_payload sg) (cl_executed c) (cs_proposals S)]"

definition proposal_events ::
  "closure \<Rightarrow> (bytes32, admin_proposal signed) btree_map \<Rightarrow> (bytes32 \<times> role \<times> u64 \<times> bytes32) list" where
  "proposal_events c ps = List.map_filter (\<lambda>(d, sg). if d \<in> set (cl_executed c) then
     (case ap_action (sg_payload sg) of RemoveMember _ \<Rightarrow> None
      | SetRole u r \<Rightarrow> Some (u, r, ap_seq (sg_payload sg), d)) else None) ps"

definition role_events :: "capability_store \<Rightarrow> u32 \<Rightarrow> closure \<Rightarrow> (bytes32 \<times> role \<times> u64 \<times> bytes32) list" where
  "role_events S t c =
     (cs_founder S, Admin, 0, 0) # grant_events S t c (cs_grants S) @ proposal_events c (cs_proposals S)"

definition supersede_event where
  "supersede_event = (\<lambda>(u, r, rank). supersede u r rank)"

lemma resolve_roles_events:
  "resolve_roles S t c = snd (fold supersede_event (role_events S t c) ([], []))"
proof -
  have "fold (role_grant_step S t c) gs st = fold supersede_event (grant_events S t c gs) st" for gs st
    by (induction gs arbitrary: st)
      (auto simp: role_grant_step_def supersede_event_def grant_events_def split: option.splits)
  moreover have "fold (role_proposal_step c) ps st = fold supersede_event (proposal_events c ps) st" for ps st
    by (induction ps arbitrary: st)
      (auto simp: role_proposal_step_def supersede_event_def proposal_events_def List.map_filter_def
        split: admin_action.splits)
  moreover have "supersede_event (cs_founder S, Admin, 0, 0) ([], []) = ([(cs_founder S, (0, 0))], [(cs_founder S, Admin)])"
    by (simp add: supersede_event_def supersede_def)
  ultimately show ?thesis by (simp add: resolve_roles_def role_events_def)
qed

definition ranked :: "(bytes32 \<times> role \<times> u64 \<times> bytes32) list
    \<Rightarrow> (bytes32, u64 \<times> bytes32) btree_map \<times> (bytes32, role) btree_map \<Rightarrow> bool" where
  "ranked evs = (\<lambda>(best, roles). \<forall>u. case bm_get best u of
       None \<Rightarrow> bm_get roles u = None \<and> u \<notin> fst ` set evs
     | Some rank \<Rightarrow> \<exists>r. bm_get roles u = Some r \<and> (u, r, rank) \<in> set evs
         \<and> (\<forall>r' rank'. (u, r', rank') \<in> set evs \<longrightarrow> rank' \<le> rank))"

lemma ranked_step: "ranked evs st \<Longrightarrow> ranked (evs @ [e]) (supersede_event e st)"
proof -
  obtain u r rank where e: "e = (u, r, rank)" by (metis surj_pair)
  obtain best roles where st: "st = (best, roles)" by fastforce
  assume ranked: "ranked evs st"
  note at = ranked [unfolded ranked_def st split_conv, rule_format]
  obtain best' roles' where s: "supersede u r rank st = (best', roles')" by fastforce
  have "case bm_get best' v of
       None \<Rightarrow> bm_get roles' v = None \<and> v \<notin> fst ` set (evs @ [e])
     | Some k \<Rightarrow> \<exists>r. bm_get roles' v = Some r \<and> (v, r, k) \<in> set (evs @ [e])
         \<and> (\<forall>r' k'. (v, r', k') \<in> set (evs @ [e]) \<longrightarrow> k' \<le> k)" for v
  proof (cases "v = u")
    case False
    then have "bm_get best' v = bm_get best v" "bm_get roles' v = bm_get roles v"
      using s by (auto simp: supersede_def st split: if_splits)
    with at [of v] False e show ?thesis by (cases "bm_get best v") (simp_all del: split_paired_All)
  next
    case True
    show ?thesis
    proof (cases "bm_get best u")
      case None
      with s have "bm_get best' u = Some rank" "bm_get roles' u = Some r" by (auto simp: supersede_def st)
      with at [of u] None True e show ?thesis by (force simp del: split_paired_All)
    next
      case (Some k)
      then obtain q where q: "bm_get roles u = Some q" "(u, q, k) \<in> set evs"
          "\<And>r' k'. (u, r', k') \<in> set evs \<Longrightarrow> k' \<le> k"
        using at [of u] by (auto simp del: split_paired_All)
      show ?thesis
      proof (cases "k < rank")
        case True
        with s Some have "bm_get best' u = Some rank" "bm_get roles' u = Some r" by (auto simp: supersede_def st)
        moreover have "k' \<le> rank" if "(u, r', k') \<in> set evs" for r' k'
          using q(3) [OF that] True by (meson less_imp_le order_trans)
        ultimately show ?thesis using \<open>v = u\<close> e by (auto simp del: split_paired_All)
      next
        case False
        with s Some q have "bm_get best' u = Some k" "bm_get roles' u = Some q" by (auto simp: supersede_def st)
        with q False \<open>v = u\<close> e show ?thesis by (auto simp del: split_paired_All intro: leI)
      qed
    qed
  qed
  then have "ranked (evs @ [e]) (best', roles')" unfolding ranked_def split_conv by blast
  then show ?thesis by (simp add: supersede_event_def e s)
qed

lemma ranked_fold: "ranked evs st \<Longrightarrow> ranked (evs @ es) (fold supersede_event es st)"
proof (induction es arbitrary: evs st)
  case (Cons e es)
  then show ?case using Cons.IH [OF ranked_step [OF Cons.prems], of e] by simp
qed simp

lemma ranked_roles: "ranked (role_events S t c) (fold supersede_event (role_events S t c) ([], []))"
  using ranked_fold [of "[]" "([], [])" "role_events S t c"] by (simp add: ranked_def)

lemma role_of_ranked:
  assumes "settled S"
  defines "evs \<equiv> role_events S (cs_threshold S) (closure_of S)"
  shows "case role_of S u of
      None \<Rightarrow> u \<notin> fst ` set evs
    | Some r \<Rightarrow> \<exists>rank. (u, r, rank) \<in> set evs \<and> (\<forall>r' rank'. (u, r', rank') \<in> set evs \<longrightarrow> rank' \<le> rank)"
proof -
  have "role_of S u = bm_get (snd (fold supersede_event evs ([], []))) u"
    using settled_fields [OF assms(1)] by (simp add: role_of_def evs_def resolve_roles_events)
  moreover obtain best roles where fold: "fold supersede_event evs ([], []) = (best, roles)" by fastforce
  moreover have "ranked evs (best, roles)"
    using ranked_roles [of S "cs_threshold S" "closure_of S", folded evs_def] fold by simp
  ultimately show ?thesis
    unfolding ranked_def split_conv
    by (cases "bm_get best u") (auto simp del: split_paired_All split_paired_Ex dest!: spec [of _ u], blast)
qed

lemma card_image_Diff_le: "card (f ` set xs - A) \<le> length xs"
proof -
  have "card (f ` set xs - A) \<le> card (f ` set xs)" by (rule card_mono) auto
  also have "\<dots> \<le> card (set xs)" by (rule card_image_le) simp
  also have "\<dots> \<le> length xs" by (rule card_length)
  finally show ?thesis .
qed

lemma closure_gap_init: "closure_gap S (closure_init S) \<le> store_len S"
  using card_image_Diff_le [of "db_device \<circ> sg_payload \<circ> snd" "cs_bindings S" "fst ` set (cl_device_user (closure_init S))"]
    card_image_Diff_le [of fst "cs_proposals S" "set (cl_executed (closure_init S))"]
    card_image_Diff_le [of "g_subject \<circ> sg_payload \<circ> snd" "cs_grants S" "set (cl_ever_admin (closure_init S))"]
  unfolding closure_gap_def store_len_def by linarith

section \<open>Properties\<close>

text \<open>
  C5. Convergence. Two replicas of one workspace that have received the same certificates, in any
  order and cut into batches in any way, hold the same store: the same certificates and the same
  derived devices, administrators, executed proposals, threshold and roles.
\<close>

theorem certificates_converge:
  assumes "inj_on (cc_digest X) (set (concat batches))"
    and "set (concat batches) = set (concat batches')"
  shows "fold (\<lambda>b S. fst (store_extend X b S)) batches (capability_store_new f)
    = fold (\<lambda>b S. fst (store_extend X b S)) batches' (capability_store_new f)"
proof -
  note new = reaches_new [OF assms(1), of f]
  show ?thesis
    using extend_batches [OF new] cert_grow.order_independent [OF new _ assms(2)] assms(2) by simp
qed

text \<open>
  C19. A certificate signed by a key that is no certified device changes no answer of the store: not
  the device owners, the administrators, the roles, the threshold or the executed proposals.
\<close>

theorem outsider_certificate_inert:
  assumes "store_wf X S" and "inj_on (cc_digest X) (insert c (set (certificates S)))"
    and "user_of S (certificate_issuer c) = None"
  defines "S' \<equiv> fst (store_insert X c S)"
  shows "user_of S' = user_of S \<and> ever_admin S' = ever_admin S \<and> role_of S' = role_of S
    \<and> is_executable S' = is_executable S \<and> cs_threshold S' = cs_threshold S"
proof -
  let ?U = "insert c (set (certificates S))" and ?T = "fst (stage X c S)"
  have reach: "reaches X (cs_founder S) ?U S" using assms by (auto simp: reaches_def)
  have set: "settled S" "base_wf X S" using assms(1) by (simp_all add: store_wf_def)
  have S': "S' = recompute ?T"
    using store_ins_cases [OF reach] by (simp add: S'_def store_ins_def)
  have "certificate_issuer c \<noteq> cs_founder S"
    using closure_of_founder(1) [of S] settled_fields(1) [OF set(1)] assms(3) by (auto simp: user_of_def)
  note cases = adds_stage [OF set(2) this]
  show ?thesis
  proof (cases "c \<in> set (certificates S)")
    case True
    then have "S' = S" using cert_grow.redelivery [OF reach] by (simp add: S'_def store_ins_def)
    then show ?thesis by simp
  next
    case False
    then have new: "\<not> (\<exists>c' \<in> set (certificates S). cc_digest X c' = cc_digest X c)"
      using assms(2) by (metis inj_onD insertI1 insertI2)
    have fresh: "cc_digest X c \<notin> fst ` set (cs_proposals S)"
    proof
      assume "cc_digest X c \<in> fst ` set (cs_proposals S)"
      then obtain sg where "(cc_digest X c, sg) \<in> set (cs_proposals S)" by auto
      moreover from this have "cc_digest X (Proposal sg) = cc_digest X c"
        using set(2) by (auto simp: base_wf_def keyed_def)
      ultimately show False using new set_certificates(3) [of sg S] by force
    qed
    from cases new consider "?T = S" | "adds (certificate_issuer c) (cc_digest X c) ?T S" by blast
    then show ?thesis
    proof cases
      case 1
      then have "S' = S" using S' set(1) by (simp add: settled_def)
      then show ?thesis by simp
    next
      case 2
      from outsider_recompute [OF set(1) this _ fresh] assms(3) show ?thesis
        by (simp add: S' user_of_def ever_admin_def role_of_def is_executable_def fun_eq_iff)
    qed
  qed
qed

text \<open>
  C6. Whatever the store answers about devices, administrators and executed proposals is derived
  from the founder: each fact has a chain of certificates of the store behind it.
\<close>

theorem closure_sound:
  assumes "store_wf X S"
  shows "(user_of S d = Some u \<longrightarrow> bound S (cs_threshold S) d u)
    \<and> (ever_admin S v \<longrightarrow> admin S (cs_threshold S) v)
    \<and> (is_executable S p \<longrightarrow> quorum S (cs_threshold S) p)"
  using closure_of_justified [of S] settled_fields [of S] assms
  by (simp add: justified_def user_of_def ever_admin_def is_executable_def store_wf_def)

text \<open>
  C20. When no device is named by two bindings with different owners, the loop of \<open>recompute\<close>
  finds every fact the certificates justify: its answers are exactly the derivable ones.
\<close>

theorem closure_exact:
  assumes "store_wf X S" and "unique_bindings S"
  shows "(user_of S d = Some u \<longleftrightarrow> bound S (cs_threshold S) d u)
    \<and> (ever_admin S v \<longleftrightarrow> admin S (cs_threshold S) v)
    \<and> (is_executable S p \<longleftrightarrow> quorum S (cs_threshold S) p)"
proof -
  have "settled S" using assms(1) by (simp add: store_wf_def)
  note fields = settled_fields [OF this]
  show ?thesis
    unfolding user_of_def ever_admin_def is_executable_def fields
    using closure_of_justified [of S, unfolded justified_def] closure_of_complete [OF assms(2)] by blast
qed

text \<open>
  C30. A proposal is executable exactly when an administrator signed it and at least the threshold
  of distinct administrators approve it.
\<close>

theorem executable_iff_quorum:
  assumes "store_wf X S"
  shows "is_executable S p \<longleftrightarrow>
    (\<exists>sg u. bm_get (cs_proposals S) p = Some sg \<and> user_of S (sg_issuer sg) = Some u \<and> ever_admin S u)
    \<and> unat (cs_threshold S) \<le> approver_count S p"
proof -
  have "bm_get (cs_proposals S) p = Some sg \<longleftrightarrow> (p, sg) \<in> set (cs_proposals S)" for sg
    using assms by (simp add: store_wf_def base_wf_def keyed_def bm_get_in_set)
  then show ?thesis
    using executed_iff_supported [of p S] settled_fields [of S] assms
    by (auto simp: is_executable_def supported_def user_of_def ever_admin_def approver_count_def
        approvers_def store_wf_def)
qed

text \<open>
  \<open>recompute\<close> returns: its loop settles after at most as many rounds as the store has
  certificates, plus the last round that finds nothing new.
\<close>

theorem closure_rounds_bounded:
  "run_rounds (closure_round S t) (Suc (store_len S)) (closure_init S)
     = Some (closure_loop S t (closure_init S))"
  using closure_gap_init [of S] by (intro closure_settles.run_rounds_loop) simp

text \<open>
  A user's role is the one of the highest rank, by sequence number and then digest, among the
  founder's own role, the authorised grants and the executed role proposals; a user none of them
  names has no role.
\<close>

theorem role_of_highest_rank:
  assumes "store_wf X S"
  shows "case role_of S u of
      None \<Rightarrow> u \<notin> fst ` set (role_events S (cs_threshold S) (closure_of S))
    | Some r \<Rightarrow> \<exists>rank. (u, r, rank) \<in> set (role_events S (cs_threshold S) (closure_of S))
        \<and> (\<forall>r' rank'. (u, r', rank') \<in> set (role_events S (cs_threshold S) (closure_of S)) \<longrightarrow> rank' \<le> rank)"
  using assms unfolding store_wf_def by (intro role_of_ranked) simp

text \<open>
  Receiving certificates as one batch is receiving them one by one: same store, and the count
  \<open>extend\<close> reports is the number of certificates the store grew by.
\<close>

theorem extend_is_inserts:
  assumes "store_wf X S" and "inj_on (cc_digest X) (set (certificates S) \<union> set certs)"
  shows "fst (store_extend X certs S) = fold (\<lambda>c S. fst (store_insert X c S)) certs S
    \<and> store_len (fst (store_extend X certs S)) = store_len S + snd (store_extend X certs S)
    \<and> store_wf X (fst (store_extend X certs S))"
proof -
  have r: "reaches X (cs_founder S) (set (certificates S) \<union> set certs) S"
    using assms by (simp add: reaches_def)
  show ?thesis
    using store_extend_fold [OF r] store_extend_spec [OF r]
    by (simp add: store_ins_def [abs_def] reaches_def)
qed

text \<open>The five domain tags are pairwise different, so no certificate passes for one of another kind.\<close>

theorem domain_tags_distinct:
  "distinct [GRANT_DOMAIN, BINDING_DOMAIN, PROPOSAL_DOMAIN, APPROVAL_DOMAIN, POLICY_DOMAIN]"
  by code_simp

end
