(* ===== verification/Examples.thy ===== *)
theory Examples
  imports Capability_Security
begin

text \<open>
  Concrete instances of the libraries the crate builds on, small enough to evaluate, and the
  properties of the other theories applied to concrete workspaces.
\<close>

section \<open>A signature scheme to compute with\<close>

text \<open>
  A key pair is one number, every signature verifies, and a digest is a certificate's kind and
  nonce: two certificates of one kind collide exactly when their nonces are equal.
\<close>

definition tagged :: "bytes32 \<Rightarrow> bytes16 \<Rightarrow> bytes32" where
  "tagged kind nonce = kind + 8 * ucast nonce"

fun demo_digest :: "certificate \<Rightarrow> bytes32" where
  "demo_digest (Grant sg) = tagged 1 (g_nonce (sg_payload sg))"
| "demo_digest (Binding sg) = tagged 2 (db_nonce (sg_payload sg))"
| "demo_digest (Proposal sg) = tagged 3 (ap_nonce (sg_payload sg))"
| "demo_digest (Approval sg) = tagged 4 (av_nonce (sg_payload sg))"
| "demo_digest (Policy sg) = tagged 5 (pl_nonce (sg_payload sg))"

definition demo_signed :: "bytes32 \<Rightarrow> 'p \<Rightarrow> string + 'p signed" where
  "demo_signed key p = Inr \<lparr>sg_issuer = key, sg_payload = p, sg_signature = []\<rparr>"

definition demo_crypto :: cert_crypto where
  "demo_crypto = \<lparr>cc_verify = (\<lambda>_. True), cc_digest = demo_digest, cc_sign_grant = demo_signed,
     cc_sign_binding = demo_signed, cc_sign_proposal = demo_signed, cc_sign_approval = demo_signed,
     cc_sign_policy = demo_signed, cc_verifying_key = (\<lambda>k. k), cc_is_point = (\<lambda>_. True)\<rparr>"

lemma demo_crypto_simps [simp]:
  "cc_digest demo_crypto = demo_digest" "cc_verify demo_crypto = (\<lambda>_. True)"
  "cc_sign_grant demo_crypto = demo_signed" "cc_sign_binding demo_crypto = demo_signed"
  "cc_verifying_key demo_crypto = (\<lambda>k. k)" "cc_is_point demo_crypto = (\<lambda>_. True)"
  by (simp_all add: demo_crypto_def)

section \<open>A small workspace\<close>

text \<open>User 1 founds the workspace from device 1, makes user 2 an administrator and binds device 20 to them.\<close>

definition alice_grant :: certificate where
  "alice_grant = Grant \<lparr>sg_issuer = 1, sg_payload = grant_new 2 Admin 0 None 7, sg_signature = []\<rparr>"

definition alice_device :: certificate where
  "alice_device = Binding \<lparr>sg_issuer = 1, sg_payload = device_binding_new 20 2 8, sg_signature = []\<rparr>"

text \<open>A grant by a key nobody certified.\<close>

definition stray_grant :: certificate where
  "stray_grant = Grant \<lparr>sg_issuer = 66, sg_payload = grant_new 66 Admin 5 None 9, sg_signature = []\<rparr>"

definition alice_store :: capability_store where
  "alice_store = fst (store_extend demo_crypto [alice_grant, alice_device] (capability_store_new 1))"

lemmas demo_certs = alice_grant_def alice_device_def stray_grant_def grant_new_def device_binding_new_def

lemma demo_inj: "inj_on (cc_digest demo_crypto) {alice_grant, alice_device, stray_grant}"
  by (simp add: inj_on_def demo_certs tagged_def)

lemma alice_reaches: "reaches demo_crypto 1 {alice_grant, alice_device, stray_grant} alice_store"
  unfolding alice_store_def using reaches_new [OF demo_inj] by (rule store_extend_spec) simp

lemma alice_store_facts:
  "store_wf demo_crypto alice_store" "set (certificates alice_store) \<subseteq> {alice_grant, alice_device, stray_grant}"
  using alice_reaches by (simp_all add: reaches_def)

lemma alice_store_unique: "unique_bindings alice_store"
  by code_simp

theorem certificates_converge_witness:
  "fold (\<lambda>b S. fst (store_extend demo_crypto b S)) [[alice_grant], [alice_device]] (capability_store_new 1)
    = fold (\<lambda>b S. fst (store_extend demo_crypto b S)) [[alice_device, alice_grant, alice_device]] (capability_store_new 1)"
  by (rule certificates_converge) (rule inj_on_subset [OF demo_inj], auto)

theorem outsider_certificate_inert_witness:
  "role_of (fst (store_insert demo_crypto stray_grant alice_store)) = role_of alice_store"
proof -
  have "user_of alice_store (certificate_issuer stray_grant) = None" by code_simp
  moreover have "inj_on (cc_digest demo_crypto) (insert stray_grant (set (certificates alice_store)))"
    by (rule inj_on_subset [OF demo_inj]) (use alice_store_facts in auto)
  ultimately show ?thesis using outsider_certificate_inert [OF alice_store_facts(1), of stray_grant] by blast
qed

theorem closure_sound_witness: "bound alice_store (cs_threshold alice_store) 20 2"
proof -
  have "user_of alice_store 20 = Some 2" by code_simp
  then show ?thesis using closure_sound [OF alice_store_facts(1), of 20 2 0 0] by blast
qed

theorem closure_exact_witness: "admin alice_store (cs_threshold alice_store) 2 \<and> \<not> admin alice_store (cs_threshold alice_store) 3"
proof -
  have "ever_admin alice_store 2" "\<not> ever_admin alice_store 3" by code_simp+
  then show ?thesis
    using closure_exact [OF alice_store_facts(1) alice_store_unique, of 0 0 2 0]
      closure_exact [OF alice_store_facts(1) alice_store_unique, of 0 0 3 0] by blast
qed

text \<open>Two administrators, a threshold of two, and a proposal both of them approve.\<close>

definition quorum_certs :: "certificate list" where
  "quorum_certs = [alice_grant, alice_device,
     Policy \<lparr>sg_issuer = 1, sg_payload = policy_new 2 10, sg_signature = []\<rparr>,
     Proposal \<lparr>sg_issuer = 20, sg_payload = admin_proposal_new (SetRole 3 Editor) 0 None 11, sg_signature = []\<rparr>,
     Approval \<lparr>sg_issuer = 20, sg_payload = approval_new (tagged 3 11) 12, sg_signature = []\<rparr>,
     Approval \<lparr>sg_issuer = 1, sg_payload = approval_new (tagged 3 11) 13, sg_signature = []\<rparr>]"

definition quorum_store :: capability_store where
  "quorum_store = fst (store_extend demo_crypto quorum_certs (capability_store_new 1))"

lemma quorum_inj: "inj_on (cc_digest demo_crypto) (set quorum_certs)"
proof -
  have "distinct (map demo_digest quorum_certs)" by code_simp
  then show ?thesis by (simp add: distinct_map)
qed

lemma quorum_store_wf: "store_wf demo_crypto quorum_store"
  using store_extend_spec(1) [OF reaches_new [OF quorum_inj], of quorum_certs 1]
  by (simp add: reaches_def quorum_store_def)

theorem executable_iff_quorum_witness: "2 \<le> approver_count quorum_store (tagged 3 11)"
proof -
  have "is_executable quorum_store (tagged 3 11)" "unat (cs_threshold quorum_store) = 2" by code_simp+
  then show ?thesis using executable_iff_quorum [OF quorum_store_wf, of "tagged 3 11"] by simp
qed

theorem role_of_highest_rank_witness:
  "\<exists>rank. (3, Editor, rank) \<in> set (role_events quorum_store (cs_threshold quorum_store) (closure_of quorum_store))"
proof -
  have "role_of quorum_store 3 = Some Editor" by code_simp
  then show ?thesis using role_of_highest_rank [OF quorum_store_wf, of 3] by auto
qed

theorem extend_is_inserts_witness:
  "fst (store_extend demo_crypto quorum_certs (capability_store_new 1))
    = fold (\<lambda>c S. fst (store_insert demo_crypto c S)) quorum_certs (capability_store_new 1)"
proof -
  have "store_wf demo_crypto (capability_store_new 1)" "certificates (capability_store_new 1) = []"
    using reaches_new [of demo_crypto "{}" 1] by (simp_all add: reaches_def)
  then show ?thesis using extend_is_inserts [of demo_crypto "capability_store_new 1" quorum_certs] quorum_inj by simp
qed

end
