(* ===== verification/Cooldown.thy ===== *)
theory Cooldown
  imports Prelude
begin

text \<open>
  The rate limiter (\<open>cooldown.rs\<close>). A \<open>Duration\<close>, and an instant as the duration since some
  origin, is a number of nanoseconds; both \<open>since\<close> implementations subtract and saturate at zero,
  which is subtraction on \<open>nat\<close>.
\<close>

record 'k cooldown =
  cd_seen :: "'k \<rightharpoonup> nat"
  cd_window :: nat

definition since :: "nat \<Rightarrow> nat \<Rightarrow> nat" where
  "since now earlier = now - earlier"

definition cooldown_default :: "'k cooldown" where
  "cooldown_default = \<lparr>cd_seen = Map.empty, cd_window = 0\<rparr>"

definition cooldown_new :: "nat \<Rightarrow> 'k cooldown" where
  "cooldown_new window = \<lparr>cd_seen = Map.empty, cd_window = window\<rparr>"

text \<open>\<open>HashMap::retain\<close>\<close>

definition retain :: "('k \<Rightarrow> 'v \<Rightarrow> bool) \<Rightarrow> ('k \<rightharpoonup> 'v) \<Rightarrow> 'k \<rightharpoonup> 'v" where
  "retain p m = (\<lambda>k. case m k of None \<Rightarrow> None | Some v \<Rightarrow> if p k v then Some v else None)"

definition claim :: "'k \<Rightarrow> nat \<Rightarrow> 'k cooldown \<Rightarrow> 'k cooldown \<times> bool" where
  "claim key now c =
     (let window = cd_window c;
          seen = retain (\<lambda>_ at. since now at < window) (cd_seen c)
      in case seen key of
           Some at \<Rightarrow> if since now at < window then (c\<lparr>cd_seen := seen\<rparr>, False)
                      else (c\<lparr>cd_seen := seen(key \<mapsto> now)\<rparr>, True)
         | None \<Rightarrow> (c\<lparr>cd_seen := seen(key \<mapsto> now)\<rparr>, True))"

definition tracked :: "'k cooldown \<Rightarrow> nat" where
  "tracked c = card (dom (cd_seen c))"

text \<open>The answers to a sequence of claims.\<close>

fun claims :: "('k \<times> nat) list \<Rightarrow> 'k cooldown \<Rightarrow> bool list" where
  "claims [] c = []"
| "claims ((key, now) # rs) c = (case claim key now c of (c', ok) \<Rightarrow> ok # claims rs c')"

lemma length_claims [simp]: "length (claims rs c) = length rs"
  by (induction rs c rule: claims.induct) (auto split: prod.splits)

lemma claim_window [simp]: "cd_window (fst (claim k now c)) = cd_window c"
  by (auto simp: claim_def Let_def split: option.splits)

lemma claim_answer:
  "snd (claim k now c) \<longleftrightarrow> (case cd_seen c k of None \<Rightarrow> True | Some at \<Rightarrow> cd_window c \<le> now - at)"
  by (auto simp: claim_def Let_def retain_def since_def split: option.splits)

lemma claim_seen:
  "cd_seen (fst (claim k now c)) k' =
     (if k' = k \<and> snd (claim k now c) then Some now
      else case cd_seen c k' of None \<Rightarrow> None | Some at \<Rightarrow> if now - at < cd_window c then Some at else None)"
  by (auto simp: claim_def Let_def retain_def since_def split: option.splits)

text \<open>While an accepted claim's window is open its entry stays and its key is refused.\<close>

lemma refused_in_window:
  assumes "cd_seen c k = Some t" and "sorted (map snd rs)" and "j < length rs" and "fst (rs ! j) = k"
    and "snd (rs ! j) < t + cd_window c" and "\<forall>r \<in> set rs. t \<le> snd r"
  shows "\<not> claims rs c ! j"
  using assms
proof (induction rs c arbitrary: j rule: claims.induct)
  case (2 key now rs c)
  obtain c' ok where claim: "claim key now c = (c', ok)" by fastforce
  have ans: "key = k \<Longrightarrow> now < t + cd_window c \<Longrightarrow> \<not> ok"
    using claim_answer [of key now c] 2(2,7) claim by auto
  have "now \<le> snd (((key, now) # rs) ! j)"
    using 2(3,4) by (cases j) auto
  with 2(6) have now: "now < t + cd_window c" by simp
  show ?case
  proof (cases j)
    case 0
    with 2(5) ans now claim show ?thesis by simp
  next
    case (Suc i)
    have "cd_seen c' k = Some t" "cd_window c' = cd_window c"
      using claim_seen [of key now c k] claim_window [of key now c] claim ans now 2(2,7) by auto
    with 2(1) [OF claim [symmetric], of i] 2(3-7) Suc show ?thesis by (simp add: claim)
  qed
qed simp

text \<open>
  C37. However claims of different keys interleave, two accepted claims of one key are at least a
  window apart, provided the clock does not run backwards.
\<close>

theorem accepted_claims_spaced:
  assumes "sorted (map snd rs)" and "i < j" and "j < length rs" and "fst (rs ! i) = fst (rs ! j)"
    and "claims rs c ! i" and "claims rs c ! j"
  shows "snd (rs ! i) + cd_window c \<le> snd (rs ! j)"
  using assms
proof (induction rs c arbitrary: i j rule: claims.induct)
  case (2 key now rs c)
  obtain c' ok where claim: "claim key now c = (c', ok)" by fastforce
  have w: "cd_window c' = cd_window c" using claim_window [of key now c] claim by simp
  obtain j' where j: "j = Suc j'" using 2(3) by (cases j) auto
  show ?case
  proof (cases i)
    case 0
    with 2(6) claim have "cd_seen c' key = Some now" using claim_seen [of key now c key] by simp
    from refused_in_window [OF this, of rs j'] show ?thesis
      using 2(2,4,5,7) 0 j claim w by (cases "snd (rs ! j') < now + cd_window c") auto
  next
    case (Suc i')
    with 2(1) [OF claim [symmetric], of i' j'] 2(2-7) j claim w show ?thesis by simp
  qed
qed simp

text \<open>
  A claim is refused only because its key was accepted within the window, and after a claim
  every remembered instant is within the window of now, or is the one just accepted.
\<close>

theorem claim_refused_iff:
  "(\<not> snd (claim k now c) \<longleftrightarrow> (\<exists>at. cd_seen c k = Some at \<and> now - at < cd_window c))
   \<and> (cd_seen (fst (claim k now c)) k' = Some at \<longrightarrow>
        now - at < cd_window c \<or> k' = k \<and> at = now \<and> snd (claim k now c))"
  by (auto simp: claim_answer claim_seen split: option.splits if_splits)

theorem accepted_claims_spaced_witness:
  "(0::nat) + 5 \<le> 6 \<and> claims [(''a'', 0), (''b'', 2), (''a'', 6)] (cooldown_new 5) = [True, True, True]"
proof -
  have run: "claims [(''a'', 0), (''b'', 2), (''a'', 6)] (cooldown_new 5) = [True, True, True]"
    by code_simp
  then show ?thesis
    using accepted_claims_spaced [of "[(''a'', 0), (''b'', 2), (''a'', 6)]" 0 2 "cooldown_new 5"]
    by (simp add: cooldown_new_def)
qed

theorem claim_refused_iff_witness: "\<not> snd (claim ''a'' 4 (fst (claim ''a'' 0 (cooldown_new 5))))"
  using claim_refused_iff [of "''a''" 4 "fst (claim ''a'' 0 (cooldown_new 5))"]
  by (simp add: claim_def cooldown_new_def retain_def since_def)

end
