(* ===== verification/Blinding.thy ===== *)
theory Blinding
  imports Prelude
begin

text \<open>
  Blinded storage keys (\<open>blinding.rs\<close>). BLAKE3 is a parameter: \<open>hl_hash\<close>, \<open>hl_keyed\<close>
  and \<open>hl_derive\<close> are \<open>blake3::hash\<close>, \<open>keyed_hash\<close> and \<open>derive_key\<close>.
\<close>

record hash_lib =
  hl_hash :: "bytes \<Rightarrow> bytes32"
  hl_keyed :: "bytes32 \<Rightarrow> bytes \<Rightarrow> bytes32"
  hl_derive :: "string \<Rightarrow> bytes \<Rightarrow> bytes32"

definition ascii :: "string \<Rightarrow> bytes" where
  "ascii s = map (\<lambda>c. of_nat (of_char c)) s"

definition STORAGE_KEY_CONTEXT :: bytes where
  "STORAGE_KEY_CONTEXT = ascii ''iroh-beekem/storage-key/v1''"

definition MANIFEST_LABEL :: bytes where
  "MANIFEST_LABEL = ascii ''iroh-beekem/manifest/v1''"

definition AUTHOR_SEED_CONTEXT :: string where
  "AUTHOR_SEED_CONTEXT = ''iroh-beekem/author-seed/v1''"

definition ASSET_KEY_LABEL :: bytes where
  "ASSET_KEY_LABEL = ascii ''iroh-beekem/asset-key/v1''"

definition ASSET_PART_LABEL :: bytes where
  "ASSET_PART_LABEL = ascii ''iroh-beekem/asset-part/v1''"

text \<open>A \<open>DocumentUuid\<close> is its 16 bytes, a \<open>StorageKey\<close> and a \<open>WorkspaceSecret\<close> their 32.\<close>

type_synonym document_uuid = bytes16
type_synonym storage_key_bytes = bytes32
type_synonym workspace_secret = bytes32

definition storage_key :: "hash_lib \<Rightarrow> workspace_secret \<Rightarrow> document_uuid \<Rightarrow> storage_key_bytes" where
  "storage_key H s doc = hl_keyed H s (STORAGE_KEY_CONTEXT @ be_bytes 16 doc)"

definition manifest_key :: "hash_lib \<Rightarrow> workspace_secret \<Rightarrow> storage_key_bytes" where
  "manifest_key H s = hl_keyed H s MANIFEST_LABEL"

definition asset_key_key :: "hash_lib \<Rightarrow> workspace_secret \<Rightarrow> document_uuid \<Rightarrow> storage_key_bytes" where
  "asset_key_key H s asset = hl_keyed H s (ASSET_KEY_LABEL @ be_bytes 16 asset)"

text \<open>The first 24 of 32 bytes are the upper 192 of 256 bits.\<close>

definition asset_prefix :: "hash_lib \<Rightarrow> workspace_secret \<Rightarrow> document_uuid \<Rightarrow> bytes24" where
  "asset_prefix H s asset = ucast (drop_bit 64 (hl_keyed H s (ASSET_PART_LABEL @ be_bytes 16 asset)))"

definition asset_part_key :: "hash_lib \<Rightarrow> workspace_secret \<Rightarrow> document_uuid \<Rightarrow> u64 \<Rightarrow> storage_key_bytes" where
  "asset_part_key H s asset part = push_bit 64 (ucast (asset_prefix H s asset)) + ucast part"

definition author_seed :: "hash_lib \<Rightarrow> workspace_secret \<Rightarrow> bytes32 \<Rightarrow> bytes32" where
  "author_seed H s member = hl_derive H AUTHOR_SEED_CONTEXT (be_bytes 32 s @ be_bytes 32 member)"

section \<open>What the keys keep apart\<close>

text \<open>The messages the workspace secret MACs.\<close>

datatype blinded = ManifestEntry | DocumentEntry bytes16 | AssetKeyEntry bytes16

fun blinded_input :: "blinded \<Rightarrow> bytes" where
  "blinded_input ManifestEntry = MANIFEST_LABEL"
| "blinded_input (DocumentEntry u) = STORAGE_KEY_CONTEXT @ be_bytes 16 u"
| "blinded_input (AssetKeyEntry u) = ASSET_KEY_LABEL @ be_bytes 16 u"

lemma label_lengths [simp]:
  "length STORAGE_KEY_CONTEXT = 26" "length MANIFEST_LABEL = 23" "length ASSET_KEY_LABEL = 24"
  "length ASSET_PART_LABEL = 25"
  by (simp_all add: STORAGE_KEY_CONTEXT_def MANIFEST_LABEL_def ASSET_KEY_LABEL_def ASSET_PART_LABEL_def ascii_def)

lemma blinded_input_length:
  "length (blinded_input b) = (case b of ManifestEntry \<Rightarrow> 23 | DocumentEntry _ \<Rightarrow> 42 | AssetKeyEntry _ \<Rightarrow> 40)"
  by (cases b) simp_all

lemma inj_blinded_input: "inj blinded_input"
proof (rule injI)
  fix a b assume eq: "blinded_input a = blinded_input b"
  then have "length (blinded_input a) = length (blinded_input b)" by simp
  from this [unfolded blinded_input_length] eq show "a = b"
    by (cases a; cases b) (auto intro: be_bytes_inj)
qed

definition blinded_key :: "hash_lib \<Rightarrow> workspace_secret \<Rightarrow> blinded \<Rightarrow> storage_key_bytes" where
  "blinded_key H s b = (case b of ManifestEntry \<Rightarrow> manifest_key H s
     | DocumentEntry u \<Rightarrow> storage_key H s u | AssetKeyEntry u \<Rightarrow> asset_key_key H s u)"

lemma blinded_key_input: "blinded_key H s b = hl_keyed H s (blinded_input b)"
  by (cases b) (simp_all add: blinded_key_def manifest_key_def storage_key_def asset_key_key_def)

text \<open>
  The manifest, every document and every asset's key entry have different storage keys, as long
  as the keyed hash does not collide on the labelled inputs: no two entries share a key and no
  label runs into another.
\<close>

theorem blinded_keys_distinct:
  assumes "inj_on (hl_keyed H s) (blinded_input ` entries)"
  shows "inj_on (blinded_key H s) entries"
proof -
  have "blinded_key H s = hl_keyed H s \<circ> blinded_input" by (simp add: fun_eq_iff blinded_key_input)
  then show ?thesis
    using assms inj_blinded_input by (simp add: comp_inj_on inj_on_subset [OF inj_blinded_input])
qed

lemma unat_asset_part_key:
  "unat (asset_part_key H s asset part) = unat (asset_prefix H s asset) * 2 ^ 64 + unat part"
proof -
  let ?p = "unat (asset_prefix H s asset)"
  have p: "?p < 2 ^ 192" using unsigned_less [of "asset_prefix H s asset"] by simp
  have q: "unat part < 2 ^ 64" using unsigned_less [of part] by simp
  have small: "?p * 2 ^ 64 + unat part < 2 ^ LENGTH(256)" using p q by simp
  have key: "asset_part_key H s asset part = of_nat (?p * 2 ^ 64 + unat part)"
    by (simp add: asset_part_key_def push_bit_eq_mult unsigned_ucast_eq)
  show ?thesis unfolding key unat_of_nat by (rule mod_less) (rule small)
qed

text \<open>
  The segment keys of one asset sort in segment order and the index can be read off the key, so
  that one asset's segments are a contiguous range of keys; keys of assets with different prefixes
  are never equal.
\<close>

theorem asset_part_keys_ordered:
  "(asset_part_key H s asset i < asset_part_key H s asset j \<longleftrightarrow> i < j)
   \<and> (asset_part_key H s asset i = asset_part_key H s asset j \<longleftrightarrow> i = j)
   \<and> (asset_prefix H s asset < asset_prefix H s other
        \<longrightarrow> asset_part_key H s asset i < asset_part_key H s other j)"
proof -
  have "asset_part_key H s asset i < asset_part_key H s other j"
    if "asset_prefix H s asset < asset_prefix H s other"
  proof -
    have "unat (asset_prefix H s asset) + 1 \<le> unat (asset_prefix H s other)"
      using that by (simp add: word_less_nat_alt)
    then have "(unat (asset_prefix H s asset) + 1) * 2 ^ 64 \<le> unat (asset_prefix H s other) * 2 ^ 64"
      by (rule mult_le_mono1)
    moreover have "unat i < 2 ^ 64" using unsigned_less [of i] by simp
    ultimately show ?thesis by (simp add: word_less_nat_alt unat_asset_part_key)
  qed
  then show ?thesis by (simp add: word_less_nat_alt unat_asset_part_key word_unat_eq_iff)
qed

text \<open>Two members of one workspace, or one member of two, never have the same author seed.\<close>

theorem author_seeds_distinct:
  assumes "inj_on (hl_derive H AUTHOR_SEED_CONTEXT) ((\<lambda>(s, m). be_bytes 32 s @ be_bytes 32 m) ` members)"
  shows "inj_on (\<lambda>(s, m). author_seed H s m) members"
proof -
  have "inj (\<lambda>(s :: bytes32, m :: bytes32). be_bytes 32 s @ be_bytes 32 m)"
    by (auto intro!: injI intro: be_bytes_inj [of 32])
  moreover have "(\<lambda>(s, m). author_seed H s m)
      = hl_derive H AUTHOR_SEED_CONTEXT \<circ> (\<lambda>(s, m). be_bytes 32 s @ be_bytes 32 m)"
    by (auto simp: fun_eq_iff author_seed_def)
  ultimately show ?thesis using assms by (simp add: comp_inj_on inj_on_subset)
qed

section \<open>A hash to compute with\<close>

definition demo_hash :: hash_lib where
  "demo_hash = (let h = foldl (\<lambda>a b. a * 257 + ucast b) 0 in
     \<lparr>hl_hash = h, hl_keyed = (\<lambda>k m. k + h m), hl_derive = (\<lambda>_. h)\<rparr>)"

lemma inj_on_list: "distinct (map f xs) \<Longrightarrow> inj_on f (set xs)"
  by (simp add: distinct_map)

theorem blinded_keys_distinct_witness:
  "inj_on (blinded_key demo_hash 5) {ManifestEntry, DocumentEntry 1, AssetKeyEntry 1}"
proof (rule blinded_keys_distinct)
  have "distinct (map (hl_keyed demo_hash 5) (map blinded_input [ManifestEntry, DocumentEntry 1, AssetKeyEntry 1]))"
    by code_simp
  from inj_on_list [OF this]
  show "inj_on (hl_keyed demo_hash 5) (blinded_input ` {ManifestEntry, DocumentEntry 1, AssetKeyEntry 1})"
    by simp
qed

theorem author_seeds_distinct_witness:
  "inj_on (\<lambda>(s, m). author_seed demo_hash s m) {(1, 2), (1, 3), (4, 2)}"
proof (rule author_seeds_distinct)
  have "distinct (map (hl_derive demo_hash AUTHOR_SEED_CONTEXT)
      (map (\<lambda>(s :: bytes32, m :: bytes32). be_bytes 32 s @ be_bytes 32 m) [(1, 2), (1, 3), (4, 2)]))"
    by code_simp
  from inj_on_list [OF this]
  show "inj_on (hl_derive demo_hash AUTHOR_SEED_CONTEXT)
      ((\<lambda>(s :: bytes32, m :: bytes32). be_bytes 32 s @ be_bytes 32 m) ` {(1, 2), (1, 3), (4, 2)})"
    by simp
qed

theorem asset_part_keys_ordered_witness: "asset_part_key demo_hash 5 1 0 < asset_part_key demo_hash 5 1 1"
  using asset_part_keys_ordered [of demo_hash 5 1 0 1 1] by simp

end
