(* ===== verification/Asset.thy ===== *)
theory Asset
  imports Core_Error Blinding
begin

text \<open>
  Large binary assets (\<open>asset.rs\<close>): segmentation, padding, and the authenticated encryption of one
  segment. XChaCha20-Poly1305 is a parameter. \<open>usize\<close> is 64 bits wide, as on the platforms the
  crate targets, so \<open>usize::try_from\<close> of a \<open>u64\<close> succeeds.
\<close>

definition ASSET_SEGMENT_BYTES :: nat where
  "ASSET_SEGMENT_BYTES = 4 * 1024 * 1024"

definition ASSET_NONCE_CONTEXT :: string where
  "ASSET_NONCE_CONTEXT = ''iroh-beekem/asset-nonce/v1''"

definition ASSET_CONTENT_CONTEXT :: string where
  "ASSET_CONTENT_CONTEXT = ''iroh-beekem/asset-content/v1''"

record asset_meta =
  am_size :: u64
  am_segments :: u64
  am_segment_bytes :: u32
  am_content_hash :: bytes32

definition segments_for :: "u64 \<Rightarrow> u32 \<Rightarrow> u64" where
  "segments_for sz segment_bytes =
     (let per = ucast segment_bytes :: u64 in
      if per = 0 then 1
      else let full = sz div per in
           if sz mod per = 0 then max full 1 else full + 1)"

text \<open>\<open>saturating_mul\<close> and \<open>saturating_sub\<close> on \<open>u64\<close>\<close>

definition sat_mul :: "'w::len word \<Rightarrow> 'w word \<Rightarrow> 'w word" where
  "sat_mul a b = (if unat a * unat b < 2 ^ LENGTH('w) then a * b else - 1)"

definition sat_sub :: "'w::len word \<Rightarrow> 'w word \<Rightarrow> 'w word" where
  "sat_sub a b = (if b \<le> a then a - b else 0)"

definition payload_len :: "asset_meta \<Rightarrow> u64 \<Rightarrow> nat" where
  "payload_len m index =
     (let per = ucast (am_segment_bytes m) :: u64;
          start = sat_mul index per;
          remaining = sat_sub (am_size m) start
      in unat (min remaining per))"

datatype segment_verdict = Plaintext bytes | AwaitingKey | Unreachable | Corrupt

section \<open>One segment\<close>

text \<open>
  \<open>ae_seal\<close> is \<open>encrypt_in_place_detached\<close>, the ciphertext and the tag; \<open>ae_open\<close> is
  \<open>decrypt_in_place_detached\<close>.
\<close>

record aead_lib =
  ae_seal :: "bytes32 \<Rightarrow> bytes24 \<Rightarrow> bytes \<Rightarrow> bytes \<Rightarrow> (bytes \<times> bytes) option"
  ae_open :: "bytes32 \<Rightarrow> bytes24 \<Rightarrow> bytes \<Rightarrow> bytes \<Rightarrow> bytes \<Rightarrow> bytes option"

definition segment_nonce :: "hash_lib \<Rightarrow> document_uuid \<Rightarrow> u64 \<Rightarrow> bytes24" where
  "segment_nonce H uuid index =
     ucast (drop_bit 64 (hl_derive H ASSET_NONCE_CONTEXT (be_bytes 16 uuid @ be_bytes 8 index)))"

definition segment_aad :: "document_uuid \<Rightarrow> u64 \<Rightarrow> u64 \<Rightarrow> u32 \<Rightarrow> bytes" where
  "segment_aad uuid index segments segment_bytes =
     be_bytes 16 uuid @ be_bytes 8 index @ be_bytes 8 segments @ be_bytes 4 segment_bytes"

definition seal_segment ::
  "hash_lib \<Rightarrow> aead_lib \<Rightarrow> bytes32 \<Rightarrow> document_uuid \<Rightarrow> u64 \<Rightarrow> u64 \<Rightarrow> u32 \<Rightarrow> bytes \<Rightarrow> bytes core_result" where
  "seal_segment H A key uuid index segments segment_bytes plaintext =
     (let width = unat segment_bytes in
      if width < length plaintext
      then Inl (MalformedSegment ''a segment carries at most its width in bytes'')
      else let buffer = plaintext @ replicate (width - length plaintext) 0 in
        case ae_seal A key (segment_nonce H uuid index) (segment_aad uuid index segments segment_bytes) buffer of
          None \<Rightarrow> Inl Aead
        | Some (sealed, tag) \<Rightarrow> Inr (sealed @ tag))"

definition open_segment ::
  "hash_lib \<Rightarrow> aead_lib \<Rightarrow> bytes32 \<Rightarrow> document_uuid \<Rightarrow> u64 \<Rightarrow> u64 \<Rightarrow> u32 \<Rightarrow> nat \<Rightarrow> bytes \<Rightarrow> bytes core_result" where
  "open_segment H A key uuid index segments segment_bytes payload sealed =
     (if length sealed < 16 then Inl (MalformedSegment ''shorter than its authentication tag'')
      else let split = length sealed - 16 in
        case ae_open A key (segment_nonce H uuid index) (segment_aad uuid index segments segment_bytes)
               (take split sealed) (drop split sealed) of
          None \<Rightarrow> Inl Aead
        | Some opened \<Rightarrow> Inr (take (min payload (length opened)) opened))"

section \<open>The running digest of an asset\<close>

text \<open>
  \<open>blake3::Hasher\<close> is a parameter: \<open>hs_start\<close> is \<open>new_derive_key\<close> at the asset context,
  then \<open>update\<close> and \<open>finalize\<close>. A default-constructed digest has no hasher.
\<close>

record 'h hasher =
  hs_start :: "string \<Rightarrow> 'h"
  hs_update :: "'h \<Rightarrow> bytes \<Rightarrow> 'h"
  hs_finalize :: "'h \<Rightarrow> bytes32"

type_synonym 'h content_digest = "'h option"

definition content_digest_new :: "'h hasher \<Rightarrow> 'h content_digest" where
  "content_digest_new K = Some (hs_start K ASSET_CONTENT_CONTEXT)"

definition content_digest_update :: "'h hasher \<Rightarrow> bytes \<Rightarrow> 'h content_digest \<Rightarrow> 'h content_digest" where
  "content_digest_update K bs d = (case d of Some h \<Rightarrow> Some (hs_update K h bs) | None \<Rightarrow> None)"

definition content_digest_finish :: "'h hasher \<Rightarrow> 'h content_digest \<Rightarrow> bytes32" where
  "content_digest_finish K d = (case d of
     None \<Rightarrow> hs_finalize K (hs_start K ASSET_CONTENT_CONTEXT) | Some h \<Rightarrow> hs_finalize K h)"

definition content_digest_new_over :: "'h hasher \<Rightarrow> bytes \<Rightarrow> bytes32" where
  "content_digest_new_over K bs =
     content_digest_finish K (content_digest_update K bs (content_digest_new K))"

section \<open>Segmentation\<close>

lemma unat_ucast_u32: "unat (ucast (w :: u32) :: u64) = unat w"
proof -
  have "unat w < 2 ^ 64" using unsigned_less [of w, where 'a = nat] by simp
  then show ?thesis by (simp add: unsigned_ucast_eq take_bit_nat_eq_self)
qed

lemma unat_segments_for:
  assumes "b \<noteq> 0"
  shows "unat (segments_for sz b)
    = max 1 (unat sz div unat b + (if unat sz mod unat b = 0 then 0 else 1))"
proof -
  let ?per = "ucast b :: u64"
  have per: "unat ?per = unat b" by (rule unat_ucast_u32)
  then have nz: "?per \<noteq> 0" using assms by (metis unat_eq_zero)
  have "unat (sz div ?per + 1) = unat sz div unat b + 1" if "unat sz mod unat b \<noteq> 0"
  proof -
    have "unat b \<noteq> 1" using that by auto
    then have "2 \<le> unat b" using assms by (metis One_nat_def less_2_cases not_less unat_eq_zero)
    then have "unat sz div unat b \<le> unat sz div 2" by (rule div_le_mono2 [rotated]) simp
    moreover have "unat sz < 2 ^ 64" using unsigned_less [of sz] by simp
    ultimately have "unat (sz div ?per) + unat (1 :: u64) < 2 ^ LENGTH(64)"
      by (simp add: unat_div per)
    from unat_add_lem [THEN iffD1, OF this] show ?thesis by (simp add: unat_div per)
  qed
  moreover have "sz mod ?per = 0 \<longleftrightarrow> unat sz mod unat b = 0"
    by (simp add: unat_mod per flip: unat_eq_zero)
  ultimately show ?thesis
    using nz by (simp add: segments_for_def Let_def max_def word_le_nat_alt unat_div per)
qed

lemma payload_len_eq:
  "payload_len m i = min (unat (am_size m) - unat i * unat (am_segment_bytes m)) (unat (am_segment_bytes m))"
proof -
  let ?per = "ucast (am_segment_bytes m) :: u64"
  have sub: "unat (sat_sub a b) = unat a - unat b" for a b :: u64
    by (auto simp: sat_sub_def unat_sub word_le_nat_alt)
  have "unat (am_size m) < 2 ^ 64" using unsigned_less [of "am_size m"] by simp
  moreover have "unat (sat_mul i ?per) = (if unat i * unat ?per < 2 ^ 64 then unat i * unat ?per else 2 ^ 64 - 1)"
    using unat_mult_lem [of i ?per] by (auto simp: sat_mul_def unsigned_minus_1_eq_mask mask_eq_exp_minus_1)
  ultimately have "unat (sat_sub (am_size m) (sat_mul i ?per)) = unat (am_size m) - unat i * unat ?per"
    by (simp add: sub)
  then show ?thesis
    by (simp add: payload_len_def Let_def min_def word_le_nat_alt unat_ucast_u32)
qed

text \<open>Cutting \<open>n\<close> bytes into pieces of \<open>p\<close>, the last one short.\<close>

lemma sum_pieces: "(\<Sum>i < k. min (n - i * p) p) = min n (k * p)" for n p :: nat
  by (induction k) (auto simp: min_def)

lemma pieces_cover:
  fixes n p :: nat
  assumes "0 < p"
  shows "n \<le> max 1 (n div p + (if n mod p = 0 then 0 else 1)) * p"
proof -
  have "n = n div p * p + n mod p" by simp
  also have "\<dots> \<le> n div p * p + (if n mod p = 0 then 0 else 1) * p"
    using mod_less_divisor [OF assms, of n] by (intro add_left_mono) simp
  also have "\<dots> = (n div p + (if n mod p = 0 then 0 else 1)) * p" by (simp only: add_mult_distrib)
  also have "\<dots> \<le> max 1 (n div p + (if n mod p = 0 then 0 else 1)) * p" by (rule mult_le_mono1) simp
  finally show ?thesis .
qed

text \<open>
  C38. The segments of an asset carry exactly its bytes: there is at least one, none carries more than
  the segment width, and the payload lengths of all of them add up to the size.
\<close>

theorem segments_cover_asset:
  assumes "am_segment_bytes m \<noteq> 0" and "am_segments m = segments_for (am_size m) (am_segment_bytes m)"
  shows "1 \<le> am_segments m \<and> (\<forall>i. payload_len m i \<le> unat (am_segment_bytes m))
    \<and> (\<Sum>i < unat (am_segments m). payload_len m (of_nat i)) = unat (am_size m)"
proof -
  let ?p = "unat (am_segment_bytes m)" and ?n = "unat (am_size m)" and ?k = "unat (am_segments m)"
  have k: "?k = max 1 (?n div ?p + (if ?n mod ?p = 0 then 0 else 1))"
    using unat_segments_for [OF assms(1)] assms(2) by simp
  have "0 < ?p" using assms(1) by (simp add: unat_gt_0)
  then have cover: "?n \<le> ?k * ?p" unfolding k by (rule pieces_cover)
  have "(\<Sum>i < ?k. payload_len m (of_nat i)) = (\<Sum>i < ?k. min (?n - i * ?p) ?p)"
  proof (rule sum.cong)
    fix i assume "i \<in> {..<?k}"
    then have "unat (of_nat i :: u64) = i"
      using unsigned_less [of "am_segments m", where 'a = nat] by (simp add: unat_of_nat)
    then show "payload_len m (of_nat i) = min (?n - i * ?p) ?p" by (simp add: payload_len_eq)
  qed simp
  then show ?thesis using cover k by (simp add: sum_pieces word_le_nat_alt payload_len_eq)
qed

text \<open>
  A segment's authenticated data determine the asset, the index, the segment count and the width
  it was sealed with: no two positions share them.
\<close>

theorem segment_aad_injective:
  "segment_aad u i n b = segment_aad u' i' n' b' \<longleftrightarrow> u = u' \<and> i = i' \<and> n = n' \<and> b = b'"
  unfolding segment_aad_def
  by (auto intro: be_bytes_inj [of 16] be_bytes_inj [of 8] be_bytes_inj [of 4])

text \<open>What the cipher promises: a detached 16-byte tag, no expansion, and decryption inverts.\<close>

definition aead_correct :: "aead_lib \<Rightarrow> bool" where
  "aead_correct A \<longleftrightarrow> (\<forall>k n a p c t. ae_seal A k n a p = Some (c, t) \<longrightarrow>
     length t = 16 \<and> length c = length p \<and> ae_open A k n a c t = Some p)"

text \<open>
  Every sealed segment has the same length whatever it carries, and opening it at the position it
  was sealed for, with its payload length, gives back the plaintext without the padding.
\<close>

lemma open_sealed_segment:
  assumes "aead_correct A" and "seal_segment H A key uuid i n b plaintext = Inr sealed"
  shows "length sealed = unat b + 16 \<and> open_segment H A key uuid i n b (length plaintext) sealed = Inr plaintext"
  using assms
  by (auto simp: seal_segment_def open_segment_def aead_correct_def Let_def split: if_splits option.splits)

section \<open>Concrete segments\<close>

definition demo_aead :: aead_lib where
  "demo_aead = \<lparr>ae_seal = (\<lambda>k n a p. Some (p, replicate 16 0)), ae_open = (\<lambda>k n a c t. Some c)\<rparr>"

theorem segments_cover_asset_witness:
  "(\<Sum>i < unat (4 :: u64). payload_len \<lparr>am_size = 10, am_segments = 4, am_segment_bytes = 3, am_content_hash = 0\<rparr> (of_nat i)) = 10"
  using segments_cover_asset [of "\<lparr>am_size = 10, am_segments = 4, am_segment_bytes = 3, am_content_hash = 0\<rparr>"]
  by (simp add: segments_for_def)

end
