(* ===== verification/Keys.thy ===== *)
theory Keys
  imports Capability_Store Blinding
begin

text \<open>
  The key controller (\<open>keys.rs\<close>, the CGKA half of \<open>snapshot.rs\<close>, \<open>content.rs\<close>): one
  device's view of the group key agreement, the members it knows, the operations it has parked and
  the certificates it judges them by.

  \<open>beekem\<close> is not part of this repository. What the controller calls of it is the record
  \<open>beekem\<close> of functions, over a type \<open>'c\<close> of \<open>Cgka\<close> states and a type \<open>'r\<close> of random
  generators. An \<open>async\<close> call polled once (\<open>now_or_never\<close>, \<open>sync_poll.rs\<close>) is a function to an
  option, \<open>None\<close> when the future did not complete. A call on \<open>&mut\<close> returns the new state also when
  it fails. \<open>MemberId\<close>, \<open>TreeId\<close>, \<open>ShareKey\<close>, \<open>ShareSecretKey\<close>, \<open>MemorySigner\<close>
  and digests are their 32 bytes.
\<close>

section \<open>Operations and chunks\<close>

text \<open>\<open>CgkaOperation\<close>: the fields this crate reads, and the rest as bytes.\<close>

datatype cgka_operation =
    Add (added_id: bytes32) (added_pk: bytes32) (add_predecessors: "bytes32 list") (op_rest: bytes)
  | Remove (removed_id: bytes32) (op_rest: bytes)
  | Update (updated_id: bytes32) (op_rest: bytes)

type_synonym control_op = "cgka_operation signed"
type_synonym chunk_ref = bytes32

text \<open>\<open>EncryptedContent<CrdtChunk, ChunkRef>\<close>\<close>

record chunk =
  ch_ciphertext :: bytes
  ch_nonce :: bytes24
  ch_content_ref :: chunk_ref
  ch_pred_refs :: "chunk_ref list"
  ch_pcs_key_hash :: bytes32
  ch_pcs_update_op_hash :: bytes32

type_synonym epoch_id = bytes32

definition epoch_of :: "chunk \<Rightarrow> epoch_id" where
  "epoch_of c = ch_pcs_key_hash c"

record ('c, 'r) beekem =
  bk_new :: "bytes32 \<Rightarrow> bytes32 \<Rightarrow> bytes32 \<Rightarrow> bytes32 \<Rightarrow> (cgka_error + 'c) option"
  bk_owner_sks :: "'c \<Rightarrow> bytes32 \<rightharpoonup> bytes32"
  bk_set_owner_sks :: "(bytes32 \<rightharpoonup> bytes32) \<Rightarrow> 'c \<Rightarrow> 'c"
  bk_new_from_init_add :: "bytes32 \<Rightarrow> bytes32 \<Rightarrow> bytes32 \<Rightarrow> control_op \<Rightarrow> cgka_error + 'c"
  bk_with_new_owner :: "bytes32 \<Rightarrow> (bytes32 \<rightharpoonup> bytes32) \<Rightarrow> 'c \<Rightarrow> cgka_error + 'c"
  bk_add :: "bytes32 \<Rightarrow> bytes32 \<Rightarrow> bytes32 \<Rightarrow> 'c \<Rightarrow> 'c \<times> (cgka_error + control_op option) option"
  bk_remove :: "bytes32 \<Rightarrow> bytes32 \<Rightarrow> 'c \<Rightarrow> 'c \<times> (cgka_error + control_op option) option"
  bk_update :: "bytes32 \<Rightarrow> bytes32 \<Rightarrow> bytes32 \<Rightarrow> 'r \<Rightarrow> 'c \<Rightarrow> 'r \<times> 'c \<times> (cgka_error + control_op) option"
  bk_new_app_secret_for :: "chunk_ref \<Rightarrow> bytes \<Rightarrow> chunk_ref list \<Rightarrow> bytes32 \<Rightarrow> 'r \<Rightarrow> 'c
     \<Rightarrow> 'r \<times> 'c \<times> (cgka_error + bytes \<times> control_op option) option"
  bk_try_encrypt :: "bytes \<Rightarrow> bytes \<Rightarrow> chunk option"
  bk_decryption_key_for :: "chunk \<Rightarrow> 'c \<Rightarrow> 'c \<times> (cgka_error + bytes)"
  bk_try_decrypt :: "bytes \<Rightarrow> chunk \<Rightarrow> bytes option"
  bk_contains_predecessors :: "bytes32 set \<Rightarrow> 'c \<Rightarrow> bool"
  bk_merge_concurrent_operation :: "control_op \<Rightarrow> 'c \<Rightarrow> 'c \<times> (cgka_error + bool)"
  bk_ops :: "'c \<Rightarrow> cgka_error + control_op list list"
  bk_init_add_op :: "'c \<Rightarrow> control_op"
  bk_group_size :: "'c \<Rightarrow> u32"
  bk_doc_id :: "cgka_operation \<Rightarrow> bytes32"
  bk_predecessors :: "cgka_operation \<Rightarrow> bytes32 set"
  bk_verify :: "control_op \<Rightarrow> bool"
  bk_share_key :: "bytes32 \<Rightarrow> bytes32"
  bk_gen_share_secret :: "'r \<Rightarrow> 'r \<times> bytes32"

text \<open>\<open>now_or_never(fut).ok_or(CoreError::SignerYielded)??\<close>\<close>

definition polled :: "(cgka_error + 'a) option \<Rightarrow> 'a core_result" where
  "polled r = (case r of None \<Rightarrow> Inl SignerYielded | Some (Inl e) \<Rightarrow> Inl (Cgka e) | Some (Inr x) \<Rightarrow> Inr x)"

definition chunk_ref_of :: "hash_lib \<Rightarrow> bytes \<Rightarrow> chunk_ref" where
  "chunk_ref_of H plaintext = hl_hash H plaintext"

record authorized_op =
  ao_op :: control_op
  ao_proof :: "certificate list"

definition authorized_op_new :: "control_op \<Rightarrow> certificate list \<Rightarrow> authorized_op" where
  "authorized_op_new op prf = \<lparr>ao_op = op, ao_proof = prf\<rparr>"

definition bare :: "control_op \<Rightarrow> authorized_op" where
  "bare op = \<lparr>ao_op = op, ao_proof = []\<rparr>"

definition MAX_PARKED_OPS :: nat where
  "MAX_PARKED_OPS = 1024"

datatype decrypt_outcome = DPlaintext bytes | DAwaitingOp | DUnreachable

datatype merge_outcome = Applied | Duplicate | Deferred

section \<open>The controller\<close>

text \<open>\<open>k_rng\<close> is the \<open>csprng\<close> argument that every caller passes along, threaded with the state.\<close>

record ('c, 'r) controller =
  k_cgka :: 'c
  k_signer :: bytes32
  k_member_id :: bytes32
  k_share_secret :: bytes32
  k_share_key :: bytes32
  k_known_members :: "bytes32 set"
  k_current_members :: "bytes32 set"
  k_certs :: capability_store
  k_parked :: "authorized_op list"
  k_evicted_ops :: u64
  k_rng :: 'r

definition controller_create ::
  "('c, 'r) beekem \<Rightarrow> cert_crypto \<Rightarrow> bytes32 \<Rightarrow> bytes32 \<Rightarrow> 'r \<Rightarrow> ('c, 'r) controller core_result" where
  "controller_create B X tree_id signer csprng =
     (let member_id = cc_verifying_key X signer;
          (csprng', share_secret) = bk_gen_share_secret B csprng;
          share_key = bk_share_key B share_secret
      in case polled (bk_new B tree_id member_id share_key signer) of
           Inl e \<Rightarrow> Inl e
         | Inr cgka \<Rightarrow> Inr
             \<lparr>k_cgka = bk_set_owner_sks B ((bk_owner_sks B cgka)(share_key \<mapsto> share_secret)) cgka,
              k_signer = signer, k_member_id = member_id, k_share_secret = share_secret,
              k_share_key = share_key, k_known_members = {member_id}, k_current_members = {member_id},
              k_certs = capability_store_new member_id, k_parked = [], k_evicted_ops = 0,
              k_rng = csprng'\<rparr>)"

definition tree_id :: "('c, 'r) beekem \<Rightarrow> ('c, 'r) controller \<Rightarrow> bytes32" where
  "tree_id B K = bk_doc_id B (sg_payload (bk_init_add_op B (k_cgka K)))"

definition group_size :: "('c, 'r) beekem \<Rightarrow> ('c, 'r) controller \<Rightarrow> u32" where
  "group_size B K = bk_group_size B (k_cgka K)"

definition op_log :: "('c, 'r) beekem \<Rightarrow> ('c, 'r) controller \<Rightarrow> control_op list core_result" where
  "op_log B K = (case bk_ops B (k_cgka K) of Inl e \<Rightarrow> Inl (Cgka e) | Inr epochs \<Rightarrow> Inr (concat epochs))"

definition parked_len :: "('c, 'r) controller \<Rightarrow> nat" where
  "parked_len K = length (k_parked K)"

definition park :: "authorized_op \<Rightarrow> ('c, 'r) controller \<Rightarrow> ('c, 'r) controller" where
  "park op K =
     (let K' = (if MAX_PARKED_OPS \<le> length (k_parked K)
                then K\<lparr>k_parked := tl (k_parked K), k_evicted_ops := k_evicted_ops K + 1\<rparr> else K)
      in K'\<lparr>k_parked := k_parked K' @ [op]\<rparr>)"

definition is_known_member :: "('c, 'r) controller \<Rightarrow> bytes32 \<Rightarrow> bool" where
  "is_known_member K m \<longleftrightarrow> m \<in> k_known_members K"

definition is_current_member :: "('c, 'r) controller \<Rightarrow> bytes32 \<Rightarrow> bool" where
  "is_current_member K m \<longleftrightarrow> m \<in> k_current_members K"

definition absorb_certificates ::
  "cert_crypto \<Rightarrow> certificate list \<Rightarrow> ('c, 'r) controller \<Rightarrow> ('c, 'r) controller \<times> nat" where
  "absorb_certificates X certs K =
     (let (S, added) = store_extend X certs (k_certs K) in (K\<lparr>k_certs := S\<rparr>, added))"

subsection \<open>Minting certificates\<close>

text \<open>Sign, insert into the local store, hand the certificate back.\<close>

definition certify ::
  "cert_crypto \<Rightarrow> certificate core_result \<Rightarrow> ('c, 'r) controller \<Rightarrow> (('c, 'r) controller, core_error, certificate) step" where
  "certify X minted K =
     (case minted of Inl e \<Rightarrow> (K, Inl e)
      | Inr cert \<Rightarrow> (case store_insert X cert (k_certs K) of
            (S, Inl e) \<Rightarrow> (K\<lparr>k_certs := S\<rparr>, Inl e)
          | (S, Inr _) \<Rightarrow> (K\<lparr>k_certs := S\<rparr>, Inr cert)))"

definition certify_device ::
  "cert_crypto \<Rightarrow> bytes32 \<Rightarrow> bytes32 \<Rightarrow> bytes16 \<Rightarrow> ('c, 'r) controller \<Rightarrow> (('c, 'r) controller, core_error, certificate) step" where
  "certify_device X device user nonce K =
     certify X (device_binding_sign X (device_binding_new device user nonce) (k_signer K)) K"

definition certify_role ::
  "cert_crypto \<Rightarrow> bytes32 \<Rightarrow> role \<Rightarrow> bytes16 \<Rightarrow> ('c, 'r) controller \<Rightarrow> (('c, 'r) controller, core_error, certificate) step" where
  "certify_role X user capability nonce K =
     certify X (grant_sign X (grant_new user capability (next_seq (k_certs K) user) None nonce) (k_signer K)) K"

definition certify_proposal ::
  "cert_crypto \<Rightarrow> admin_action \<Rightarrow> u64 \<Rightarrow> u64 option \<Rightarrow> bytes16 \<Rightarrow> ('c, 'r) controller
     \<Rightarrow> (('c, 'r) controller, core_error, certificate) step" where
  "certify_proposal X action sq expires nonce K =
     certify X (admin_proposal_sign X (admin_proposal_new action sq expires nonce) (k_signer K)) K"

definition certify_approval ::
  "cert_crypto \<Rightarrow> bytes32 \<Rightarrow> bytes16 \<Rightarrow> ('c, 'r) controller \<Rightarrow> (('c, 'r) controller, core_error, certificate) step" where
  "certify_approval X proposal nonce K =
     certify X (approval_sign X (approval_new proposal nonce) (k_signer K)) K"

definition certify_policy ::
  "cert_crypto \<Rightarrow> u32 \<Rightarrow> bytes16 \<Rightarrow> ('c, 'r) controller \<Rightarrow> (('c, 'r) controller, core_error, certificate) step" where
  "certify_policy X threshold nonce K =
     certify X (policy_sign X (policy_new threshold nonce) (k_signer K)) K"

subsection \<open>Changing the tree\<close>

definition add_member ::
  "('c, 'r) beekem \<Rightarrow> bytes32 \<Rightarrow> bytes32 \<Rightarrow> ('c, 'r) controller
     \<Rightarrow> (('c, 'r) controller, core_error, control_op option) step" where
  "add_member B m share_key K =
     (let (cgka, r) = bk_add B m share_key (k_signer K) (k_cgka K); K1 = K\<lparr>k_cgka := cgka\<rparr>
      in case polled r of
           Inl e \<Rightarrow> (K1, Inl e)
         | Inr op \<Rightarrow>
             ((if op \<noteq> None then K1\<lparr>k_known_members := insert m (k_known_members K1),
                                  k_current_members := insert m (k_current_members K1)\<rparr> else K1),
              Inr op))"

definition remove_member ::
  "('c, 'r) beekem \<Rightarrow> bytes32 \<Rightarrow> ('c, 'r) controller \<Rightarrow> (('c, 'r) controller, core_error, control_op option) step" where
  "remove_member B m K =
     (let (cgka, r) = bk_remove B m (k_signer K) (k_cgka K); K1 = K\<lparr>k_cgka := cgka\<rparr>
      in case polled r of
           Inl e \<Rightarrow> (K1, Inl e)
         | Inr op \<Rightarrow>
             ((if op \<noteq> None then K1\<lparr>k_current_members := k_current_members K1 - {m}\<rparr> else K1), Inr op))"

definition rotate_key :: "('c, 'r) beekem \<Rightarrow> ('c, 'r) controller \<Rightarrow> (('c, 'r) controller, core_error, control_op) step" where
  "rotate_key B K =
     (let (rng1, new_secret) = bk_gen_share_secret B (k_rng K);
          new_key = bk_share_key B new_secret;
          (rng2, cgka, r) = bk_update B new_key new_secret (k_signer K) rng1 (k_cgka K);
          K1 = K\<lparr>k_rng := rng2, k_cgka := cgka\<rparr>
      in case polled r of
           Inl e \<Rightarrow> (K1, Inl e)
         | Inr op \<Rightarrow> (K1\<lparr>k_share_secret := new_secret, k_share_key := new_key\<rparr>, Inr op))"

definition encrypt ::
  "('c, 'r) beekem \<Rightarrow> hash_lib \<Rightarrow> bytes \<Rightarrow> chunk_ref list \<Rightarrow> ('c, 'r) controller
     \<Rightarrow> (('c, 'r) controller, core_error, chunk \<times> control_op option) step" where
  "encrypt B H plaintext pred_refs K =
     (let content_ref = chunk_ref_of H plaintext;
          (rng, cgka, r) = bk_new_app_secret_for B content_ref plaintext pred_refs (k_signer K) (k_rng K) (k_cgka K);
          K1 = K\<lparr>k_rng := rng, k_cgka := cgka\<rparr>
      in case polled r of
           Inl e \<Rightarrow> (K1, Inl e)
         | Inr (secret, op) \<Rightarrow>
             (case bk_try_encrypt B secret plaintext of
                None \<Rightarrow> (K1, Inl Aead)
              | Some ch \<Rightarrow> (K1, Inr (ch, op))))"

definition encrypt_fresh ::
  "('c, 'r) beekem \<Rightarrow> hash_lib \<Rightarrow> bytes \<Rightarrow> chunk_ref list \<Rightarrow> ('c, 'r) controller
     \<Rightarrow> (('c, 'r) controller, core_error, chunk \<times> control_op list) step" where
  "encrypt_fresh B H plaintext pred_refs K =
     and_then (rotate_key B K) (\<lambda>rotation K1.
       and_then (encrypt B H plaintext pred_refs K1) (\<lambda>(ch, implicit) K2.
         (K2, Inr (ch, rotation # (case implicit of None \<Rightarrow> [] | Some op \<Rightarrow> [op])))))"

definition decrypt ::
  "('c, 'r) beekem \<Rightarrow> chunk \<Rightarrow> ('c, 'r) controller \<Rightarrow> (('c, 'r) controller, core_error, decrypt_outcome) step" where
  "decrypt B ch K =
     (let (cgka, r) = bk_decryption_key_for B ch (k_cgka K); K1 = K\<lparr>k_cgka := cgka\<rparr>
      in case r of
           Inl _ \<Rightarrow> (K1, Inr (if bk_contains_predecessors B {ch_pcs_update_op_hash ch} (k_cgka K1)
                            then DUnreachable else DAwaitingOp))
         | Inr key \<Rightarrow> (case bk_try_decrypt B key ch of None \<Rightarrow> (K1, Inl Aead)
                       | Some p \<Rightarrow> (K1, Inr (DPlaintext p))))"

subsection \<open>Merging what others did\<close>

fun authorize :: "capability_store \<Rightarrow> cgka_operation \<Rightarrow> bytes32 \<Rightarrow> unit core_result" where
  "authorize S (Add added _ _ _) issuer =
     (case user_of S added of
        None \<Rightarrow> Inl (Uncertified issuer)
      | Some added_user \<Rightarrow> if may_bind_device_to S issuer added_user then Inr () else Inl (Uncertified issuer))"
| "authorize S (Remove target _) issuer =
     (let same_user = (case user_of S target of None \<Rightarrow> False | Some owner \<Rightarrow> user_of S issuer = Some owner) in
      if same_user then Inr ()
      else if \<not> may_administer S issuer then Inl (Uncertified issuer)
      else if cs_threshold S \<le> DEFAULT_THRESHOLD \<or> is_executed_action S (RemoveMember target) then Inr ()
      else Inl (Uncertified issuer))"
| "authorize S (Update _ _) issuer = Inr ()"

text \<open>What an applied operation does to the two member sets.\<close>

fun membership_change :: "cgka_operation \<Rightarrow> ('c, 'r) controller \<Rightarrow> ('c, 'r) controller" where
  "membership_change (Add added _ _ _) K =
     K\<lparr>k_known_members := insert added (k_known_members K), k_current_members := insert added (k_current_members K)\<rparr>"
| "membership_change (Remove removed _) K = K\<lparr>k_current_members := k_current_members K - {removed}\<rparr>"
| "membership_change (Update _ _) K = K"

definition merge_verified ::
  "('c, 'r) beekem \<Rightarrow> authorized_op \<Rightarrow> ('c, 'r) controller \<Rightarrow> (('c, 'r) controller, core_error, merge_outcome) step" where
  "merge_verified B authorized K =
     (let op = ao_op authorized; issuer = sg_issuer op in
      if \<not> bk_contains_predecessors B (bk_predecessors B (sg_payload op)) (k_cgka K)
      then (park authorized K, Inr Deferred)
      else if issuer \<notin> k_known_members K then (K, Inl (Unauthorized issuer))
      else case authorize (k_certs K) (sg_payload op) issuer of
          Inl e \<Rightarrow> (K, Inl e)
        | Inr _ \<Rightarrow>
            (case bk_merge_concurrent_operation B op (k_cgka K) of
               (cgka, Inr True) \<Rightarrow> (membership_change (sg_payload op) (K\<lparr>k_cgka := cgka\<rparr>), Inr Applied)
             | (cgka, Inr False) \<Rightarrow> (K\<lparr>k_cgka := cgka\<rparr>, Inr Duplicate)
             | (cgka, Inl OutOfOrderOperation) \<Rightarrow> (K\<lparr>k_cgka := cgka\<rparr>, Inr Deferred)
             | (cgka, Inl err) \<Rightarrow> (K\<lparr>k_cgka := cgka\<rparr>, Inl (Cgka err))))"

definition merge ::
  "('c, 'r) beekem \<Rightarrow> cert_crypto \<Rightarrow> authorized_op \<Rightarrow> ('c, 'r) controller
     \<Rightarrow> (('c, 'r) controller, core_error, merge_outcome) step" where
  "merge B X authorized K =
     (if \<not> bk_verify B (ao_op authorized) then (K, Inl BadSignature)
      else merge_verified B authorized (fst (absorb_certificates X (ao_proof authorized) K)))"

text \<open>One pass over the parked operations: \<open>total\<close> counts what applied, the first failure is kept.\<close>

definition pending_step ::
  "('c, 'r) beekem \<Rightarrow> authorized_op \<Rightarrow> ('c, 'r) controller \<times> nat \<times> core_error option
     \<Rightarrow> ('c, 'r) controller \<times> nat \<times> core_error option" where
  "pending_step B op = (\<lambda>(K, total, first_error).
     case merge_verified B op K of
       (K', Inr Applied) \<Rightarrow> (K', total + 1, first_error)
     | (K', Inr _) \<Rightarrow> (K', total, first_error)
     | (K', Inl (Unauthorized _)) \<Rightarrow> (K', total, first_error)
     | (K', Inl (Uncertified _)) \<Rightarrow> (K', total, first_error)
     | (K', Inl err) \<Rightarrow> (K', total, (case first_error of None \<Rightarrow> Some err | Some e \<Rightarrow> Some e)))"

definition pending_round ::
  "('c, 'r) beekem \<Rightarrow> ('c, 'r) controller \<times> nat \<times> core_error option
     \<Rightarrow> (('c, 'r) controller \<times> nat \<times> core_error option) \<times> bool" where
  "pending_round B = (\<lambda>(K, total, first_error).
     let st = fold (pending_step B) (k_parked K) (K\<lparr>k_parked := []\<rparr>, total, first_error)
     in (st, fst (snd st) \<noteq> total))"

definition pending_meas :: "('c, 'r) controller \<times> nat \<times> core_error option \<Rightarrow> nat" where
  "pending_meas = (\<lambda>(K, _, _). length (k_parked K))"

text \<open>An operation that applies is not parked again, so a round with progress shortens the queue.\<close>

lemma length_park: "length (k_parked (park op K)) \<le> Suc (length (k_parked K))"
  by (simp add: park_def Let_def)

lemma parked_membership_change [simp]: "k_parked (membership_change p K) = k_parked K"
  by (cases p) simp_all

lemma pending_step_length:
  "length (k_parked (fst (pending_step B op st))) + fst (snd (pending_step B op st))
     \<le> Suc (length (k_parked (fst st)) + fst (snd st)) \<and> fst (snd st) \<le> fst (snd (pending_step B op st))"
proof -
  obtain K total err where st: "st = (K, total, err)" by (metis surj_pair)
  obtain K' r where m: "merge_verified B op K = (K', r)" by fastforce
  have "length (k_parked K') \<le> (if r = Inr Deferred then Suc (length (k_parked K)) else length (k_parked K))"
    using m length_park [of op K]
    by (auto simp: merge_verified_def Let_def split: if_splits sum.splits prod.splits bool.splits cgka_error.splits)
  then show ?thesis
    by (auto simp: st m pending_step_def split: sum.splits merge_outcome.splits core_error.splits option.splits)
qed

lemma pending_fold_length:
  "length (k_parked (fst (fold (pending_step B) ops st))) + fst (snd (fold (pending_step B) ops st))
     \<le> length ops + length (k_parked (fst st)) + fst (snd st)
   \<and> fst (snd st) \<le> fst (snd (fold (pending_step B) ops st))"
proof (induction ops arbitrary: st)
  case (Cons op ops)
  from Cons [of "pending_step B op st"] pending_step_length [of B op st] show ?case by simp
qed simp

lemma pending_round_shrinks:
  assumes "pending_round B st = (st', True)"
  shows "pending_meas st' < pending_meas st"
proof -
  obtain K total err where st: "st = (K, total, err)" by (metis surj_pair)
  show ?thesis
    using assms pending_fold_length [of B "k_parked K" "(K\<lparr>k_parked := []\<rparr>, total, err)"]
    by (auto simp: st pending_round_def pending_meas_def Let_def split: prod.splits)
qed

function pending_loop ::
  "('c, 'r) beekem \<Rightarrow> ('c, 'r) controller \<times> nat \<times> core_error option
     \<Rightarrow> ('c, 'r) controller \<times> nat \<times> core_error option" where
  "pending_loop B st = (case pending_round B st of
     (st', progress) \<Rightarrow> if progress then pending_loop B st' else st')"
  by pat_completeness auto
termination
  by (relation "measure (\<lambda>(B, st). pending_meas st)") (auto dest: pending_round_shrinks [OF sym])

declare pending_loop.simps [simp del]

interpretation pending_settles: settling_loop "pending_round B" "pending_loop B" pending_meas for B
  by unfold_locales (rule pending_loop.simps, erule pending_round_shrinks)

definition merge_pending ::
  "('c, 'r) beekem \<Rightarrow> ('c, 'r) controller \<Rightarrow> (('c, 'r) controller, core_error, nat) step" where
  "merge_pending B K =
     (case pending_loop B (K, 0, None) of
        (K', applied, None) \<Rightarrow> (K', Inr applied)
      | (K', applied, Some err) \<Rightarrow> (K', Inl err))"

subsection \<open>Joining from an invite\<close>

text \<open>The body of the loop over the log after the founder's own \<open>Add\<close>.\<close>

definition join_step ::
  "('c, 'r) beekem \<Rightarrow> cert_crypto \<Rightarrow> control_op \<Rightarrow> bool \<Rightarrow> ('c, 'r) controller
     \<Rightarrow> (('c, 'r) controller, core_error, bool) step" where
  "join_step B X op invited K =
     (let own = (case sg_payload op of Add added pk _ _ \<Rightarrow> if added = k_member_id K then Some pk else None | _ \<Rightarrow> None);
          taken = (case own of
             None \<Rightarrow> (K, Inr invited)
           | Some pk \<Rightarrow>
               (case bk_with_new_owner B (k_member_id K) ((bk_owner_sks B (k_cgka K))(pk \<mapsto> k_share_secret K)) (k_cgka K) of
                  Inl e \<Rightarrow> (K, Inl (Cgka e))
                | Inr cgka \<Rightarrow> (K\<lparr>k_cgka := cgka\<rparr>, Inr True)))
      in and_then taken (\<lambda>invited' K1. and_then (merge B X (bare op) K1) (\<lambda>_ K2. (K2, Inr invited'))))"

fun join_ops ::
  "('c, 'r) beekem \<Rightarrow> cert_crypto \<Rightarrow> control_op list \<Rightarrow> bool \<Rightarrow> ('c, 'r) controller
     \<Rightarrow> (('c, 'r) controller, core_error, bool) step" where
  "join_ops B X [] invited K = (K, Inr invited)"
| "join_ops B X (op # ops) invited K = and_then (join_step B X op invited K) (join_ops B X ops)"

definition controller_join ::
  "('c, 'r) beekem \<Rightarrow> cert_crypto \<Rightarrow> bytes32 \<Rightarrow> bytes32 \<Rightarrow> bytes32 \<Rightarrow> control_op list \<Rightarrow> certificate list \<Rightarrow> 'r
     \<Rightarrow> ('c, 'r) controller core_result" where
  "controller_join B X tree signer share_secret ops certs csprng =
     (let m = cc_verifying_key X signer; share_key = bk_share_key B share_secret in
      case ops of
        [] \<Rightarrow> Inl MissingInitAdd
      | ini # rest \<Rightarrow>
        (case sg_payload ini of
           Add founder_id founder_pk preds _ \<Rightarrow>
             if preds \<noteq> [] then Inl MissingInitAdd
             else if \<not> bk_verify B ini then Inl BadSignature
             else if sg_issuer ini \<noteq> founder_id then Inl (Unauthorized (sg_issuer ini))
             else (case bk_new_from_init_add B tree founder_id founder_pk ini of
                 Inl e \<Rightarrow> Inl (Cgka e)
               | Inr cgka \<Rightarrow>
                   let K = \<lparr>k_cgka = cgka, k_signer = signer, k_member_id = m, k_share_secret = share_secret,
                            k_share_key = share_key, k_known_members = {founder_id},
                            k_current_members = {founder_id}, k_certs = capability_store_new founder_id,
                            k_parked = [], k_evicted_ops = 0, k_rng = csprng\<rparr>;
                       K0 = fst (absorb_certificates X certs K);
                       final = and_then (join_ops B X rest (founder_id = m) K0) (\<lambda>invited K1.
                         if \<not> invited then (K1, Inl NotInvited)
                         else and_then (merge_pending B K1) (\<lambda>_ K2.
                           if 0 < parked_len K2 then (K2, Inl (IncompleteLog (parked_len K2)))
                           else (K2, Inr ())))
                   in (case final of (K3, Inl e) \<Rightarrow> Inl e | (K3, Inr _) \<Rightarrow> Inr K3))
         | _ \<Rightarrow> Inl MissingInitAdd))"

subsection \<open>Snapshots\<close>

record 'c cgka_snapshot =
  sn_cgka :: 'c
  sn_signer :: bytes32
  sn_share_secret :: bytes32
  sn_known_members :: "bytes32 list"
  sn_current_members :: "bytes32 list"
  sn_founder :: bytes32
  sn_certificates :: "certificate list"
  sn_evicted_ops :: u64

text \<open>The iteration order of a \<open>HashSet\<close> is not specified; here it is the order of the keys.\<close>

definition controller_snapshot :: "('c, 'r) controller \<Rightarrow> 'c cgka_snapshot" where
  "controller_snapshot K =
     \<lparr>sn_cgka = k_cgka K, sn_signer = k_signer K, sn_share_secret = k_share_secret K,
      sn_known_members = sorted_list_of_set (k_known_members K),
      sn_current_members = sorted_list_of_set (k_current_members K),
      sn_founder = cs_founder (k_certs K), sn_certificates = certificates (k_certs K),
      sn_evicted_ops = k_evicted_ops K\<rparr>"

definition controller_from_snapshot ::
  "('c, 'r) beekem \<Rightarrow> cert_crypto \<Rightarrow> 'c cgka_snapshot \<Rightarrow> 'r \<Rightarrow> ('c, 'r) controller core_result" where
  "controller_from_snapshot B X sn csprng =
     (case collect_results (map (member_from_bytes X) (sn_known_members sn)) of
        Inl e \<Rightarrow> Inl e
      | Inr known \<Rightarrow>
        (case collect_results (map (member_from_bytes X) (sn_current_members sn)) of
           Inl e \<Rightarrow> Inl e
         | Inr current \<Rightarrow> Inr
             \<lparr>k_cgka = sn_cgka sn, k_signer = sn_signer sn, k_member_id = cc_verifying_key X (sn_signer sn),
              k_share_secret = sn_share_secret sn, k_share_key = bk_share_key B (sn_share_secret sn),
              k_known_members = set known, k_current_members = set current,
              k_certs = fst (store_extend X (sn_certificates sn) (capability_store_new (sn_founder sn))),
              k_parked = [], k_evicted_ops = sn_evicted_ops sn, k_rng = csprng\<rparr>))"

end
