(* ===== verification/Keys_Properties.thy ===== *)
theory Keys_Properties
  imports Keys
begin

text \<open>
  Correctness of the key controller: the member sets and the queue of parked operations, what a merge
  may change and when, the drain of the queue, joining, and the snapshot round trip.
\<close>

section \<open>What every operation keeps\<close>

definition members_wf :: "('c, 'r) controller \<Rightarrow> bool" where
  "members_wf K \<longleftrightarrow> finite (k_known_members K) \<and> k_current_members K \<subseteq> k_known_members K
     \<and> length (k_parked K) \<le> MAX_PARKED_OPS"

text \<open>
  \<open>evolves X K K'\<close>: the invariant is kept, nobody is forgotten, the identity of the device and of the
  workspace's founder stay, and the certificates advance.
\<close>

definition evolves :: "cert_crypto \<Rightarrow> ('c, 'r) controller \<Rightarrow> ('c, 'r) controller \<Rightarrow> bool" where
  "evolves X K K' \<longleftrightarrow> (members_wf K \<longrightarrow> members_wf K') \<and> k_known_members K \<subseteq> k_known_members K'
     \<and> k_member_id K' = k_member_id K \<and> k_signer K' = k_signer K \<and> certs_advance X (k_certs K) (k_certs K')"

lemma evolves_refl [simp]: "evolves X K K"
  by (simp add: evolves_def)

lemma evolves_trans: "evolves X K K' \<Longrightarrow> evolves X K' K'' \<Longrightarrow> evolves X K K''"
  by (auto simp: evolves_def intro: certs_advance_trans)

text \<open>Changing fields the invariant does not mention.\<close>

lemma evolves_fields [simp]:
  "evolves X K (K'\<lparr>k_cgka := c\<rparr>) = evolves X K K'" "evolves X K (K'\<lparr>k_rng := r\<rparr>) = evolves X K K'"
  "evolves X K (K'\<lparr>k_share_secret := s\<rparr>) = evolves X K K'" "evolves X K (K'\<lparr>k_share_key := s\<rparr>) = evolves X K K'"
  by (simp_all add: evolves_def members_wf_def)

lemma evolves_current:
  "evolves X K (K\<lparr>k_current_members := k_current_members K - A\<rparr>)"
  "evolves X K (K\<lparr>k_known_members := insert m (k_known_members K), k_current_members := insert m (k_current_members K)\<rparr>)"
  by (auto simp: evolves_def members_wf_def)

lemma founder_stageD: "stage X c S = (S', r) \<Longrightarrow> cs_founder S' = cs_founder S"
  by (metis founder_stage fst_conv)

lemma founder_extend: "cs_founder (fst (store_extend X cs S)) = cs_founder S"
proof -
  have "cs_founder (fst (fold (extend_step X) cs st)) = cs_founder (fst st)" for st
  proof (induction cs arbitrary: st)
    case (Cons c cs)
    moreover have "cs_founder (fst (extend_step X c st)) = cs_founder (fst st)"
      by (cases st; cases "stage X c (fst st)")
        (auto simp: extend_step_def dest: founder_stageD split: sum.splits bool.splits)
    ultimately show ?case by simp
  qed simp
  from this [of "(S, 0)"] show ?thesis by (auto simp: store_extend_def Let_def split: prod.splits)
qed

lemma founder_insert: "cs_founder (fst (store_insert X c S)) = cs_founder S"
  by (cases "stage X c S"; cases "snd (stage X c S)") (auto simp: store_insert_def dest: founder_stageD)

lemma evolves_certs: "certs_advance X (k_certs K) S \<Longrightarrow> evolves X K (K\<lparr>k_certs := S\<rparr>)"
  by (simp add: evolves_def members_wf_def)

lemma extend_advances: "certs_advance X S (fst (store_extend X cs S))"
  using store_extend_wf [of X S cs] by (simp add: certs_advance_def founder_extend)

lemma insert_advances: "certs_advance X S (fst (store_insert X c S))"
  using store_insert_advances [of X S c] by (simp add: certs_advance_def founder_insert)

lemma evolves_absorb: "evolves X K (fst (absorb_certificates X cs K))"
  using extend_advances [of X "k_certs K" cs]
  by (auto simp: absorb_certificates_def evolves_certs split: prod.splits)

lemma evolves_certify: "evolves X K (fst (certify X c K))"
proof (cases c)
  case (Inr cert)
  have "certs_advance X (k_certs K) (fst (store_insert X cert (k_certs K)))" by (rule insert_advances)
  then show ?thesis
    by (auto simp: certify_def Inr evolves_certs split: prod.splits sum.splits)
qed (simp add: certify_def)

lemma evolves_park: "evolves X K (park op K)"
proof -
  have "length (k_parked (park op K)) \<le> MAX_PARKED_OPS" if "length (k_parked K) \<le> MAX_PARKED_OPS"
    using that by (auto simp: park_def Let_def MAX_PARKED_OPS_def)
  then show ?thesis by (auto simp: evolves_def members_wf_def park_def Let_def)
qed

lemma evolves_membership_change: "evolves X K (membership_change p K)"
  using evolves_current [of X K] by (cases p) simp_all

lemma evolves_add_member: "evolves X K (fst (add_member B m sk K))"
proof -
  obtain c r where r: "bk_add B m sk (k_signer K) (k_cgka K) = (c, r)" by fastforce
  have "evolves X (K\<lparr>k_cgka := c\<rparr>) (fst (add_member B m sk K))"
    using evolves_current(2) [of X "K\<lparr>k_cgka := c\<rparr>" m]
    by (auto simp: add_member_def r Let_def split: sum.splits)
  then show ?thesis by (auto intro: evolves_trans [rotated])
qed

lemma evolves_remove_member: "evolves X K (fst (remove_member B m K))"
proof -
  obtain c r where r: "bk_remove B m (k_signer K) (k_cgka K) = (c, r)" by fastforce
  have "evolves X (K\<lparr>k_cgka := c\<rparr>) (fst (remove_member B m K))"
    using evolves_current(1) [of X "K\<lparr>k_cgka := c\<rparr>" "{m}"]
    by (auto simp: remove_member_def r Let_def split: sum.splits)
  then show ?thesis by (auto intro: evolves_trans [rotated])
qed

lemma evolves_rotate_key: "evolves X K (fst (rotate_key B K))"
  by (auto simp: rotate_key_def Let_def split: prod.splits sum.splits)

lemma evolves_encrypt: "evolves X K (fst (encrypt B H p refs K))"
  by (auto simp: encrypt_def Let_def split: prod.splits sum.splits option.splits)

lemma evolves_and_then:
  assumes "evolves X K (fst r)" and "\<And>x K'. evolves X K' (fst (k x K'))"
  shows "evolves X K (fst (and_then r k))"
  by (rule and_then_inv [where P = "evolves X K"]) (use assms evolves_trans in blast)+

lemma evolves_encrypt_fresh: "evolves X K (fst (encrypt_fresh B H p refs K))"
  unfolding encrypt_fresh_def
  by (intro evolves_and_then evolves_rotate_key evolves_encrypt) (simp add: case_prod_beta)

lemma evolves_decrypt: "evolves X K (fst (decrypt B ch K))"
  by (auto simp: decrypt_def Let_def split: prod.splits sum.splits option.splits)

lemma evolves_merge_verified: "evolves X K (fst (merge_verified B a K))"
proof -
  have "evolves X K (membership_change p (K\<lparr>k_cgka := c\<rparr>))" for p c
    by (rule evolves_trans [OF _ evolves_membership_change]) simp
  then show ?thesis
    using evolves_park [of X K a]
    by (auto simp: merge_verified_def Let_def split: sum.splits prod.splits bool.splits cgka_error.splits)
qed

lemma evolves_merge: "evolves X K (fst (merge B X a K))"
  by (auto simp: merge_def intro: evolves_trans [OF evolves_absorb evolves_merge_verified])

lemma pending_step_controller: "fst (pending_step B op (K, n, e)) = fst (merge_verified B op K)"
  by (auto simp: pending_step_def split: prod.splits sum.splits merge_outcome.splits core_error.splits)

lemma evolves_pending_fold: "evolves X (fst st) (fst (fold (pending_step B) ops st))"
proof (rule fold_invariant_set [where P = "\<lambda>st'. evolves X (fst st) (fst st')"])
  fix op :: authorized_op and st' :: "('a, 'b) controller \<times> nat \<times> core_error option"
  assume "evolves X (fst st) (fst st')"
  then show "evolves X (fst st) (fst (pending_step B op st'))"
    by (cases st') (auto simp: pending_step_controller intro: evolves_trans [OF _ evolves_merge_verified])
qed simp

lemma evolves_merge_pending: "evolves X K (fst (merge_pending B K))"
proof -
  have "evolves X K (fst (pending_loop B (K, 0, None)))"
  proof (rule pending_settles.loop_inv [where P = "\<lambda>st. evolves X K (fst st)"])
    fix st :: "('a, 'b) controller \<times> nat \<times> core_error option"
    assume K: "evolves X K (fst st)"
    obtain K' n e where st: "st = (K', n, e)" by (metis surj_pair)
    have "evolves X K' (K'\<lparr>k_parked := []\<rparr>)" by (auto simp: evolves_def members_wf_def)
    from evolves_trans [OF K [unfolded st fst_conv] this]
      evolves_pending_fold [of X "(K'\<lparr>k_parked := []\<rparr>, n, e)" B "k_parked K'"]
    show "evolves X K (fst (fst (pending_round B st)))"
      by (auto simp: st pending_round_def Let_def intro: evolves_trans)
  qed simp
  then show ?thesis by (auto simp: merge_pending_def split: prod.splits option.splits)
qed

section \<open>The controller as a state machine\<close>

text \<open>One call of a method that takes \<open>&mut self\<close>, whether it succeeds or not.\<close>

inductive controller_step :: "('c, 'r) beekem \<Rightarrow> cert_crypto \<Rightarrow> ('c, 'r) controller \<Rightarrow> ('c, 'r) controller \<Rightarrow> bool"
  for B X where
  "controller_step B X K (fst (absorb_certificates X cs K))"
| "controller_step B X K (fst (certify_device X d u n K))"
| "controller_step B X K (fst (certify_role X u c n K))"
| "controller_step B X K (fst (certify_proposal X a sq e n K))"
| "controller_step B X K (fst (certify_approval X p n K))"
| "controller_step B X K (fst (certify_policy X t n K))"
| "controller_step B X K (fst (add_member B m sk K))"
| "controller_step B X K (fst (remove_member B m K))"
| "controller_step B X K (fst (rotate_key B K))"
| "controller_step B X K (fst (encrypt B H pt refs K))"
| "controller_step B X K (fst (encrypt_fresh B H pt refs K))"
| "controller_step B X K (fst (decrypt B ch K))"
| "controller_step B X K (fst (merge B X a K))"
| "controller_step B X K (fst (merge_pending B K))"

lemmas evolves_operations = evolves_absorb evolves_certify evolves_add_member evolves_remove_member
  evolves_rotate_key evolves_encrypt evolves_encrypt_fresh evolves_decrypt evolves_merge evolves_merge_pending

lemma controller_step_evolves: "controller_step B X K K' \<Longrightarrow> evolves X K K'"
  by (induction rule: controller_step.induct)
    (simp_all add: evolves_operations certify_device_def certify_role_def certify_proposal_def
      certify_approval_def certify_policy_def)

lemma controller_steps_evolve: "(controller_step B X)\<^sup>*\<^sup>* K K' \<Longrightarrow> evolves X K K'"
  by (induction rule: rtranclp_induct) (auto intro: evolves_trans controller_step_evolves)

text \<open>How a controller comes to be.\<close>

inductive controller_initial :: "('c, 'r) beekem \<Rightarrow> cert_crypto \<Rightarrow> ('c, 'r) controller \<Rightarrow> bool" for B X where
  "controller_create B X tree signer rng = Inr K \<Longrightarrow> controller_initial B X K"
| "controller_join B X tree signer secret ops certs rng = Inr K \<Longrightarrow> controller_initial B X K"

lemma evolves_join_step: "evolves X K (fst (join_step B X op invited K))"
proof -
  have "evolves X K1 (fst (and_then (merge B X (bare op) K1) (\<lambda>_ K2. (K2, Inr i))))" for K1 and i :: bool
    by (rule evolves_and_then [OF evolves_merge]) simp
  then show ?thesis
    unfolding join_step_def Let_def
    by (intro evolves_and_then) (auto simp: evolves_merge split: cgka_operation.splits sum.splits)
qed

lemma evolves_join_ops: "evolves X K (fst (join_ops B X ops invited K))"
proof (induction ops arbitrary: invited K)
  case (Cons op ops)
  show ?case unfolding join_ops.simps by (intro evolves_and_then evolves_join_step Cons.IH)
qed simp

text \<open>What a successful join passed through.\<close>

lemma controller_joinE:
  assumes "controller_join B X tree signer secret ops certs rng = Inr K"
  obtains ini rest pk r cgka K1 n where
    "ops = ini # rest" and "sg_payload ini = Add (sg_issuer ini) pk [] r" and "bk_verify B ini"
    and "bk_new_from_init_add B tree (sg_issuer ini) pk ini = Inr cgka"
    and "join_ops B X rest (sg_issuer ini = cc_verifying_key X signer)
      (fst (absorb_certificates X certs \<lparr>k_cgka = cgka, k_signer = signer, k_member_id = cc_verifying_key X signer,
         k_share_secret = secret, k_share_key = bk_share_key B secret, k_known_members = {sg_issuer ini},
         k_current_members = {sg_issuer ini}, k_certs = capability_store_new (sg_issuer ini), k_parked = [],
         k_evicted_ops = 0, k_rng = rng\<rparr>)) = (K1, Inr True)"
    and "merge_pending B K1 = (K, Inr n)" and "k_parked K = []"
  using assms
  by (auto simp: controller_join_def Let_def parked_len_def and_then_def
      split: list.splits cgka_operation.splits if_splits sum.splits prod.splits)

lemma members_wf_create: "controller_create B X tree signer rng = Inr K \<Longrightarrow> members_wf K"
  by (auto simp: controller_create_def Let_def members_wf_def split: prod.splits sum.splits)

lemma joined_controller:
  assumes "controller_join B X tree signer secret ops certs rng = Inr K"
  shows "members_wf K \<and> k_member_id K = cc_verifying_key X signer
    \<and> certs_advance X (fst (store_extend X certs (capability_store_new (sg_issuer (hd ops))))) (k_certs K)"
  using assms
proof (cases rule: controller_joinE)
  case (1 ini rest pk r cgka K1 n)
  let ?K = "\<lparr>k_cgka = cgka, k_signer = signer, k_member_id = cc_verifying_key X signer,
       k_share_secret = secret, k_share_key = bk_share_key B secret, k_known_members = {sg_issuer ini},
       k_current_members = {sg_issuer ini}, k_certs = capability_store_new (sg_issuer ini), k_parked = [],
       k_evicted_ops = 0, k_rng = rng\<rparr>"
  let ?start = "fst (absorb_certificates X certs ?K)"
  have "evolves X ?start K1"
    using evolves_join_ops [of X ?start B rest "sg_issuer ini = cc_verifying_key X signer"] unfolding 1(5) fst_conv .
  moreover have "evolves X K1 K" using evolves_merge_pending [of X K1 B] 1(6) by simp
  ultimately have ev: "evolves X ?start K" by (rule evolves_trans)
  have start: "k_certs ?start = fst (store_extend X certs (capability_store_new (sg_issuer ini)))"
    by (simp add: absorb_certificates_def split: prod.split)
  have "members_wf ?start" "k_member_id ?start = cc_verifying_key X signer"
    using evolves_absorb [of X ?K certs] by (simp_all add: evolves_def members_wf_def)
  with ev show ?thesis by (simp add: evolves_def start 1(1))
qed

lemmas members_wf_join = joined_controller [THEN conjunct1]
  and joined_member = joined_controller [THEN conjunct2, THEN conjunct1]
  and joined_certs = joined_controller [THEN conjunct2, THEN conjunct2]

lemma initial_store_wf:
  assumes "controller_initial B X K" and "collision_free X"
  shows "store_wf X (k_certs K)"
proof -
  have new: "store_wf X (capability_store_new f)" for f
    using reaches_new assms(2) by (auto simp: collision_free_def reaches_def)
  from assms(1) show ?thesis
  proof cases
    case 1
    then show ?thesis using new by (auto simp: controller_create_def Let_def split: prod.splits sum.splits)
  next
    case 2
    then show ?thesis using joined_controller [OF 2] store_extend_wf(1) [OF assms(2) new] assms(2) by (auto simp: certs_advance_def)
  qed
qed

text \<open>
  Whatever sequence of operations a device runs after founding or joining a workspace, succeeding
  or failing: its current members are among the members it knows, at most 1024 operations are parked,
  no member it ever knew is forgotten, and its own identity and the founder's do not change.
\<close>

theorem controller_invariant:
  assumes "controller_initial B X K" and "(controller_step B X)\<^sup>*\<^sup>* K K'"
  shows "k_current_members K' \<subseteq> k_known_members K' \<and> length (k_parked K') \<le> 1024
    \<and> k_known_members K \<subseteq> k_known_members K' \<and> k_member_id K' = k_member_id K
    \<and> cs_founder (k_certs K') = cs_founder (k_certs K)"
proof -
  have "members_wf K" using assms(1) by cases (blast intro: members_wf_create members_wf_join)+
  with controller_steps_evolve [OF assms(2)] show ?thesis
    by (simp add: evolves_def certs_advance_def members_wf_def MAX_PARKED_OPS_def)
qed

section \<open>What a merge may do\<close>

text \<open>
  The permission a membership change needs: an \<open>Add\<close> is of a certified device and by somebody who may
  bind devices to that device's user; a \<open>Remove\<close> is of the issuer's own user's device, or by an
  administrator, with a quorum behind it when the workspace has a threshold above one.
\<close>

fun permitted :: "capability_store \<Rightarrow> cgka_operation \<Rightarrow> bytes32 \<Rightarrow> bool" where
  "permitted S (Add added _ _ _) issuer =
     (\<exists>u. user_of S added = Some u \<and> (user_of S issuer = Some u \<or> may_administer S issuer))"
| "permitted S (Remove target _) issuer =
     ((\<exists>u. user_of S target = Some u \<and> user_of S issuer = Some u)
      \<or> may_administer S issuer \<and> (cs_threshold S \<le> 1 \<or> is_executed_action S (RemoveMember target)))"
| "permitted S (Update _ _) issuer = True"

lemma authorize_permitted: "authorize S p issuer = (if permitted S p issuer then Inr () else Inl (Uncertified issuer))"
  by (cases p) (auto simp: may_bind_device_to_def DEFAULT_THRESHOLD_def Let_def split: option.splits)

lemma absorb_fields [simp]:
  "k_cgka (fst (absorb_certificates X cs K)) = k_cgka K"
  "k_known_members (fst (absorb_certificates X cs K)) = k_known_members K"
  "k_current_members (fst (absorb_certificates X cs K)) = k_current_members K"
  "k_parked (fst (absorb_certificates X cs K)) = k_parked K"
  "k_evicted_ops (fst (absorb_certificates X cs K)) = k_evicted_ops K"
  "k_certs (fst (absorb_certificates X cs K)) = fst (store_extend X cs (k_certs K))"
  by (simp_all add: absorb_certificates_def split: prod.splits)

text \<open>
  C12. An operation reaches the group's tree and the member sets only if its signature verifies, its
  predecessors are there, its issuer is a known member and the certificates, the ones it came with
  included, permit it; then the member sets change exactly as it says.
\<close>

theorem merge_applied:
  assumes "merge B X a K = (K', Inr Applied)"
  defines "op \<equiv> sg_payload (ao_op a)" and "issuer \<equiv> sg_issuer (ao_op a)"
  shows "bk_verify B (ao_op a) \<and> bk_contains_predecessors B (bk_predecessors B op) (k_cgka K)
    \<and> issuer \<in> k_known_members K
    \<and> k_certs K' = fst (store_extend X (ao_proof a) (k_certs K)) \<and> permitted (k_certs K') op issuer
    \<and> k_known_members K' = k_known_members K \<union> (case op of Add m _ _ _ \<Rightarrow> {m} | _ \<Rightarrow> {})
    \<and> k_current_members K' = (case op of Add m _ _ _ \<Rightarrow> insert m (k_current_members K)
        | Remove m _ \<Rightarrow> k_current_members K - {m} | Update _ _ \<Rightarrow> k_current_members K)
    \<and> k_parked K' = k_parked K"
  using assms
  by (cases "sg_payload (ao_op a)")
    (auto simp: merge_def merge_verified_def Let_def authorize_permitted
      split: if_splits sum.splits prod.splits bool.splits cgka_error.splits)

text \<open>
  An operation refused for its signature, its issuer or its permission leaves the tree, the member
  sets and the queue as they were; the certificates it carried are kept, except under a bad signature.
\<close>

theorem merge_refused:
  assumes "merge B X a K = (K', Inl e)" and "e \<in> {BadSignature} \<union> range Unauthorized \<union> range Uncertified"
  shows "k_cgka K' = k_cgka K \<and> k_known_members K' = k_known_members K
    \<and> k_current_members K' = k_current_members K \<and> k_parked K' = k_parked K
    \<and> k_certs K' = (if bk_verify B (ao_op a) then fst (store_extend X (ao_proof a) (k_certs K)) else k_certs K)"
  using assms
  by (auto simp: merge_def merge_verified_def Let_def authorize_permitted
      split: if_splits sum.splits prod.splits bool.splits cgka_error.splits)

text \<open>
  A signed operation from an issuer no accepted \<open>Add\<close> named, or that is not permitted, is refused
  with the error that says which.
\<close>

theorem merge_refuses:
  assumes "bk_verify B (ao_op a)"
    and "bk_contains_predecessors B (bk_predecessors B (sg_payload (ao_op a))) (k_cgka K)"
  shows "(sg_issuer (ao_op a) \<notin> k_known_members K \<longrightarrow>
      snd (merge B X a K) = Inl (Unauthorized (sg_issuer (ao_op a))))
    \<and> (sg_issuer (ao_op a) \<in> k_known_members K
       \<and> \<not> permitted (fst (store_extend X (ao_proof a) (k_certs K))) (sg_payload (ao_op a)) (sg_issuer (ao_op a)) \<longrightarrow>
      snd (merge B X a K) = Inl (Uncertified (sg_issuer (ao_op a))))"
  using assms by (auto simp: merge_def merge_verified_def Let_def authorize_permitted)

section \<open>Draining the queue\<close>

text \<open>
  What the drain relies on of beekem: a merge that applies nothing does not change which operations the
  tree contains.
\<close>

definition merge_stable :: "('c, 'r) beekem \<Rightarrow> bool" where
  "merge_stable B \<longleftrightarrow> (\<forall>op c c' r ds. bk_merge_concurrent_operation B op c = (c', r) \<and> r \<noteq> Inr True \<longrightarrow>
     bk_contains_predecessors B ds c' = bk_contains_predecessors B ds c)"

definition waiting :: "('c, 'r) beekem \<Rightarrow> 'c \<Rightarrow> authorized_op \<Rightarrow> bool" where
  "waiting B c a \<longleftrightarrow> \<not> bk_contains_predecessors B (bk_predecessors B (sg_payload (ao_op a))) c"

lemma in_set_tl: "x \<in> set (tl xs) \<Longrightarrow> x \<in> set xs"
  by (cases xs) auto

lemma merge_verified_idle:
  assumes "merge_stable B" and "merge_verified B a K = (K', r)" and "r \<noteq> Inr Applied"
  shows "waiting B (k_cgka K') = waiting B (k_cgka K)"
    and "set (k_parked K') \<subseteq> set (k_parked K) \<union> {a. waiting B (k_cgka K) a}"
proof -
  have stable: "bk_merge_concurrent_operation B op c = (c', q) \<Longrightarrow> q \<noteq> Inr True \<Longrightarrow> waiting B c' = waiting B c" for op c c' q
    using assms(1) by (auto simp: merge_stable_def waiting_def fun_eq_iff)
  show "waiting B (k_cgka K') = waiting B (k_cgka K)"
    using assms(2,3) stable [of "ao_op a" "k_cgka K"]
    by (auto simp: merge_verified_def Let_def park_def
        split: if_splits sum.splits prod.splits bool.splits cgka_error.splits)
  show "set (k_parked K') \<subseteq> set (k_parked K) \<union> {a. waiting B (k_cgka K) a}"
    using assms(2)
    by (auto simp: merge_verified_def Let_def park_def waiting_def
        split: if_splits sum.splits prod.splits bool.splits cgka_error.splits dest: in_set_tl)
qed

lemma pending_step_idle:
  assumes "merge_stable B" and "fst (snd (pending_step B op st)) = fst (snd st)"
  shows "waiting B (k_cgka (fst (pending_step B op st))) = waiting B (k_cgka (fst st))"
    and "set (k_parked (fst (pending_step B op st))) \<subseteq> set (k_parked (fst st)) \<union> {a. waiting B (k_cgka (fst st)) a}"
proof -
  obtain K n e where st: "st = (K, n, e)" by (metis surj_pair)
  obtain K' r where m: "merge_verified B op K = (K', r)" by fastforce
  have "r \<noteq> Inr Applied" using assms(2) by (auto simp: st pending_step_def m)
  from merge_verified_idle [OF assms(1) m this]
  show "waiting B (k_cgka (fst (pending_step B op st))) = waiting B (k_cgka (fst st))"
    and "set (k_parked (fst (pending_step B op st))) \<subseteq> set (k_parked (fst st)) \<union> {a. waiting B (k_cgka (fst st)) a}"
    by (simp_all add: st pending_step_controller m)
qed

lemma pending_fold_idle:
  assumes "merge_stable B"
  shows "fst (snd (fold (pending_step B) ops st)) = fst (snd st) \<Longrightarrow>
    waiting B (k_cgka (fst (fold (pending_step B) ops st))) = waiting B (k_cgka (fst st))
    \<and> set (k_parked (fst (fold (pending_step B) ops st))) \<subseteq> set (k_parked (fst st)) \<union> {a. waiting B (k_cgka (fst st)) a}"
proof (induction ops arbitrary: st)
  case (Cons op ops)
  let ?st = "pending_step B op st"
  have same: "fst (snd ?st) = fst (snd st)"
    using Cons.prems pending_step_length [of B op st] pending_fold_length [of B ops ?st] by simp
  with Cons.IH [of ?st] Cons.prems pending_step_idle [OF assms same] show ?case by auto
qed simp

text \<open>
  Draining the queue of parked operations ends within as many rounds as there are parked
  operations and one more.
\<close>

theorem merge_pending_rounds:
  "run_rounds (pending_round B) (Suc (parked_len K)) (K, 0, None) = Some (pending_loop B (K, 0, None))"
  by (rule pending_settles.run_rounds_loop) (simp add: pending_meas_def parked_len_def)

text \<open>
  C34. After a drain no parked operation could still be merged: every one of them waits for a
  predecessor that has not arrived.
\<close>

theorem merge_pending_drained:
  assumes "merge_stable B" and "a \<in> set (k_parked (fst (merge_pending B K)))"
  shows "\<not> bk_contains_predecessors B (bk_predecessors B (sg_payload (ao_op a))) (k_cgka (fst (merge_pending B K)))"
proof -
  let ?fin = "pending_loop B (K, 0, None)"
  have res: "fst (merge_pending B K) = fst ?fin"
    by (auto simp: merge_pending_def split: prod.splits option.splits)
  obtain t where t: "pending_round B t = (?fin, False)"
    using pending_settles.loop_settled_inv [of "\<lambda>_. True" "(K, 0, None)" B] by auto
  obtain K1 n e where K1: "t = (K1, n, e)" by (metis surj_pair)
  have fold: "fold (pending_step B) (k_parked K1) (K1\<lparr>k_parked := []\<rparr>, n, e) = ?fin" and "fst (snd ?fin) = n"
    using t by (auto simp: K1 pending_round_def Let_def)
  with pending_fold_idle [OF assms(1), of "k_parked K1" "(K1\<lparr>k_parked := []\<rparr>, n, e)"]
  have "set (k_parked (fst ?fin)) \<subseteq> {a. waiting B (k_cgka (fst ?fin)) a}" by simp
  with assms(2) res show ?thesis by (auto simp: waiting_def)
qed

section \<open>Joining and restarting\<close>

lemma join_ops_invited:
  "join_ops B X ops invited K = (K', Inr True) \<Longrightarrow> \<not> invited \<Longrightarrow>
     \<exists>op \<in> set ops. \<exists>pk ps r. sg_payload op = Add (k_member_id K) pk ps r"
proof (induction ops arbitrary: invited K)
  case (Cons op ops)
  from Cons.prems(1) obtain K1 i where step: "join_step B X op invited K = (K1, Inr i)"
      and rest: "join_ops B X ops i K1 = (K', Inr True)"
    by (auto elim: and_then_InrE)
  have "k_member_id K1 = k_member_id K" using evolves_join_step [of X K B op invited] step by (simp add: evolves_def)
  moreover have "i \<Longrightarrow> \<exists>pk ps r. sg_payload op = Add (k_member_id K) pk ps r"
    using step Cons.prems(2)
    by (auto simp: join_step_def Let_def and_then_def split: cgka_operation.splits if_splits sum.splits prod.splits)
  ultimately show ?case using Cons.IH [OF rest] by (cases i) auto
qed simp

text \<open>
  C33. A join succeeds only on a log whose first entry is the founder's own verified \<open>Add\<close> with no
  predecessors; the controller it returns has nothing parked, is rooted at that founder, and belongs to
  the founder's device or to a device some \<open>Add\<close> of the log names.
\<close>

theorem join_succeeds_only:
  assumes "controller_join B X tree signer secret ops certs rng = Inr K"
  shows "\<exists>ini rest pk r. ops = ini # rest \<and> sg_payload ini = Add (sg_issuer ini) pk [] r \<and> bk_verify B ini
    \<and> cs_founder (k_certs K) = sg_issuer ini \<and> sg_issuer ini \<in> k_known_members K
    \<and> k_parked K = [] \<and> k_member_id K = cc_verifying_key X signer
    \<and> (k_member_id K = sg_issuer ini
       \<or> (\<exists>op \<in> set rest. \<exists>pk ps r. sg_payload op = Add (k_member_id K) pk ps r))"
  using assms
proof (cases rule: controller_joinE)
  case (1 ini rest pk r cgka K1 n)
  let ?m = "cc_verifying_key X signer"
  let ?K = "\<lparr>k_cgka = cgka, k_signer = signer, k_member_id = ?m,
       k_share_secret = secret, k_share_key = bk_share_key B secret, k_known_members = {sg_issuer ini},
       k_current_members = {sg_issuer ini}, k_certs = capability_store_new (sg_issuer ini), k_parked = [],
       k_evicted_ops = 0, k_rng = rng\<rparr>"
  let ?start = "fst (absorb_certificates X certs ?K)"
  have "evolves X ?start K1" using evolves_join_ops [of X ?start B rest "sg_issuer ini = ?m"] unfolding 1(5) fst_conv .
  then have "evolves X ?K K1" by (rule evolves_trans [OF evolves_absorb])
  from evolves_trans [OF this evolves_merge_pending [of X K1 B]] have ev: "evolves X ?K K" using 1(6) by simp
  have "k_member_id ?start = ?m" using evolves_absorb [of X ?K certs] by (simp add: evolves_def)
  with join_ops_invited [OF 1(5)] have "?m = sg_issuer ini \<or>
      (\<exists>op \<in> set rest. \<exists>pk ps r. sg_payload op = Add ?m pk ps r)" by (metis (no_types))
  moreover have "cs_founder (capability_store_new (sg_issuer ini)) = sg_issuer ini"
    by (simp add: capability_store_new_def)
  ultimately show ?thesis
    using 1 ev by (intro exI [of _ ini] exI [of _ rest] exI [of _ pk] exI [of _ r]) (simp add: evolves_def certs_advance_def)
qed

text \<open>
  A log that is empty, does not start with an \<open>Add\<close>, or whose first \<open>Add\<close> has predecessors has no
  founder; a forged founder is refused.
\<close>

theorem join_rejects:
  "controller_join B X tree signer secret [] certs rng = Inl MissingInitAdd
   \<and> (sg_payload ini = Remove m b \<or> sg_payload ini = Update m b \<or> sg_payload ini = Add m pk (d # ds) b \<longrightarrow>
        controller_join B X tree signer secret (ini # ops) certs rng = Inl MissingInitAdd)
   \<and> (sg_payload ini = Add m pk [] b \<and> \<not> bk_verify B ini \<longrightarrow>
        controller_join B X tree signer secret (ini # ops) certs rng = Inl BadSignature)
   \<and> (sg_payload ini = Add m pk [] b \<and> bk_verify B ini \<and> sg_issuer ini \<noteq> m \<longrightarrow>
        controller_join B X tree signer secret (ini # ops) certs rng = Inl (Unauthorized (sg_issuer ini)))"
  by (auto simp: controller_join_def Let_def)

lemma wf_certificates_valid: "store_wf X S \<Longrightarrow> c \<in> set (certificates S) \<Longrightarrow> cert_valid X c"
  by (auto simp: store_wf_def base_wf_def keyed_def set_certificates_Un)

lemma rebuilt_store:
  assumes "store_wf X S" and "inj_on (cc_digest X) (set (certificates S))"
  shows "fst (store_extend X (certificates S) (capability_store_new (cs_founder S))) = S"
proof -
  let ?new = "capability_store_new (cs_founder S)"
  note new = reaches_new [OF assms(2), of "cs_founder S"]
  note spec = store_extend_spec [OF new, of "certificates S"]
  have "certificates ?new = []" by (simp add: capability_store_new_def certificates_def)
  then have "set (certificates (fst (store_extend X (certificates S) ?new))) = set (certificates S)"
    using spec(2) wf_certificates_valid [OF assms(1)] by auto
  with spec(1) assms(1) show ?thesis by (intro store_determined [of X]) (simp_all add: reaches_def)
qed

text \<open>
  Restarting from a snapshot gives back the controller, with the queue of parked operations empty:
  the certificate store with everything derived from it, both member sets, the keys and the tree.
\<close>

theorem snapshot_round_trip:
  assumes "store_wf X (k_certs K)" and "inj_on (cc_digest X) (set (certificates (k_certs K)))"
    and "finite (k_known_members K)" and "k_current_members K \<subseteq> k_known_members K"
    and "\<forall>m \<in> k_known_members K. cc_is_point X m"
    and "k_member_id K = cc_verifying_key X (k_signer K)" and "k_share_key K = bk_share_key B (k_share_secret K)"
  shows "controller_from_snapshot B X (controller_snapshot K) (k_rng K) = Inr (K\<lparr>k_parked := []\<rparr>)"
proof -
  have points: "collect_results (map (member_from_bytes X) (sorted_list_of_set M)) = Inr (sorted_list_of_set M)"
    if "M \<subseteq> k_known_members K" for M
  proof -
    have "map (member_from_bytes X) (sorted_list_of_set M) = map Inr (sorted_list_of_set M)"
      using that assms(3,5) finite_subset [OF that] by (auto simp: member_from_bytes_def)
    then show ?thesis by (simp only: collect_results_map_Inr)
  qed
  have fin: "finite (k_current_members K)" using assms(3,4) by (rule finite_subset [rotated])
  have "controller_from_snapshot B X (controller_snapshot K) (k_rng K) = Inr K'
      \<Longrightarrow> K' = K\<lparr>k_parked := []\<rparr>" for K'
    using assms(3,6,7) fin rebuilt_store [OF assms(1,2)] points [OF assms(4)] points [OF subset_refl]
    by (intro controller.equality) (auto simp: controller_from_snapshot_def controller_snapshot_def)
  moreover have "\<exists>K'. controller_from_snapshot B X (controller_snapshot K) (k_rng K) = Inr K'"
    using points [OF assms(4)] points [OF subset_refl]
    by (simp add: controller_from_snapshot_def controller_snapshot_def)
  ultimately show ?thesis by metis
qed

text \<open>
  Encrypting under a fresh epoch always hands back the rotation that made the epoch, first in the
  list of operations to broadcast.
\<close>

theorem encrypt_fresh_rotates:
  assumes "encrypt_fresh B H plaintext refs K = (K', Inr (ch, ops))"
  shows "\<exists>K1 rotation implicit. rotate_key B K = (K1, Inr rotation)
    \<and> encrypt B H plaintext refs K1 = (K', Inr (ch, implicit))
    \<and> ops = rotation # (case implicit of None \<Rightarrow> [] | Some op \<Rightarrow> [op])"
  using assms unfolding encrypt_fresh_def
  by (auto elim!: and_then_InrE)

end
