(* ===== verification/Keys_Examples.thy ===== *)
theory Keys_Examples
  imports Keys_Properties Examples
begin

text \<open>
  A key agreement small enough to evaluate, and the properties of the controller applied to it. Its
  state is the list of operations it has accepted; an operation is named by the first byte of its
  signature and lists the names of its predecessors in its opaque bytes.
\<close>

definition op_name :: "control_op \<Rightarrow> bytes32" where
  "op_name op = (case sg_signature op of [] \<Rightarrow> 0 | b # _ \<Rightarrow> ucast b)"

definition demo_add :: "bytes32 \<Rightarrow> bytes32 \<Rightarrow> byte \<Rightarrow> bytes \<Rightarrow> control_op" where
  "demo_add issuer m name preds =
     \<lparr>sg_issuer = issuer, sg_payload = Add m m [] preds, sg_signature = [name]\<rparr>"

definition demo_remove :: "bytes32 \<Rightarrow> bytes32 \<Rightarrow> byte \<Rightarrow> bytes \<Rightarrow> control_op" where
  "demo_remove issuer m name preds =
     \<lparr>sg_issuer = issuer, sg_payload = Remove m preds, sg_signature = [name]\<rparr>"

definition demo_update :: "bytes32 \<Rightarrow> byte \<Rightarrow> control_op" where
  "demo_update issuer name = \<lparr>sg_issuer = issuer, sg_payload = Update issuer [], sg_signature = [name]\<rparr>"

definition demo_chunk :: "bytes \<Rightarrow> chunk" where
  "demo_chunk p = \<lparr>ch_ciphertext = p, ch_nonce = 0, ch_content_ref = 0, ch_pred_refs = [], ch_pcs_key_hash = 7,
     ch_pcs_update_op_hash = 1\<rparr>"

definition demo_beekem :: "(control_op list, nat) beekem" where
  "demo_beekem = \<lparr>
     bk_new = (\<lambda>tree m pk signer. Some (Inr [demo_add m m 1 []])),
     bk_owner_sks = (\<lambda>_. Map.empty), bk_set_owner_sks = (\<lambda>_ c. c),
     bk_new_from_init_add = (\<lambda>tree m pk op. Inr [op]),
     bk_with_new_owner = (\<lambda>m sks c. Inr c),
     bk_add = (\<lambda>m pk signer c. let op = demo_add signer m (of_nat (Suc (length c))) [] in (c @ [op], Some (Inr (Some op)))),
     bk_remove = (\<lambda>m signer c. let op = demo_remove signer m (of_nat (Suc (length c))) [] in (c @ [op], Some (Inr (Some op)))),
     bk_update = (\<lambda>pk sk signer r c. let op = demo_update signer (of_nat (Suc (length c))) in (Suc r, c @ [op], Some (Inr op))),
     bk_new_app_secret_for = (\<lambda>cref p preds signer r c. (Suc r, c, Some (Inr ([], None)))),
     bk_try_encrypt = (\<lambda>secret p. Some (demo_chunk p)),
     bk_decryption_key_for = (\<lambda>ch c. (c, if ch_pcs_update_op_hash ch \<in> op_name ` set c then Inr [] else Inl IdentifierNotFound)),
     bk_try_decrypt = (\<lambda>key ch. Some (ch_ciphertext ch)),
     bk_contains_predecessors = (\<lambda>ds c. ds \<subseteq> op_name ` set c),
     bk_merge_concurrent_operation = (\<lambda>op c. if op_name op \<in> op_name ` set c then (c, Inr False) else (c @ [op], Inr True)),
     bk_ops = (\<lambda>c. Inr [c]), bk_init_add_op = hd, bk_group_size = (\<lambda>c. of_nat (length c)),
     bk_doc_id = (\<lambda>_. 0), bk_predecessors = (\<lambda>p. set (map ucast (op_rest p))), bk_verify = (\<lambda>_. True),
     bk_share_key = (\<lambda>s. s + 1), bk_gen_share_secret = (\<lambda>r. (Suc r, of_nat r))\<rparr>"

lemma demo_merge_stable: "merge_stable demo_beekem"
  by (auto simp: merge_stable_def demo_beekem_def split: if_splits)

text \<open>The founder's device, with user 2 certified as an administrator and device 20 bound to them.\<close>

definition demo_founder :: "(control_op list, nat) controller" where
  "demo_founder = (case controller_create demo_beekem demo_crypto 0 1 0 of Inr K \<Rightarrow> K)"

lemma demo_founder_created: "controller_create demo_beekem demo_crypto 0 1 0 = Inr demo_founder"
  by (simp add: demo_founder_def controller_create_def demo_beekem_def polled_def Let_def)

definition demo_admin_op :: authorized_op where
  "demo_admin_op = authorized_op_new (demo_add 1 20 2 [1]) [alice_grant, alice_device]"

text \<open>An operation whose predecessor, named 9, has not arrived.\<close>

definition demo_late_op :: authorized_op where
  "demo_late_op = bare (demo_remove 1 20 3 [9])"

lemma demo_admin_applied: "snd (merge demo_beekem demo_crypto demo_admin_op demo_founder) = Inr Applied"
  by code_simp

theorem controller_invariant_witness:
  "k_current_members (fst (merge demo_beekem demo_crypto demo_admin_op demo_founder))
     \<subseteq> k_known_members (fst (merge demo_beekem demo_crypto demo_admin_op demo_founder))"
proof -
  have "controller_initial demo_beekem demo_crypto demo_founder"
    using demo_founder_created by (rule controller_initial.intros)
  moreover have "(controller_step demo_beekem demo_crypto)\<^sup>*\<^sup>* demo_founder
      (fst (merge demo_beekem demo_crypto demo_admin_op demo_founder))"
    by (rule r_into_rtranclp) (rule controller_step.intros)
  ultimately show ?thesis using controller_invariant by blast
qed

theorem merge_applied_witness:
  "20 \<in> k_known_members (fst (merge demo_beekem demo_crypto demo_admin_op demo_founder))"
proof -
  obtain K' where K': "merge demo_beekem demo_crypto demo_admin_op demo_founder = (K', Inr Applied)"
    using demo_admin_applied by (metis prod.collapse)
  have "20 \<in> k_known_members K'"
    using merge_applied [OF K'] by (simp add: demo_admin_op_def authorized_op_new_def demo_add_def)
  then show ?thesis by (simp add: K')
qed

theorem merge_refused_witness:
  "k_current_members (fst (merge demo_beekem demo_crypto (bare (demo_remove 66 1 5 [1])) demo_founder)) = {1}"
proof -
  have "snd (merge demo_beekem demo_crypto (bare (demo_remove 66 1 5 [1])) demo_founder) = Inl (Unauthorized 66)"
    by code_simp
  then obtain K' where K': "merge demo_beekem demo_crypto (bare (demo_remove 66 1 5 [1])) demo_founder
      = (K', Inl (Unauthorized 66))" by (metis prod.collapse)
  have "k_current_members demo_founder = {1}" by code_simp
  with merge_refused [OF K'] K' show ?thesis by simp
qed

theorem merge_refuses_witness:
  "snd (merge demo_beekem demo_crypto (bare (demo_remove 66 1 5 [1])) demo_founder) = Inl (Unauthorized 66)"
proof -
  have "bk_verify demo_beekem (demo_remove 66 1 5 [1])"
    "bk_contains_predecessors demo_beekem (bk_predecessors demo_beekem (sg_payload (demo_remove 66 1 5 [1]))) (k_cgka demo_founder)"
    "66 \<notin> k_known_members demo_founder" by code_simp+
  then show ?thesis
    using merge_refuses [of demo_beekem "bare (demo_remove 66 1 5 [1])" demo_founder demo_crypto]
    by (simp add: bare_def demo_remove_def)
qed

theorem merge_pending_drained_witness:
  "\<not> bk_contains_predecessors demo_beekem {9}
     (k_cgka (fst (merge_pending demo_beekem (fst (merge demo_beekem demo_crypto demo_late_op demo_founder)))))"
proof -
  let ?K = "fst (merge demo_beekem demo_crypto demo_late_op demo_founder)"
  have "k_parked (fst (merge_pending demo_beekem ?K)) = [demo_late_op]" by code_simp
  with merge_pending_drained [OF demo_merge_stable, of demo_late_op ?K] show ?thesis
    by (simp add: demo_late_op_def bare_def demo_remove_def demo_beekem_def)
qed

theorem join_succeeds_only_witness:
  "\<exists>K. controller_join demo_beekem demo_crypto 0 20 5 [demo_add 1 1 1 [], demo_add 1 20 2 [1]] [alice_grant, alice_device] 0 = Inr K
     \<and> k_parked K = [] \<and> k_member_id K = 20"
proof -
  have "is_ok (controller_join demo_beekem demo_crypto 0 20 5 [demo_add 1 1 1 [], demo_add 1 20 2 [1]] [alice_grant, alice_device] 0)"
    by code_simp
  then obtain K where K: "controller_join demo_beekem demo_crypto 0 20 5
      [demo_add 1 1 1 [], demo_add 1 20 2 [1]] [alice_grant, alice_device] 0 = Inr K"
    by (auto simp: is_ok_def split: sum.splits)
  with join_succeeds_only [OF K] show ?thesis by simp
qed

theorem join_rejects_witness:
  "controller_join demo_beekem demo_crypto 0 20 5 [demo_add 66 1 1 []] [] 0 = Inl (Unauthorized 66)"
  using join_rejects [of demo_beekem demo_crypto 0 20 5 "[]" 0 "demo_add 66 1 1 []" 1 "[]" 1 0 "[]" "[]"]
  by (simp add: demo_add_def demo_beekem_def)

theorem snapshot_round_trip_witness:
  "controller_from_snapshot demo_beekem demo_crypto (controller_snapshot demo_founder) (k_rng demo_founder)
     = Inr (demo_founder\<lparr>k_parked := []\<rparr>)"
proof (rule snapshot_round_trip)
  have certs: "k_certs demo_founder = capability_store_new 1"
    by (simp add: demo_founder_def controller_create_def demo_beekem_def polled_def Let_def)
  show "store_wf demo_crypto (k_certs demo_founder)"
    using reaches_new [of demo_crypto "{}" 1] by (simp add: certs reaches_def)
  have "certificates (capability_store_new 1) = []" by (simp add: capability_store_new_def certificates_def)
  then show "inj_on (cc_digest demo_crypto) (set (certificates (k_certs demo_founder)))" by (simp add: certs)
qed (simp_all add: demo_founder_def controller_create_def demo_beekem_def polled_def Let_def)

theorem encrypt_fresh_rotates_witness:
  "\<exists>K1 rotation. rotate_key demo_beekem demo_founder = (K1, Inr rotation)"
proof -
  have "is_ok (snd (encrypt_fresh demo_beekem demo_hash [1, 2] [] demo_founder))" by code_simp
  then obtain K' ch ops where "encrypt_fresh demo_beekem demo_hash [1, 2] [] demo_founder = (K', Inr (ch, ops))"
    by (metis is_ok_def old.sum.exhaust old.sum.simps(5) prod.collapse surj_pair)
  from encrypt_fresh_rotates [OF this] show ?thesis by blast
qed

section \<open>Permission can be withdrawn\<close>

text \<open>The founder makes user 2 a viewer again.\<close>

definition demotion :: certificate where
  "demotion = Grant \<lparr>sg_issuer = 1, sg_payload = grant_new 2 Viewer 1 None 21, sg_signature = []\<rparr>"

text \<open>
  A receiver that holds more certificates can refuse an operation that a receiver with fewer
  accepts: a removal by an administrator is permitted, and refused once the grant demoting them has
  arrived. Two peers that merge the operation before and after the demotion decide differently.
\<close>

theorem authorize_withdrawn:
  "authorize alice_store (Remove 1 []) 20 = Inr ()
   \<and> authorize (fst (store_insert demo_crypto demotion alice_store)) (Remove 1 []) 20 = Inl (Uncertified 20)"
  by (rule conjI) code_simp+

definition viewer_certs :: "certificate list" where
  "viewer_certs = [alice_device,
     Grant \<lparr>sg_issuer = 1, sg_payload = grant_new 3 Viewer 0 None 31, sg_signature = []\<rparr>,
     Binding \<lparr>sg_issuer = 1, sg_payload = device_binding_new 30 3 3, sg_signature = []\<rparr>]"

definition rebinding :: certificate where
  "rebinding = Binding \<lparr>sg_issuer = 30, sg_payload = device_binding_new 20 3 4, sg_signature = []\<rparr>"

definition viewer_store :: capability_store where
  "viewer_store = fst (store_extend demo_crypto viewer_certs (capability_store_new 1))"

text \<open>
  A certified user who is no administrator can take over another user's device: user 3, a viewer
  with device 30, binds device 20 of user 2 to themselves, under a digest smaller than the original
  binding's, and the store then reports device 20 as user 3's.
\<close>

theorem viewer_rebinds_device:
  "user_of viewer_store 20 = Some 2 \<and> role_of_member viewer_store 30 = Some Viewer
   \<and> \<not> ever_admin viewer_store 3
   \<and> user_of (fst (store_insert demo_crypto rebinding viewer_store)) 20 = Some 3"
  by (intro conjI) code_simp+

end
