(* ===== verification/Loro.thy ===== *)
theory Loro
  imports Core_Error Blinding Asset
begin

text \<open>
  The CRDT documents and the codecs. \<open>loro\<close> and \<open>postcard\<close> are not part of this repository:
  what the crate calls of a \<open>LoroDoc\<close> is the record \<open>loro\<close>, over a type \<open>'d\<close> of documents. The
  crate's documents have a text container named \<open>content\<close> and maps with string keys; a map is read as
  the list of its entries in the order \<open>for_each\<close> visits them. A call that Loro refuses returns its
  message; an import that it accepts says whether \<open>status.pending\<close> is empty, that is, whether all of it
  could be applied. A fresh document's random peer id is whatever \<open>lo_new\<close> has: no operation here depends on it
  but the name under which a writer claims authorship. \<open>lo_change_ancestors\<close> are the changes that
  \<open>travel_change_ancestors\<close> visits, \<open>lo_frontier_of_id\<close> is the frontier of one id.

  Strings are their UTF-8 bytes, so \<open>length\<close> is \<open>str::len\<close>.
\<close>

unbundle bit_operations_syntax

datatype loro_entry =
    LString string
  | LValue
  | LMap "(string \<times> loro_entry) list"
  | LContainer

type_synonym loro_map = "(string \<times> loro_entry) list"

text \<open>\<open>ExportMode\<close>; a version vector is its encoding.\<close>

datatype export_mode = Snapshot | AllUpdates | UpdatesFrom bytes

text \<open>\<open>ChangeMeta\<close>: the first id of a change, how many operations it spans, its lamport time and its timestamp.\<close>

record change_meta =
  cm_peer :: u64
  cm_counter :: int
  cm_len :: nat
  cm_lamport :: nat
  cm_timestamp :: unix_seconds

type_synonym 'd loro_call = "'d \<times> (string + unit)"

record 'd loro =
  lo_new :: 'd
  lo_set_change_merge_interval :: "int \<Rightarrow> 'd \<Rightarrow> 'd"
  lo_peer_id :: "'d \<Rightarrow> u64"
  lo_set_peer_id :: "u64 \<Rightarrow> 'd \<Rightarrow> 'd loro_call"
  lo_get_map :: "'d \<Rightarrow> string \<Rightarrow> loro_map"
  lo_map_insert :: "string list \<Rightarrow> string \<Rightarrow> string \<Rightarrow> 'd \<Rightarrow> 'd loro_call"
  lo_map_insert_container :: "string \<Rightarrow> string \<Rightarrow> 'd \<Rightarrow> 'd loro_call"
  lo_map_delete :: "string \<Rightarrow> string \<Rightarrow> 'd \<Rightarrow> 'd loro_call"
  lo_text :: "'d \<Rightarrow> string"
  lo_len_unicode :: "'d \<Rightarrow> nat"
  lo_text_insert :: "nat \<Rightarrow> string \<Rightarrow> 'd \<Rightarrow> 'd loro_call"
  lo_text_delete :: "nat \<Rightarrow> nat \<Rightarrow> 'd \<Rightarrow> 'd loro_call"
  lo_update_text :: "string \<Rightarrow> 'd \<Rightarrow> 'd loro_call"
  lo_commit :: "'d \<Rightarrow> 'd"
  lo_commit_with_timestamp :: "unix_seconds \<Rightarrow> 'd \<Rightarrow> 'd"
  lo_export :: "export_mode \<Rightarrow> 'd \<Rightarrow> 'd \<times> (string + bytes)"
  lo_import :: "bytes \<Rightarrow> 'd \<Rightarrow> 'd \<times> (string + bool)"
  lo_oplog_vv :: "'d \<Rightarrow> bytes"
  lo_vv_decodes :: "bytes \<Rightarrow> bool"
  lo_oplog_frontiers :: "'d \<Rightarrow> bytes"
  lo_frontiers_decode :: "bytes \<Rightarrow> bool"
  lo_fork_at :: "bytes \<Rightarrow> 'd \<Rightarrow> 'd option"
  lo_revert_to :: "bytes \<Rightarrow> 'd \<Rightarrow> 'd loro_call"
  lo_change_ancestors :: "bytes \<Rightarrow> 'd \<Rightarrow> change_meta list"
  lo_frontier_of_id :: "u64 \<Rightarrow> int \<Rightarrow> bytes"

text \<open>
  \<open>map_err(|e| CoreError::Manifest(e.to_string()))\<close>
\<close>

definition loro_step :: "'d \<times> (string + 'a) \<Rightarrow> ('d, core_error, 'a) step" where
  "loro_step r = (case r of (d, Inl e) \<Rightarrow> (d, Inl (ManifestError e)) | (d, Inr x) \<Rightarrow> (d, Inr x))"

lemma loro_step_simps [simp]:
  "loro_step (d, Inl e) = (d, Inl (ManifestError e))" "loro_step (d, Inr x) = (d, Inr x)"
  by (simp_all add: loro_step_def)

section \<open>Hexadecimal\<close>

text \<open>\<open>hex\<close> and \<open>unhex\<close> of \<open>manifest.rs\<close>, and \<open>unhex_bytes\<close> of \<open>state.rs\<close>, which is the same.\<close>

definition hex_digit :: "nat \<Rightarrow> char" where
  "hex_digit n = ''0123456789abcdef'' ! n"

definition hex_byte :: "byte \<Rightarrow> string" where
  "hex_byte b = [hex_digit (unat b div 16), hex_digit (unat b mod 16)]"

definition hex :: "bytes \<Rightarrow> string" where
  "hex bs = concat (map hex_byte bs)"

definition digit_value :: "char \<Rightarrow> nat option" where
  "digit_value c = (let n = of_char c :: nat in
     if 48 \<le> n \<and> n \<le> 57 then Some (n - 48)
     else if 97 \<le> n \<and> n \<le> 102 then Some (n - 87)
     else if 65 \<le> n \<and> n \<le> 70 then Some (n - 55) else None)"

text \<open>\<open>u8::from_str_radix(s, 16)\<close> on two bytes: a leading plus sign is accepted.\<close>

definition from_str_radix16 :: "char \<Rightarrow> char \<Rightarrow> byte option" where
  "from_str_radix16 c d =
     (if c = CHR ''+'' then map_option of_nat (digit_value d)
      else case (digit_value c, digit_value d) of
        (Some a, Some b) \<Rightarrow> Some (of_nat (16 * a + b)) | _ \<Rightarrow> None)"

text \<open>
  The slice \<open>&raw[i..i + 2]\<close> panics when it would cut a character in two; \<open>unhex\<close> is the result
  when it does not, and \<open>unhex_panics\<close> says when it does: at an even offset inside, the next byte
  continues a UTF-8 character. A string of odd length is refused before it is cut.
\<close>

fun unhex_pairs :: "string \<Rightarrow> bytes option" where
  "unhex_pairs (c # d # raw) = (case from_str_radix16 c d of None \<Rightarrow> None
     | Some b \<Rightarrow> (case unhex_pairs raw of None \<Rightarrow> None | Some bs \<Rightarrow> Some (b # bs)))"
| "unhex_pairs raw = Some []"

definition unhex :: "string \<Rightarrow> bytes option" where
  "unhex raw = (if odd (length raw) then None else unhex_pairs raw)"

definition utf8_continuation :: "char \<Rightarrow> bool" where
  "utf8_continuation c \<longleftrightarrow> 128 \<le> (of_char c :: nat) \<and> (of_char c :: nat) < 192"

text \<open>The iterator stops at the first pair that does not parse, before it cuts any further.\<close>

fun unhex_pairs_cut :: "string \<Rightarrow> bool" where
  "unhex_pairs_cut (c # d # raw) = ((raw \<noteq> [] \<and> utf8_continuation (hd raw))
     \<or> from_str_radix16 c d \<noteq> None \<and> unhex_pairs_cut raw)"
| "unhex_pairs_cut raw = False"

definition unhex_panics :: "string \<Rightarrow> bool" where
  "unhex_panics raw \<longleftrightarrow> even (length raw) \<and> unhex_pairs_cut raw"

text \<open>The word a big-endian array of \<open>n\<close> bytes stands for; \<open>None\<close> when the length is another.\<close>

definition be_word :: "nat \<Rightarrow> bytes \<Rightarrow> ('w::len) word option" where
  "be_word n bs = (if length bs = n then Some (foldl (\<lambda>w b. push_bit 8 w OR ucast b) 0 bs) else None)"

definition unhex_16 :: "string \<Rightarrow> bytes16 option" where
  "unhex_16 raw = Option.bind (unhex raw) (be_word 16)"

definition unhex_32 :: "string \<Rightarrow> bytes32 option" where
  "unhex_32 raw = Option.bind (unhex raw) (be_word 32)"

definition unhex_u64 :: "string \<Rightarrow> u64 option" where
  "unhex_u64 raw = Option.bind (unhex raw) (be_word 8)"

section \<open>Versions\<close>

text \<open>\<open>version.rs\<close>. A \<open>VersionId\<close> is the encoding of a Loro frontier.\<close>

type_synonym version_id = bytes

record asset_version =
  av_content :: document_uuid
  av_meta :: asset_meta
  av_author :: bytes32
  av_at :: unix_seconds
  av_seq :: u64

record checkpoint =
  cp_name :: string
  cp_message :: string
  cp_author :: bytes32
  cp_at :: unix_seconds
  cp_entries :: "(document_uuid \<times> version_id) list"

record version_info =
  vi_id :: version_id
  vi_author :: "bytes32 option"
  vi_at :: unix_seconds
  vi_ops :: nat

datatype restore_outcome =
    Restored document_uuid
  | Unchanged document_uuid
  | Deleted document_uuid
  | Unavailable document_uuid

text \<open>\<open>postcard\<close> at the types the crate encodes; \<open>None\<close> is an encoding or decoding error.\<close>

record codec =
  pc_encode_version :: "asset_version \<Rightarrow> bytes option"
  pc_decode_version :: "bytes \<Rightarrow> asset_version option"
  pc_encode_meta :: "asset_meta \<Rightarrow> bytes option"
  pc_decode_meta :: "bytes \<Rightarrow> asset_meta option"
  pc_encode_checkpoint :: "checkpoint \<Rightarrow> bytes option"
  pc_decode_checkpoint :: "bytes \<Rightarrow> checkpoint option"

definition version_from_frontiers :: "bytes \<Rightarrow> version_id" where
  "version_from_frontiers frontiers = frontiers"

text \<open>The first six bytes in hexadecimal, with dots when there are more.\<close>

definition version_display :: "version_id \<Rightarrow> string" where
  "version_display v = hex (take 6 v) @ (if 6 < length v then ''..'' else [])"

definition version_to_frontiers :: "'d loro \<Rightarrow> version_id \<Rightarrow> bytes core_result" where
  "version_to_frontiers L v = (if lo_frontiers_decode L v then Inr v else Inl (UnknownVersion (version_display v)))"

definition asset_version_digest :: "hash_lib \<Rightarrow> codec \<Rightarrow> asset_version \<Rightarrow> bytes32" where
  "asset_version_digest H P v = (case pc_encode_version P v of None \<Rightarrow> 0 | Some bs \<Rightarrow> hl_hash H bs)"

definition precedence :: "asset_version \<Rightarrow> u64 \<times> unix_seconds \<times> bytes16" where
  "precedence v = (av_seq v, av_at v, av_content v)"

definition checkpoint_digest :: "hash_lib \<Rightarrow> codec \<Rightarrow> checkpoint \<Rightarrow> bytes32" where
  "checkpoint_digest H P c = (case pc_encode_checkpoint P c of None \<Rightarrow> 0 | Some bs \<Rightarrow> hl_hash H bs)"

end
