(* ===== verification/Manifest.thy ===== *)
theory Manifest
  imports Loro
begin

text \<open>
  The encrypted manifest (\<open>manifest.rs\<close>): the files, users, devices, author claims, checkpoints and
  asset versions of a workspace, all of them claims kept in one Loro document that any member may
  write. The state of a \<open>Manifest\<close> is its document.
\<close>

definition FILES_CONTAINER :: string where "FILES_CONTAINER = ''files''"
definition USERS_CONTAINER :: string where "USERS_CONTAINER = ''users''"
definition DEVICES_CONTAINER :: string where "DEVICES_CONTAINER = ''devices''"
definition META_CONTAINER :: string where "META_CONTAINER = ''meta''"
definition AUTHORS_CONTAINER :: string where "AUTHORS_CONTAINER = ''authors''"
definition CHECKPOINTS_CONTAINER :: string where "CHECKPOINTS_CONTAINER = ''checkpoints''"
definition VERSION_PREFIX :: string where "VERSION_PREFIX = ''version:''"

record user_record =
  ur_id :: bytes32
  ur_display_name :: string

record device_display =
  dd_member :: bytes32
  dd_endpoint_id :: "bytes32 option"
  dd_label :: string

record device_record =
  dr_member :: bytes32
  dr_user :: bytes32
  dr_endpoint_id :: "bytes32 option"
  dr_label :: string

record workspace_info =
  wi_name :: string
  wi_description :: string

record file_entry =
  fe_uuid :: document_uuid
  fe_logical_path :: string
  fe_mime_type :: string
  fe_asset :: "asset_meta option"

abbreviation hex32 :: "bytes32 \<Rightarrow> string" where
  "hex32 w \<equiv> hex (be_bytes 32 w)"

abbreviation hex16 :: "bytes16 \<Rightarrow> string" where
  "hex16 w \<equiv> hex (be_bytes 16 w)"

section \<open>Reading a map\<close>

text \<open>\<open>into_container().ok()?.into_map().ok()\<close> and \<open>into_value().ok()?.into_string().ok()\<close>\<close>

fun as_map :: "loro_entry \<Rightarrow> loro_map option" where
  "as_map (LMap m) = Some m" | "as_map _ = None"

fun as_string :: "loro_entry \<Rightarrow> string option" where
  "as_string (LString s) = Some s" | "as_string _ = None"

definition string_field :: "loro_map \<Rightarrow> string \<Rightarrow> string option" where
  "string_field m field = Option.bind (map_of m field) as_string"

definition nested_field :: "loro_map \<Rightarrow> string \<Rightarrow> string \<Rightarrow> string option" where
  "nested_field m key field = Option.bind (Option.bind (map_of m key) as_map) (\<lambda>node. string_field node field)"

definition or_default :: "string option \<Rightarrow> string" where
  "or_default s = (case s of None \<Rightarrow> [] | Some x \<Rightarrow> x)"

section \<open>Operations\<close>

definition manifest_new :: "'d loro \<Rightarrow> 'd" where
  "manifest_new L = lo_new L"

definition set_peer_id :: "'d loro \<Rightarrow> u64 \<Rightarrow> 'd \<Rightarrow> ('d, core_error, unit) step" where
  "set_peer_id L peer d = loro_step (lo_set_peer_id L peer d)"

text \<open>\<open>map.insert(k, v).map_err(..)?\<close>, and the commit that ends a write.\<close>

definition put :: "'d loro \<Rightarrow> string list \<Rightarrow> string \<Rightarrow> string \<Rightarrow> 'd \<Rightarrow> ('d, core_error, unit) step" where
  "put L path key v d = loro_step (lo_map_insert L path key v d)"

definition committed :: "'d loro \<Rightarrow> 'd \<Rightarrow> ('d, core_error, unit) step" where
  "committed L d = (lo_commit L d, Inr ())"

definition set_info :: "'d loro \<Rightarrow> workspace_info \<Rightarrow> 'd \<Rightarrow> ('d, core_error, unit) step" where
  "set_info L info d =
     and_then (put L [META_CONTAINER] ''name'' (wi_name info) d) (\<lambda>_ d.
     and_then (put L [META_CONTAINER] ''description'' (wi_description info) d) (\<lambda>_ d. committed L d))"

definition manifest_info :: "'d loro \<Rightarrow> 'd \<Rightarrow> workspace_info" where
  "manifest_info L d = (let meta = lo_get_map L d META_CONTAINER in
     \<lparr>wi_name = or_default (string_field meta ''name''),
      wi_description = or_default (string_field meta ''description'')\<rparr>)"

definition set_user :: "'d loro \<Rightarrow> bytes32 \<Rightarrow> string \<Rightarrow> 'd \<Rightarrow> ('d, core_error, unit) step" where
  "set_user L user display_name d =
     and_then (loro_step (lo_map_insert_container L USERS_CONTAINER (hex32 user) d)) (\<lambda>_ d.
     and_then (put L [USERS_CONTAINER, hex32 user] ''display_name'' display_name d) (\<lambda>_ d. committed L d))"

definition manifest_user :: "'d loro \<Rightarrow> bytes32 \<Rightarrow> 'd \<Rightarrow> user_record option" where
  "manifest_user L user d =
     map_option (\<lambda>name. \<lparr>ur_id = user, ur_display_name = name\<rparr>)
       (nested_field (lo_get_map L d USERS_CONTAINER) (hex32 user) ''display_name'')"

definition users :: "'d loro \<Rightarrow> 'd \<Rightarrow> user_record list" where
  "users L d = List.map_filter (\<lambda>(key, _). Option.bind (unhex_32 key) (\<lambda>u. manifest_user L u d))
     (lo_get_map L d USERS_CONTAINER)"

definition set_device :: "'d loro \<Rightarrow> bytes32 \<Rightarrow> string \<Rightarrow> 'd \<Rightarrow> ('d, core_error, unit) step" where
  "set_device L m label d =
     and_then (loro_step (lo_map_insert_container L DEVICES_CONTAINER (hex32 m) d)) (\<lambda>_ d.
     and_then (put L [DEVICES_CONTAINER, hex32 m] ''label'' label d) (\<lambda>_ d. committed L d))"

definition set_device_endpoint :: "'d loro \<Rightarrow> bytes32 \<Rightarrow> bytes32 \<Rightarrow> 'd \<Rightarrow> ('d, core_error, unit) step" where
  "set_device_endpoint L m endpoint_id d =
     (case Option.bind (map_of (lo_get_map L d DEVICES_CONTAINER) (hex32 m)) as_map of
        None \<Rightarrow> (d, Inl UnknownDevice)
      | Some _ \<Rightarrow> and_then (put L [DEVICES_CONTAINER, hex32 m] ''endpoint_id'' (hex32 endpoint_id) d)
                   (\<lambda>_ d. committed L d))"

definition manifest_device :: "'d loro \<Rightarrow> bytes32 \<Rightarrow> 'd \<Rightarrow> device_display option" where
  "manifest_device L m d =
     (let devices = lo_get_map L d DEVICES_CONTAINER; key = hex32 m;
          label = nested_field devices key ''label'';
          endpoint_id = Option.bind (nested_field devices key ''endpoint_id'') unhex_32
      in if label = None \<and> endpoint_id = None then None
         else Some \<lparr>dd_member = m, dd_endpoint_id = endpoint_id, dd_label = or_default label\<rparr>)"

definition manifest_devices :: "'d loro \<Rightarrow> 'd \<Rightarrow> device_display list" where
  "manifest_devices L d = List.map_filter (\<lambda>(key, _). Option.bind (unhex_32 key) (\<lambda>m. manifest_device L m d))
     (lo_get_map L d DEVICES_CONTAINER)"

definition set_author :: "'d loro \<Rightarrow> bytes32 \<Rightarrow> bytes32 \<Rightarrow> 'd \<Rightarrow> ('d, core_error, unit) step" where
  "set_author L m author d =
     and_then (put L [AUTHORS_CONTAINER] (hex32 author) (hex32 m) d) (\<lambda>_ d. committed L d)"

definition member_for_author :: "'d loro \<Rightarrow> bytes32 \<Rightarrow> 'd \<Rightarrow> bytes32 option" where
  "member_for_author L author d =
     Option.bind (string_field (lo_get_map L d AUTHORS_CONTAINER) (hex32 author)) unhex_32"

definition file_node :: "'d loro \<Rightarrow> document_uuid \<Rightarrow> 'd \<Rightarrow> ('d, core_error, string list) step" where
  "file_node L uuid d =
     (let key = hex16 uuid; path = [FILES_CONTAINER, key] in
      case map_of (lo_get_map L d FILES_CONTAINER) key of
        Some (LMap _) \<Rightarrow> (d, Inr path)
      | Some LContainer \<Rightarrow> (d, Inl (ManifestError ''files entry is not a map''))
      | _ \<Rightarrow> and_then (loro_step (lo_map_insert_container L FILES_CONTAINER key d)) (\<lambda>_ d. (d, Inr path)))"

definition add_asset_version ::
  "'d loro \<Rightarrow> hash_lib \<Rightarrow> codec \<Rightarrow> document_uuid \<Rightarrow> asset_version \<Rightarrow> 'd \<Rightarrow> ('d, core_error, unit) step" where
  "add_asset_version L H P uuid v d =
     (if map_of (lo_get_map L d FILES_CONTAINER) (hex16 uuid) = None then (d, Inl UnknownDocument)
      else and_then (file_node L uuid d) (\<lambda>path d.
        case pc_encode_version P v of
          None \<Rightarrow> (d, Inl (Serialization ''postcard''))
        | Some encoded \<Rightarrow>
            and_then (put L path (VERSION_PREFIX @ hex32 (asset_version_digest H P v)) (hex encoded) d)
              (\<lambda>_ d. committed L d)))"

definition recorded_versions :: "'d loro \<Rightarrow> codec \<Rightarrow> document_uuid \<Rightarrow> 'd \<Rightarrow> asset_version list" where
  "recorded_versions L P uuid d =
     (case Option.bind (map_of (lo_get_map L d FILES_CONTAINER) (hex16 uuid)) as_map of
        None \<Rightarrow> []
      | Some node \<Rightarrow> List.map_filter (\<lambda>(key, v).
          if take (length VERSION_PREFIX) key \<noteq> VERSION_PREFIX then None
          else Option.bind (Option.bind (as_string v) unhex) (pc_decode_version P)) node)"

definition legacy_asset :: "'d loro \<Rightarrow> codec \<Rightarrow> document_uuid \<Rightarrow> 'd \<Rightarrow> asset_meta option" where
  "legacy_asset L P uuid d =
     Option.bind (Option.bind (nested_field (lo_get_map L d FILES_CONTAINER) (hex16 uuid) ''asset'') unhex)
       (pc_decode_meta P)"

definition manifest_asset_versions :: "'d loro \<Rightarrow> codec \<Rightarrow> document_uuid \<Rightarrow> 'd \<Rightarrow> asset_version list" where
  "manifest_asset_versions L P uuid d =
     (let recorded = recorded_versions L P uuid d;
          out = (if recorded = [] then
                   (case legacy_asset L P uuid d of None \<Rightarrow> []
                    | Some meta \<Rightarrow> [\<lparr>av_content = uuid, av_meta = meta, av_author = 0, av_at = 0, av_seq = 0\<rparr>])
                 else recorded)
      in sort_key precedence out)"

definition upsert_file :: "'d loro \<Rightarrow> codec \<Rightarrow> file_entry \<Rightarrow> 'd \<Rightarrow> ('d, core_error, unit) step" where
  "upsert_file L P entry d =
     and_then (file_node L (fe_uuid entry) d) (\<lambda>path d.
     and_then (put L path ''logical_path'' (fe_logical_path entry) d) (\<lambda>_ d.
     and_then (put L path ''mime_type'' (fe_mime_type entry) d) (\<lambda>_ d.
     and_then (case fe_asset entry of
         None \<Rightarrow> (d, Inr ())
       | Some meta \<Rightarrow> (case pc_encode_meta P meta of
             None \<Rightarrow> (d, Inl (Serialization ''postcard''))
           | Some encoded \<Rightarrow> put L path ''asset'' (hex encoded) d)) (\<lambda>_ d. committed L d))))"

definition rename :: "'d loro \<Rightarrow> document_uuid \<Rightarrow> string \<Rightarrow> 'd \<Rightarrow> ('d, core_error, unit) step" where
  "rename L uuid new_path d =
     (case map_of (lo_get_map L d FILES_CONTAINER) (hex16 uuid) of
        Some (LMap _) \<Rightarrow> and_then (put L [FILES_CONTAINER, hex16 uuid] ''logical_path'' new_path d) (\<lambda>_ d. committed L d)
      | Some LContainer \<Rightarrow> (d, Inl (ManifestError ''files entry is not a map''))
      | _ \<Rightarrow> (d, Inl UnknownDocument))"

definition delete_file :: "'d loro \<Rightarrow> document_uuid \<Rightarrow> 'd \<Rightarrow> ('d, core_error, unit) step" where
  "delete_file L uuid d =
     (if map_of (lo_get_map L d FILES_CONTAINER) (hex16 uuid) = None then (d, Inl UnknownDocument)
      else and_then (loro_step (lo_map_delete L FILES_CONTAINER (hex16 uuid) d)) (\<lambda>_ d. committed L d))"

text \<open>\<open>Iterator::max_by_key\<close>: of several maximal elements the last.\<close>

definition max_by_key :: "('a \<Rightarrow> 'k::linorder) \<Rightarrow> 'a list \<Rightarrow> 'a option" where
  "max_by_key f xs = fold (\<lambda>x best. case best of None \<Rightarrow> Some x | Some y \<Rightarrow> if f y \<le> f x then Some x else Some y) xs None"

definition files :: "'d loro \<Rightarrow> codec \<Rightarrow> 'd \<Rightarrow> file_entry list" where
  "files L P d = List.map_filter (\<lambda>(key, v).
     case unhex_16 key of None \<Rightarrow> None
     | Some uuid \<Rightarrow> (case as_map v of None \<Rightarrow> None
       | Some node \<Rightarrow>
         let get = (\<lambda>name. or_default (string_field node name));
             asset = (case max_by_key precedence (recorded_versions L P uuid d) of
                 Some current \<Rightarrow> Some (av_meta current)
               | None \<Rightarrow> let raw = get ''asset'' in
                   if raw = [] then None else Option.bind (unhex raw) (pc_decode_meta P))
         in Some \<lparr>fe_uuid = uuid, fe_logical_path = get ''logical_path'', fe_mime_type = get ''mime_type'',
                  fe_asset = asset\<rparr>)) (lo_get_map L d FILES_CONTAINER)"

definition resolve_path :: "'d loro \<Rightarrow> codec \<Rightarrow> string \<Rightarrow> 'd \<Rightarrow> document_uuid option" where
  "resolve_path L P path d = map_option fe_uuid (find (\<lambda>f. fe_logical_path f = path) (files L P d))"

definition add_checkpoint :: "'d loro \<Rightarrow> hash_lib \<Rightarrow> codec \<Rightarrow> checkpoint \<Rightarrow> 'd \<Rightarrow> ('d, core_error, unit) step" where
  "add_checkpoint L H P cp d =
     (case pc_encode_checkpoint P cp of
        None \<Rightarrow> (d, Inl (Serialization ''postcard''))
      | Some encoded \<Rightarrow>
          and_then (put L [CHECKPOINTS_CONTAINER] (hex32 (checkpoint_digest H P cp)) (hex encoded) d)
            (\<lambda>_ d. committed L d))"

text \<open>Newest first, by instant and then digest: ascending in the negated keys.\<close>

definition newest_first :: "hash_lib \<Rightarrow> codec \<Rightarrow> checkpoint \<Rightarrow> int \<times> bytes32" where
  "newest_first H P c = (- cp_at c, NOT (checkpoint_digest H P c))"

definition manifest_checkpoints :: "'d loro \<Rightarrow> hash_lib \<Rightarrow> codec \<Rightarrow> 'd \<Rightarrow> checkpoint list" where
  "manifest_checkpoints L H P d =
     sort_key (newest_first H P)
       (List.map_filter (\<lambda>(_, v). Option.bind (Option.bind (as_string v) unhex) (pc_decode_checkpoint P))
         (lo_get_map L d CHECKPOINTS_CONTAINER))"

definition checkpoint_named :: "'d loro \<Rightarrow> hash_lib \<Rightarrow> codec \<Rightarrow> string \<Rightarrow> 'd \<Rightarrow> checkpoint option" where
  "checkpoint_named L H P name d = find (\<lambda>c. cp_name c = name) (manifest_checkpoints L H P d)"

definition manifest_checkpoint :: "'d loro \<Rightarrow> hash_lib \<Rightarrow> codec \<Rightarrow> bytes32 \<Rightarrow> 'd \<Rightarrow> checkpoint option" where
  "manifest_checkpoint L H P digest d =
     find (\<lambda>c. checkpoint_digest H P c = digest) (manifest_checkpoints L H P d)"

definition export_snapshot :: "'d loro \<Rightarrow> 'd \<Rightarrow> ('d, core_error, bytes) step" where
  "export_snapshot L d = loro_step (lo_export L Snapshot (lo_commit L d))"

definition manifest_import :: "'d loro \<Rightarrow> bytes \<Rightarrow> 'd \<Rightarrow> ('d, core_error, unit) step" where
  "manifest_import L bs d = and_then (loro_step (lo_import L bs d)) (\<lambda>_ d. (d, Inr ()))"

end
