(* ===== verification/Manifest_Properties.thy ===== *)
theory Manifest_Properties
  imports Manifest "HOL-Library.Multiset"
begin

text \<open>
  Correctness of the manifest: hexadecimal keys read back, listings that depend on what is stored and
  not on the order Loro visits it in, and one answer to which version of an asset is current.
\<close>

section \<open>Hexadecimal\<close>

lemma digit_value_hex_digit: "n < 16 \<Longrightarrow> digit_value (hex_digit n) = Some n"
proof -
  have "\<forall>n \<in> set [0..<16]. digit_value (hex_digit n) = Some n" by code_simp
  then show "n < 16 \<Longrightarrow> ?thesis" by simp
qed

lemma hex_digit_ascii: "n < 16 \<Longrightarrow> hex_digit n \<noteq> CHR ''+'' \<and> \<not> utf8_continuation (hex_digit n)"
proof -
  have "\<forall>n \<in> set [0..<16]. hex_digit n \<noteq> CHR ''+'' \<and> \<not> utf8_continuation (hex_digit n)" by code_simp
  then show "n < 16 \<Longrightarrow> ?thesis" by simp
qed

lemma byte_digits: "unat b div 16 < 16" "unat b mod 16 < 16" for b :: byte
proof -
  have "unat b < 256" using unsigned_less [of b, where 'a = nat] by simp
  then show "unat b div 16 < 16" "unat b mod 16 < 16" by auto
qed

lemma from_str_radix16_hex:
  "from_str_radix16 (hex_digit (unat b div 16)) (hex_digit (unat b mod 16)) = Some b" for b :: byte
  using hex_digit_ascii [OF byte_digits(1), of b] byte_digits [of b]
  by (simp add: from_str_radix16_def digit_value_hex_digit mult_div_mod_eq)

lemma length_hex: "length (hex bs) = 2 * length bs"
  by (induction bs) (simp_all add: hex_def hex_byte_def)

lemma unhex_pairs_hex: "unhex_pairs (hex bs) = Some bs"
proof (induction bs)
  case (Cons b bs)
  have "hex (b # bs) = hex_digit (unat b div 16) # hex_digit (unat b mod 16) # hex bs"
    by (simp add: hex_def hex_byte_def)
  with Cons from_str_radix16_hex [of b] show ?case by simp
qed (simp add: hex_def)

lemma hd_hex: "bs \<noteq> [] \<Longrightarrow> hd (hex bs) = hex_digit (unat (hd bs) div 16)"
  by (cases bs) (simp_all add: hex_def hex_byte_def)

lemma unhex_pairs_cut_hex: "\<not> unhex_pairs_cut (hex bs)"
proof (induction bs)
  case (Cons b bs)
  have "hex (b # bs) = hex_digit (unat b div 16) # hex_digit (unat b mod 16) # hex bs"
    by (simp add: hex_def hex_byte_def)
  moreover have "hex bs \<noteq> [] \<Longrightarrow> \<not> utf8_continuation (hd (hex bs))"
    using hd_hex [of bs] hex_digit_ascii [OF byte_digits(1), of "hd bs"] by (cases bs) (auto simp: hex_def)
  ultimately show ?case using Cons by auto
qed (simp add: hex_def)

text \<open>
  What the crate writes in hexadecimal it reads back, without a panic.
\<close>

theorem unhex_hex: "unhex (hex bs) = Some bs \<and> \<not> unhex_panics (hex bs)"
  by (simp add: unhex_def unhex_panics_def length_hex unhex_pairs_hex unhex_pairs_cut_hex)

text \<open>
  Reading a key that somebody else wrote can panic: a string of even length whose first pair
  ends inside a two-byte character is cut there.
\<close>

theorem unhex_can_panic: "unhex_panics [CHR ''a'', CHR 0xC3, CHR 0xA9, CHR ''b'']"
  by code_simp

section \<open>Listings\<close>

text \<open>Sorting by a key that tells the elements apart forgets the order they came in.\<close>

lemma sort_key_determined:
  assumes "mset xs = mset ys" and "inj_on f (set xs)"
  shows "sort_key f xs = sort_key f ys"
proof -
  have "map f (sort_key f xs) = sort (map f xs)"
    by (rule properties_for_sort [symmetric]) simp_all
  moreover have "map f (sort_key f ys) = sort (map f xs)"
    by (rule properties_for_sort [symmetric]) (simp_all add: assms(1))
  moreover have "set ys = set xs" using assms(1) by (metis set_mset_mset)
  ultimately show ?thesis
    using assms(2) by (intro map_inj_on [of f]) simp_all
qed

lemma mset_map_filter: "mset xs = mset ys \<Longrightarrow> mset (List.map_filter f xs) = mset (List.map_filter f ys)"
  by (simp add: List.map_filter_def)

text \<open>
  The checkpoints of a workspace are listed in one order, newest first, on every replica that holds
  the same records, whatever order the document visits them in; so a name resolves to the same
  checkpoint everywhere.
\<close>

theorem checkpoints_order_independent:
  assumes "mset (lo_get_map L d CHECKPOINTS_CONTAINER) = mset (lo_get_map L d' CHECKPOINTS_CONTAINER)"
    and "inj_on (checkpoint_digest H P) (set (manifest_checkpoints L H P d))"
  shows "manifest_checkpoints L H P d = manifest_checkpoints L H P d'
    \<and> checkpoint_named L H P name d = checkpoint_named L H P name d'"
proof -
  let ?read = "List.map_filter (\<lambda>(_, v). Option.bind (Option.bind (as_string v) unhex) (pc_decode_checkpoint P))"
  have "inj_on (newest_first H P) (set (?read (lo_get_map L d CHECKPOINTS_CONTAINER)))"
    using assms(2) unfolding manifest_checkpoints_def
    by (auto simp: inj_on_def newest_first_def)
  then have "manifest_checkpoints L H P d = manifest_checkpoints L H P d'"
    unfolding manifest_checkpoints_def by (rule sort_key_determined [OF mset_map_filter [OF assms(1)]])
  then show ?thesis by (simp add: checkpoint_named_def)
qed

lemma last_insort_key:
  assumes "sorted (map f s)" and "s \<noteq> []"
  shows "last (insort_key f a s) = (if f a \<le> f (last s) then last s else a)"
  using assms
proof (induction s)
  case (Cons x s)
  then show ?case by (cases s) (auto dest: order_trans)
qed simp

lemma last_sort_key_Cons:
  assumes "xs \<noteq> []"
  shows "last (sort_key f (a # xs)) = (if f a \<le> f (last (sort_key f xs)) then last (sort_key f xs) else a)"
proof -
  have "sort_key f xs \<noteq> []" using assms by (metis length_sort length_0_conv)
  then show ?thesis using last_insort_key [of f "sort_key f xs" a] by simp
qed

lemma max_by_key_fold:
  "fold (\<lambda>x best. case best of None \<Rightarrow> Some x | Some y \<Rightarrow> if f y \<le> f x then Some x else Some y) xs (Some y)
     = Some (last (sort_key f (y # xs)))"
proof (induction xs arbitrary: y)
  case (Cons x xs)
  let ?z = "if f y \<le> f x then x else y"
  have "last (sort_key f (?z # xs)) = last (sort_key f (y # x # xs))"
  proof (cases "xs = []")
    case False
    then show ?thesis
      using last_sort_key_Cons [of xs f ?z] last_sort_key_Cons [of xs f x] last_sort_key_Cons [of "x # xs" f y]
      by (auto simp del: sort_key_simps)
  qed simp
  with Cons [of ?z] show ?case by (cases "f y \<le> f x") simp_all
qed simp

lemma max_by_key_last: "xs \<noteq> [] \<Longrightarrow> max_by_key f xs = Some (last (sort_key f xs))"
  by (cases xs) (simp_all add: max_by_key_def max_by_key_fold del: sort_key_simps)

text \<open>
  The listing of files and the version list of an asset agree on what is current: a file with
  recorded versions shows the size and digest of the last version of its list.
\<close>

theorem current_asset_agrees:
  assumes "f \<in> set (files L P d)" and "recorded_versions L P (fe_uuid f) d \<noteq> []"
  shows "fe_asset f = Some (av_meta (last (manifest_asset_versions L P (fe_uuid f) d)))"
proof -
  from assms(1) have "fe_asset f = (case max_by_key precedence (recorded_versions L P (fe_uuid f) d) of
      Some current \<Rightarrow> Some (av_meta current) | None \<Rightarrow> fe_asset f)"
    by (auto simp: files_def set_map_filter Let_def split: option.splits)
  with max_by_key_last [OF assms(2), of precedence] show ?thesis
    using assms(2) by (simp add: manifest_asset_versions_def)
qed

end
