(* ===== verification/Protocol.thy ===== *)
theory Protocol
  imports Keys Manifest
begin

text \<open>
  The vocabulary of the workspace state machine: the events it handles and the effects it asks its
  driver to perform (\<open>state.rs\<close>), and the messages of the control plane (\<open>wire.rs\<close>). Boxes and
  \<open>Arc\<close>s are what they hold.
\<close>

section \<open>Namespaces and repairs\<close>

datatype repair_target =
    RepairNamespace
  | RepairDocument document_uuid
  | RepairDocumentHistory document_uuid
  | RepairAssetKey document_uuid
  | RepairManifest

text \<open>The derived \<open>Ord\<close> compares the generation first, then the digest of its ticket.\<close>

datatype namespace_epoch = NamespaceEpoch (ns_epoch: u32) (ns_digest: bytes32)

instantiation namespace_epoch :: linorder
begin

definition less_eq_namespace_epoch :: "namespace_epoch \<Rightarrow> namespace_epoch \<Rightarrow> bool" where
  "less_eq_namespace_epoch a b \<longleftrightarrow> (ns_epoch a, ns_digest a) \<le> (ns_epoch b, ns_digest b)"

definition less_namespace_epoch :: "namespace_epoch \<Rightarrow> namespace_epoch \<Rightarrow> bool" where
  "less_namespace_epoch a b \<longleftrightarrow> (ns_epoch a, ns_digest a) < (ns_epoch b, ns_digest b)"

instance
  by standard (auto simp: less_eq_namespace_epoch_def less_namespace_epoch_def namespace_epoch.expand)

end

definition NAMESPACE_INITIAL :: namespace_epoch where
  "NAMESPACE_INITIAL = NamespaceEpoch 0 0"

definition namespace_epoch_of :: "hash_lib \<Rightarrow> u32 \<Rightarrow> bytes \<Rightarrow> namespace_epoch" where
  "namespace_epoch_of H epoch ticket = NamespaceEpoch epoch (hl_hash H ticket)"

section \<open>Events and effects\<close>

datatype event =
    EvControlOp authorized_op
  | EvCertsArrived "certificate list"
  | EvChunkArrived document_uuid chunk
  | EvLocalEdit document_uuid string
  | EvWriteFile document_uuid string
  | EvInsertText document_uuid nat string
  | EvRemoveText document_uuid nat nat
  | EvRevertDocument document_uuid version_id
  | EvDeleteFile document_uuid
  | EvAddUser bytes32 bytes32 role string "bytes32 option"
  | EvAddDevice bytes32 bytes32 bytes32 string "bytes32 option"
  | EvRemoveMember bytes32
  | EvPropose admin_action "u64 option"
  | EvResyncCertificates
  | EvApprove bytes32
  | EvLeave
  | EvRotate
  | EvManifestArrived chunk
  | EvUpsertFile file_entry
  | EvRenameFile document_uuid string
  | EvSetRole bytes32 role
  | EvSetInfo workspace_info
  | EvSetDisplayName string
  | EvAnnounceAuthor bytes32
  | EvAnnounceEndpoint bytes32
  | EvResync document_uuid
  | EvNamespaceMinted u32 bytes
  | EvNamespaceArrived u32 chunk
  | EvResyncNamespace
  | EvResyncManifest
  | EvRepairRequested bytes32 repair_target epoch_id

definition ANNOUNCED_ONCE :: "event list" where
  "ANNOUNCED_ONCE = [EvResyncManifest, EvResyncNamespace, EvResyncCertificates]"

datatype effect =
    BroadcastOp control_op "certificate list"
  | BroadcastCerts "certificate list"
  | EvictUncertified bytes32
  | StoreChunk storage_key_bytes document_uuid chunk
  | StoreManifest storage_key_bytes chunk
  | DeleteEntry storage_key_bytes document_uuid
  | DeleteAssetSegments bytes24 document_uuid
  | AppliedDoc document_uuid
  | ManifestUpdated
  | RotateNamespace u32
  | PublishNamespace u32 chunk
  | AdoptNamespace u32 bytes
  | RequestRepair repair_target epoch_id
  | ResealAssetKey bytes32 document_uuid

definition broadcast :: "control_op \<Rightarrow> effect" where
  "broadcast op = BroadcastOp op []"

section \<open>Control-plane messages\<close>

definition MAX_LOG_OPS :: nat where
  "MAX_LOG_OPS = 100000"

definition MAX_LOG_CERTS :: nat where
  "MAX_LOG_CERTS = 10000"

datatype control_msg =
    MsgOp control_op "certificate list"
  | MsgLog "control_op list" "certificate list"
  | MsgCerts "certificate list"
  | MsgAnnounce bytes32
  | MsgRepair bytes32 repair_target epoch_id
  | MsgNamespace u32 chunk

text \<open>\<open>postcard\<close> at the two wire types.\<close>

record wire_codec =
  wc_encode_msg :: "control_msg \<Rightarrow> bytes option"
  wc_decode_msg :: "bytes \<Rightarrow> control_msg option"
  wc_encode_chunk :: "chunk \<Rightarrow> bytes option"
  wc_decode_chunk :: "bytes \<Rightarrow> chunk option"

definition serialized :: "'a option \<Rightarrow> 'a core_result" where
  "serialized r = (case r of None \<Rightarrow> Inl (Serialization ''postcard'') | Some x \<Rightarrow> Inr x)"

definition msg_encode :: "wire_codec \<Rightarrow> control_msg \<Rightarrow> bytes core_result" where
  "msg_encode C m = serialized (wc_encode_msg C m)"

definition msg_decode :: "wire_codec \<Rightarrow> bytes \<Rightarrow> control_msg core_result" where
  "msg_decode C bs = serialized (wc_decode_msg C bs)"

definition encode_chunk :: "wire_codec \<Rightarrow> chunk \<Rightarrow> bytes core_result" where
  "encode_chunk C ch = serialized (wc_encode_chunk C ch)"

definition decode_chunk :: "wire_codec \<Rightarrow> bytes \<Rightarrow> chunk core_result" where
  "decode_chunk C bs = serialized (wc_decode_chunk C bs)"

fun answer_cooldown_key :: "control_msg \<Rightarrow> bytes32 option" where
  "answer_cooldown_key (MsgRepair m _ _) = Some m"
| "answer_cooldown_key (MsgOp _ _) = None"
| "answer_cooldown_key (MsgLog _ _) = None"
| "answer_cooldown_key (MsgCerts _) = None"
| "answer_cooldown_key (MsgAnnounce _) = None"
| "answer_cooldown_key (MsgNamespace _ _) = None"

end
