(* ===== verification/Workspace.thy ===== *)
theory Workspace
  imports Protocol
begin

text \<open>
  The workspace state machine (\<open>state.rs\<close>): the whole state one device keeps of a workspace, and one
  definition per handler, composed by \<open>handle\<close> as the code composes them. A handler returns the new
  state and either an error or the list of effects its driver has to perform. The random generator an
  event comes with is the one in the controller's state; the clock is the argument \<open>now\<close>.
\<close>

section \<open>State\<close>

definition MAX_PENDING_CHUNK_BYTES :: nat where
  "MAX_PENDING_CHUNK_BYTES = 64 * 1024 * 1024"

definition MAX_PENDING_CHUNKS :: nat where
  "MAX_PENDING_CHUNKS = 4096"

definition MAX_DEP_WAIT_DRAINS :: u32 where
  "MAX_DEP_WAIT_DRAINS = 8"

definition FULL_PUBLISH_EVERY :: u32 where
  "FULL_PUBLISH_EVERY = 16"

definition DOC_AUTHORS_CONTAINER :: string where
  "DOC_AUTHORS_CONTAINER = ''authors''"

datatype chunk_verdict = CvApplied | CvAwaitingKey | CvAwaitingDeps | CvUnreachable | CvCorrupt

datatype asset_key_verdict = AkReady bytes32 | AkAwaitingKey | AkUnreachable | AkCorrupt

datatype keying = Current | Fresh

datatype extent = Delta | Full

record parked =
  pk_doc :: document_uuid
  pk_chunk :: chunk
  pk_drains :: u32

record ('c, 'r, 'd) workspace =
  w_cgka :: "('c, 'r) controller"
  w_secret :: workspace_secret
  w_manifest :: 'd
  w_docs :: "document_uuid \<rightharpoonup> 'd"
  w_pending_chunks :: "parked list"
  w_pending_bytes :: nat
  w_evicted_chunks :: u64
  w_unreadable_chunks :: u64
  w_corrupt_chunks :: u64
  w_repairs_answered :: u64
  w_last_ref :: "document_uuid \<rightharpoonup> chunk_ref"
  w_published_up_to :: "document_uuid \<rightharpoonup> bytes"
  w_deltas_since_full :: "document_uuid \<rightharpoonup> u32"
  w_endpoint_id :: "bytes32 option"
  w_namespace :: namespace_epoch
  w_executed_here :: "bytes32 set"
  w_namespace_ticket :: bytes

text \<open>Everything the crate is built on, in one record; \<open>e_fill16\<close> and \<open>e_fill32\<close> are \<open>fill_bytes\<close>.\<close>

record ('c, 'r, 'd) env =
  e_beekem :: "('c, 'r) beekem"
  e_crypto :: cert_crypto
  e_hash :: hash_lib
  e_loro :: "'d loro"
  e_codec :: codec
  e_fill16 :: "'r \<Rightarrow> 'r \<times> bytes16"
  e_fill32 :: "'r \<Rightarrow> 'r \<times> bytes32"

type_synonym ('c, 'r, 'd, 'a) wstep = "(('c, 'r, 'd) workspace, core_error, 'a) step"

abbreviation capabilities :: "('c, 'r, 'd) workspace \<Rightarrow> capability_store" where
  "capabilities W \<equiv> k_certs (w_cgka W)"

abbreviation me :: "('c, 'r, 'd) workspace \<Rightarrow> bytes32" where
  "me W \<equiv> k_member_id (w_cgka W)"

text \<open>A call on the controller, on the manifest, and a check that changes nothing.\<close>

definition on_cgka ::
  "(('c, 'r) controller \<Rightarrow> (('c, 'r) controller, core_error, 'a) step) \<Rightarrow> ('c, 'r, 'd) workspace \<Rightarrow> ('c, 'r, 'd, 'a) wstep" where
  "on_cgka f W = (case f (w_cgka W) of (K, r) \<Rightarrow> (W\<lparr>w_cgka := K\<rparr>, r))"

definition on_manifest ::
  "('d \<Rightarrow> ('d, core_error, 'a) step) \<Rightarrow> ('c, 'r, 'd) workspace \<Rightarrow> ('c, 'r, 'd, 'a) wstep" where
  "on_manifest f W = (case f (w_manifest W) of (d, r) \<Rightarrow> (W\<lparr>w_manifest := d\<rparr>, r))"

definition check :: "unit core_result \<Rightarrow> ('c, 'r, 'd) workspace \<Rightarrow> ('c, 'r, 'd, unit) wstep" where
  "check r W = (W, r)"

definition random_nonce :: "('c, 'r, 'd) env \<Rightarrow> ('c, 'r, 'd) workspace \<Rightarrow> ('c, 'r, 'd) workspace \<times> bytes16" where
  "random_nonce E W =
     (case e_fill16 E (k_rng (w_cgka W)) of (rng, nonce) \<Rightarrow> (W\<lparr>w_cgka := (w_cgka W)\<lparr>k_rng := rng\<rparr>\<rparr>, nonce))"

subsection \<open>Documents\<close>

definition new_doc :: "'d loro \<Rightarrow> 'd" where
  "new_doc L = lo_set_change_merge_interval L (- 1) (lo_new L)"

text \<open>\<open>docs.entry(doc).or_insert_with(new_doc)\<close>\<close>

definition doc_entry :: "'d loro \<Rightarrow> document_uuid \<Rightarrow> ('c, 'r, 'd) workspace \<Rightarrow> 'd" where
  "doc_entry L doc W = (case w_docs W doc of Some d \<Rightarrow> d | None \<Rightarrow> new_doc L)"

definition set_doc :: "document_uuid \<Rightarrow> 'd \<Rightarrow> ('c, 'r, 'd) workspace \<Rightarrow> ('c, 'r, 'd) workspace" where
  "set_doc doc d W = W\<lparr>w_docs := (w_docs W)(doc \<mapsto> d)\<rparr>"

definition snapshot_doc :: "'d loro \<Rightarrow> 'd \<Rightarrow> ('d, core_error, bytes) step" where
  "snapshot_doc L d = loro_step (lo_export L Snapshot (lo_commit L d))"

definition restore_doc :: "'d loro \<Rightarrow> bytes \<Rightarrow> 'd core_result" where
  "restore_doc L bs = (case loro_step (lo_import L bs (new_doc L)) of (d, Inl e) \<Rightarrow> Inl e | (d, Inr _) \<Rightarrow> Inr d)"

definition commit_at :: "'d loro \<Rightarrow> unix_seconds \<Rightarrow> 'd \<Rightarrow> 'd" where
  "commit_at L now d = lo_commit_with_timestamp L now d"

definition claim_authorship :: "'d loro \<Rightarrow> bytes32 \<Rightarrow> 'd \<Rightarrow> 'd" where
  "claim_authorship L m d =
     (let peer = hex (be_bytes 8 (lo_peer_id L d)) in
      if map_of (lo_get_map L d DOC_AUTHORS_CONTAINER) peer \<noteq> None then d
      else fst (lo_map_insert L [DOC_AUTHORS_CONTAINER] peer (hex32 m) d))"

definition document_text :: "'d loro \<Rightarrow> document_uuid \<Rightarrow> ('c, 'r, 'd) workspace \<Rightarrow> string" where
  "document_text L doc W = (case w_docs W doc of None \<Rightarrow> [] | Some d \<Rightarrow> lo_text L d)"

definition document_version :: "'d loro \<Rightarrow> document_uuid \<Rightarrow> ('c, 'r, 'd) workspace \<Rightarrow> version_id option" where
  "document_version L doc W = map_option (\<lambda>d. version_from_frontiers (lo_oplog_frontiers L d)) (w_docs W doc)"

definition document_text_at :: "'d loro \<Rightarrow> document_uuid \<Rightarrow> version_id \<Rightarrow> ('c, 'r, 'd) workspace \<Rightarrow> string core_result" where
  "document_text_at L doc v W =
     (case w_docs W doc of None \<Rightarrow> Inl UnknownDocument
      | Some d \<Rightarrow> (case version_to_frontiers L v of Inl e \<Rightarrow> Inl e
        | Inr frontiers \<Rightarrow> (case lo_fork_at L frontiers d of
             None \<Rightarrow> Inl (UnknownVersion (version_display v)) | Some at \<Rightarrow> Inr (lo_text L at))))"

definition claimed_authors :: "'d loro \<Rightarrow> 'd \<Rightarrow> u64 \<rightharpoonup> bytes32" where
  "claimed_authors L d = fold (\<lambda>(key, v) out.
     case (unhex_u64 key, Option.bind (as_string v) unhex_32) of
       (Some peer, Some m) \<Rightarrow> out(peer \<mapsto> m) | _ \<Rightarrow> out) (lo_get_map L d DOC_AUTHORS_CONTAINER) Map.empty"

text \<open>
  \<open>saturating_add\<close> and \<open>saturating_sub\<close> on \<open>i32\<close>; the span is at most \<open>i32::MAX\<close>. \<open>ChangeMeta\<close> is ordered by the
  lamport time of the change's end, then by peer.
\<close>

definition sat_i32 :: "int \<Rightarrow> int" where
  "sat_i32 i = max (- (2 ^ 31)) (min i (2 ^ 31 - 1))"

definition document_versions :: "'d loro \<Rightarrow> document_uuid \<Rightarrow> ('c, 'r, 'd) workspace \<Rightarrow> version_info list" where
  "document_versions L doc W = (case w_docs W doc of
     None \<Rightarrow> []
   | Some d \<Rightarrow>
       let authors = claimed_authors L d;
           changes = sort_key (\<lambda>m. (cm_lamport m + cm_len m, cm_peer m)) (lo_change_ancestors L (lo_oplog_frontiers L d) d)
       in map (\<lambda>m. let span = min (int (cm_len m)) (2 ^ 31 - 1);
                       final = sat_i32 (sat_i32 (cm_counter m + span) - 1)
             in \<lparr>vi_id = version_from_frontiers (lo_frontier_of_id L (cm_peer m) final), vi_author = authors (cm_peer m),
                 vi_at = cm_timestamp m, vi_ops = cm_len m\<rparr>) changes)"

section \<open>Construction and snapshots\<close>

definition joined :: "'d loro \<Rightarrow> ('c, 'r) controller \<Rightarrow> workspace_secret \<Rightarrow> u32 \<Rightarrow> ('c, 'r, 'd) workspace" where
  "joined L K secret namespace_epoch =
     \<lparr>w_cgka = K, w_secret = secret, w_manifest = manifest_new L, w_docs = Map.empty, w_pending_chunks = [],
      w_pending_bytes = 0, w_evicted_chunks = 0, w_unreadable_chunks = 0, w_corrupt_chunks = 0,
      w_repairs_answered = 0, w_last_ref = Map.empty, w_published_up_to = Map.empty,
      w_deltas_since_full = Map.empty, w_endpoint_id = None,
      w_namespace = NamespaceEpoch namespace_epoch (ns_digest NAMESPACE_INITIAL), w_executed_here = {},
      w_namespace_ticket = []\<rparr>"

definition found ::
  "('c, 'r, 'd) env \<Rightarrow> ('c, 'r) controller \<Rightarrow> workspace_secret \<Rightarrow> u32 \<Rightarrow> ('c, 'r, 'd) workspace core_result" where
  "found E K secret threshold =
     (let L = e_loro E; X = e_crypto E; W = joined L K secret (ns_epoch NAMESPACE_INITIAL); m = me W;
          r = and_then (on_manifest (set_user L m []) W) (\<lambda>_ W.
              and_then (on_manifest (set_device L m ''first device'') W) (\<lambda>_ W.
              and_then (on_cgka (certify_device X m m 0) W) (\<lambda>_ W.
              and_then (on_cgka (certify_role X m Admin 0) W) (\<lambda>_ W.
              on_cgka (certify_policy X threshold 0) W))))
      in case r of (W', Inl e) \<Rightarrow> Inl e | (W', Inr _) \<Rightarrow> Inr W')"

definition SNAPSHOT_VERSION :: u16 where
  "SNAPSHOT_VERSION = 1"

record 'c workspace_snapshot =
  ss_version :: u16
  ss_cgka :: "'c cgka_snapshot"
  ss_secret :: bytes32
  ss_manifest :: bytes
  ss_docs :: "(document_uuid \<times> bytes) list"
  ss_last_ref :: "(document_uuid \<times> chunk_ref) list"
  ss_endpoint_id :: "bytes32 option"
  ss_namespace :: namespace_epoch
  ss_namespace_ticket :: bytes
  ss_published_up_to :: "(document_uuid \<times> bytes) list"

text \<open>The entries of a \<open>HashMap\<close>, sorted by key.\<close>

definition sorted_entries :: "('k::linorder \<rightharpoonup> 'v) \<Rightarrow> ('k \<times> 'v) list" where
  "sorted_entries m = map (\<lambda>k. (k, the (m k))) (sorted_list_of_set (dom m))"

text \<open>Exporting commits the documents, which are shared cells behind \<open>&self\<close>.\<close>

fun snapshot_docs ::
  "'d loro \<Rightarrow> (document_uuid \<times> 'd) list \<Rightarrow> ('c, 'r, 'd) workspace \<Rightarrow> ('c, 'r, 'd, (document_uuid \<times> bytes) list) wstep" where
  "snapshot_docs L [] W = (W, Inr [])"
| "snapshot_docs L ((doc, d) # ds) W =
     (case snapshot_doc L d of (d', r) \<Rightarrow>
        and_then (set_doc doc d' W, r) (\<lambda>bs W.
        and_then (snapshot_docs L ds W) (\<lambda>rest W. (W, Inr ((doc, bs) # rest)))))"

definition workspace_snapshot_of :: "('c, 'r, 'd) env \<Rightarrow> ('c, 'r, 'd) workspace \<Rightarrow> ('c, 'r, 'd, 'c workspace_snapshot) wstep" where
  "workspace_snapshot_of E W =
     and_then (snapshot_docs (e_loro E) (sorted_entries (w_docs W)) W) (\<lambda>docs W.
     and_then (on_manifest (export_snapshot (e_loro E)) W) (\<lambda>manifest W.
       (W, Inr \<lparr>ss_version = SNAPSHOT_VERSION, ss_cgka = controller_snapshot (w_cgka W), ss_secret = w_secret W,
                ss_manifest = manifest, ss_docs = docs, ss_last_ref = sorted_entries (w_last_ref W),
                ss_endpoint_id = w_endpoint_id W, ss_namespace = w_namespace W,
                ss_namespace_ticket = w_namespace_ticket W,
                ss_published_up_to = sorted_entries (w_published_up_to W)\<rparr>)))"

definition workspace_from_snapshot ::
  "('c, 'r, 'd) env \<Rightarrow> 'c workspace_snapshot \<Rightarrow> 'r \<Rightarrow> ('c, 'r, 'd) workspace core_result" where
  "workspace_from_snapshot E ss csprng =
     (let L = e_loro E in
      if ss_version ss \<noteq> SNAPSHOT_VERSION then Inl (SnapshotVersion (ss_version ss) SNAPSHOT_VERSION)
      else case manifest_import L (ss_manifest ss) (manifest_new L) of
        (manifest, Inl e) \<Rightarrow> Inl e
      | (manifest, Inr _) \<Rightarrow>
          (case collect_results (map (\<lambda>(doc, bs). map_sum (\<lambda>e. e) (\<lambda>d. (doc, d)) (restore_doc L bs)) (ss_docs ss)) of
             Inl e \<Rightarrow> Inl e
           | Inr docs \<Rightarrow>
               (case controller_from_snapshot (e_beekem E) (e_crypto E) (ss_cgka ss) csprng of
                  Inl e \<Rightarrow> Inl e
                | Inr K \<Rightarrow> Inr
                    \<lparr>w_cgka = K, w_secret = ss_secret ss, w_manifest = manifest,
                     w_docs = fold (\<lambda>(doc, d) m. m(doc \<mapsto> d)) docs Map.empty,
                     w_pending_chunks = [], w_pending_bytes = 0, w_evicted_chunks = 0,
                     w_unreadable_chunks = 0, w_corrupt_chunks = 0, w_repairs_answered = 0,
                     w_last_ref = fold (\<lambda>(doc, r) m. m(doc \<mapsto> r)) (ss_last_ref ss) Map.empty,
                     w_published_up_to = fold (\<lambda>(doc, v) m. m(doc \<mapsto> v)) (ss_published_up_to ss) Map.empty,
                     w_deltas_since_full = Map.empty, w_endpoint_id = ss_endpoint_id ss,
                     w_namespace = ss_namespace ss, w_executed_here = {},
                     w_namespace_ticket = ss_namespace_ticket ss\<rparr>)))"

section \<open>Reading the workspace\<close>

definition devices :: "'d loro \<Rightarrow> ('c, 'r, 'd) workspace \<Rightarrow> device_record list" where
  "devices L W = List.map_filter (\<lambda>m. map_option (\<lambda>user.
       let display = manifest_device L m (w_manifest W) in
       \<lparr>dr_member = m, dr_user = user, dr_endpoint_id = Option.bind display dd_endpoint_id,
        dr_label = or_default (map_option dd_label display)\<rparr>) (user_of (capabilities W) m))
     (certified_devices (capabilities W))"

definition workspace_devices_of :: "'d loro \<Rightarrow> bytes32 \<Rightarrow> ('c, 'r, 'd) workspace \<Rightarrow> device_record list" where
  "workspace_devices_of L user W = filter (\<lambda>d. dr_user d = user) (devices L W)"

definition author_may_write :: "'d loro \<Rightarrow> bytes32 \<Rightarrow> ('c, 'r, 'd) workspace \<Rightarrow> bool" where
  "author_may_write L author W =
     (case Option.bind (member_for_author L author (w_manifest W)) (role_of_member (capabilities W)) of
        None \<Rightarrow> False | Some r \<Rightarrow> can_write r)"

definition current_member_count :: "('c, 'r, 'd) workspace \<Rightarrow> nat" where
  "current_member_count W = card (k_current_members (w_cgka W))"

definition sees_member :: "bytes32 \<Rightarrow> ('c, 'r, 'd) workspace \<Rightarrow> bool" where
  "sees_member m W \<longleftrightarrow> is_current_member (w_cgka W) m"

text \<open>\<open>sort_unstable\<close> and \<open>dedup\<close>: the sorted list of the distinct elements.\<close>

definition workspace_roster :: "'d loro \<Rightarrow> ('c, 'r, 'd) workspace \<Rightarrow> bytes32 list" where
  "workspace_roster L W = remdups (sort (List.map_filter dd_endpoint_id
     (filter (\<lambda>d. dd_member d \<in> k_current_members (w_cgka W))
       (filter (\<lambda>d. is_certified_device (capabilities W) (dd_member d)) (manifest_devices L (w_manifest W))))))"

definition pending_docs :: "('c, 'r, 'd) workspace \<Rightarrow> document_uuid list" where
  "pending_docs W = remdups (sort (map pk_doc (w_pending_chunks W)))"

section \<open>Guards\<close>

definition require_admin :: "('c, 'r, 'd) workspace \<Rightarrow> unit core_result" where
  "require_admin W = (if may_administer (capabilities W) (me W) then Inr () else Inl NotAnAdmin)"

definition matching_approvals :: "admin_action \<Rightarrow> ('c, 'r, 'd) workspace \<Rightarrow> u32" where
  "matching_approvals action W =
     (case map (\<lambda>s. if ps_approvals s < 2 ^ 32 then of_nat (ps_approvals s) else - 1)
            (filter (\<lambda>s. ps_action s = action) (proposals (capabilities W))) of
        [] \<Rightarrow> 0 | n # ns \<Rightarrow> fold max ns n)"

definition require_quorum :: "admin_action \<Rightarrow> ('c, 'r, 'd) workspace \<Rightarrow> unit core_result" where
  "require_quorum action W =
     (case require_admin W of
        Inl e \<Rightarrow> Inl e
      | Inr _ \<Rightarrow>
          let required = cs_threshold (capabilities W) in
          if required \<le> DEFAULT_THRESHOLD then Inr ()
          else if list_ex (\<lambda>(_, executed). executed = action) (executable (capabilities W)) then Inr ()
          else Inl (QuorumRequired required (matching_approvals action W)))"

definition is_founder_device :: "('c, 'r, 'd) workspace \<Rightarrow> bool" where
  "is_founder_device W \<longleftrightarrow> user_of (capabilities W) (me W) = Some (cs_founder (capabilities W))"

definition quorum_proof :: "admin_action \<Rightarrow> ('c, 'r, 'd) workspace \<Rightarrow> certificate list" where
  "quorum_proof action W =
     (if cs_threshold (capabilities W) \<le> DEFAULT_THRESHOLD then [] else proof_of (capabilities W) action)"

definition require_may_add_device_to :: "bytes32 \<Rightarrow> ('c, 'r, 'd) workspace \<Rightarrow> unit core_result" where
  "require_may_add_device_to user W =
     (if may_bind_device_to (capabilities W) (me W) user then Inr () else Inl NotThisUsersDevice)"

definition require_write :: "('c, 'r, 'd) workspace \<Rightarrow> unit core_result" where
  "require_write W = (case role_of_member (capabilities W) (me W) of
     Some r \<Rightarrow> if \<not> can_write r then Inl NotAWriter else Inr () | None \<Rightarrow> Inr ())"

definition require_not_last_admin :: "bytes32 \<Rightarrow> ('c, 'r, 'd) workspace \<Rightarrow> unit core_result" where
  "require_not_last_admin m W =
     (let is_admin = (case role_of (capabilities W) m of None \<Rightarrow> False | Some r \<Rightarrow> can_administer r) in
      if is_admin \<and> admin_count (capabilities W) \<le> 1 then Inl LastAdmin else Inr ())"

definition refuse_oversized :: "nat \<Rightarrow> nat \<Rightarrow> unit core_result" where
  "refuse_oversized ops certs =
     (if MAX_LOG_OPS < ops \<or> MAX_LOG_CERTS < certs then Inl (IncompleteLog (ops + certs)) else Inr ())"

end
