(* ===== verification/Publishing.thy ===== *)
theory Publishing
  imports Workspace
begin

text \<open>
  The half of \<open>state.rs\<close> that moves content: what the workspace publishes (documents, manifest,
  namespace ticket, asset keys) and under which key, and what it does with the chunks it receives.
  Chunks that cannot be read yet are parked in a bounded queue, and draining tries them again until a
  pass applies none.
\<close>

section \<open>Encrypting and publishing\<close>

definition encrypt_keyed ::
  "('c, 'r, 'd) env \<Rightarrow> bytes \<Rightarrow> chunk_ref list \<Rightarrow> keying \<Rightarrow> ('c, 'r, 'd) workspace
     \<Rightarrow> ('c, 'r, 'd, chunk \<times> control_op list) wstep" where
  "encrypt_keyed E plaintext preds keying W =
     (case keying of
        Current \<Rightarrow> and_then (on_cgka (encrypt (e_beekem E) (e_hash E) plaintext preds) W) (\<lambda>(ch, implicit) W.
                     (W, Inr (ch, (case implicit of None \<Rightarrow> [] | Some op \<Rightarrow> [op]))))
      | Fresh \<Rightarrow> on_cgka (encrypt_fresh (e_beekem E) (e_hash E) plaintext preds) W)"

text \<open>The operations that carry a new key come before the content sealed under it.\<close>

definition ops_then :: "control_op list \<Rightarrow> effect \<Rightarrow> effect list" where
  "ops_then ops content = map broadcast ops @ [content]"

definition publish_manifest :: "('c, 'r, 'd) env \<Rightarrow> keying \<Rightarrow> ('c, 'r, 'd) workspace \<Rightarrow> ('c, 'r, 'd, effect list) wstep" where
  "publish_manifest E keying W =
     and_then (on_manifest (export_snapshot (e_loro E)) W) (\<lambda>snapshot W.
     and_then (encrypt_keyed E snapshot [] keying W) (\<lambda>(ch, ops) W.
       (W, Inr (ops_then ops (StoreManifest (manifest_key (e_hash E) (w_secret W)) ch)))))"

definition republish_namespace ::
  "('c, 'r, 'd) env \<Rightarrow> keying \<Rightarrow> ('c, 'r, 'd) workspace \<Rightarrow> ('c, 'r, 'd, effect list) wstep" where
  "republish_namespace E keying W =
     (if w_namespace_ticket W = [] then (W, Inr [])
      else and_then (encrypt_keyed E (w_namespace_ticket W) [] keying W) (\<lambda>(ch, ops) W.
        (W, Inr (ops_then ops (PublishNamespace (ns_epoch (w_namespace W)) ch)))))"

text \<open>Which updates are exported: since the last published version when that still decodes, or all.\<close>

definition export_mode_for :: "'d loro \<Rightarrow> extent \<Rightarrow> bytes option \<Rightarrow> export_mode" where
  "export_mode_for L extent published =
     (case extent of
        Delta \<Rightarrow> (case published of
            None \<Rightarrow> AllUpdates | Some vv \<Rightarrow> if lo_vv_decodes L vv then UpdatesFrom vv else AllUpdates)
      | Full \<Rightarrow> AllUpdates)"

text \<open>\<open>deltas_since_full.get(&doc).copied().unwrap_or(0)\<close>\<close>

definition deltas_of :: "('c, 'r, 'd) workspace \<Rightarrow> document_uuid \<Rightarrow> u32" where
  "deltas_of W doc = (case w_deltas_since_full W doc of None \<Rightarrow> 0 | Some n \<Rightarrow> n)"

definition publish_keyed ::
  "('c, 'r, 'd) env \<Rightarrow> document_uuid \<Rightarrow> keying \<Rightarrow> extent \<Rightarrow> ('c, 'r, 'd) workspace \<Rightarrow> ('c, 'r, 'd, effect list) wstep" where
  "publish_keyed E doc keying extent W =
     (let L = e_loro E in
      case loro_step (lo_export L (export_mode_for L extent (w_published_up_to W doc)) (doc_entry L doc W)) of
        (d, Inl e) \<Rightarrow> (set_doc doc d W, Inl e)
      | (d, Inr update) \<Rightarrow>
          let now_at = lo_oplog_vv L d;
              preds = (case w_last_ref W doc of None \<Rightarrow> [] | Some r \<Rightarrow> [r])
          in and_then (encrypt_keyed E update preds keying (set_doc doc d W)) (\<lambda>(ch, ops) W.
               let deltas = (case extent of
                     Delta \<Rightarrow> deltas_of W doc + 1 | Full \<Rightarrow> 0)
               in (W\<lparr>w_last_ref := (w_last_ref W)(doc \<mapsto> ch_content_ref ch),
                     w_published_up_to := (w_published_up_to W)(doc \<mapsto> now_at),
                     w_deltas_since_full := (w_deltas_since_full W)(doc \<mapsto> deltas)\<rparr>,
                   Inr (ops_then ops (StoreChunk (storage_key (e_hash E) (w_secret W) doc) doc ch)))))"

definition publish_extent :: "document_uuid \<Rightarrow> ('c, 'r, 'd) workspace \<Rightarrow> extent" where
  "publish_extent doc W =
     (if w_published_up_to W doc \<noteq> None
         \<and> deltas_of W doc < FULL_PUBLISH_EVERY
      then Delta else Full)"

definition publish :: "('c, 'r, 'd) env \<Rightarrow> document_uuid \<Rightarrow> ('c, 'r, 'd) workspace \<Rightarrow> ('c, 'r, 'd, effect list) wstep" where
  "publish E doc W = publish_keyed E doc Current (publish_extent doc W) W"

definition forget_published :: "('c, 'r, 'd) workspace \<Rightarrow> ('c, 'r, 'd) workspace" where
  "forget_published W = W\<lparr>w_published_up_to := Map.empty, w_deltas_since_full := Map.empty\<rparr>"

text \<open>Asking commits the document, a shared cell behind \<open>&self\<close>.\<close>

definition is_published :: "'d loro \<Rightarrow> document_uuid \<Rightarrow> ('c, 'r, 'd) workspace \<Rightarrow> ('c, 'r, 'd) workspace \<times> bool" where
  "is_published L doc W =
     (case (w_docs W doc, w_published_up_to W doc) of
        (Some d, Some published) \<Rightarrow> (set_doc doc (lo_commit L d) W, lo_oplog_vv L (lo_commit L d) = published)
      | _ \<Rightarrow> (W, False))"

definition on_resync :: "('c, 'r, 'd) env \<Rightarrow> document_uuid \<Rightarrow> ('c, 'r, 'd) workspace \<Rightarrow> ('c, 'r, 'd, effect list) wstep" where
  "on_resync E doc W =
     and_then (check (require_write W) W) (\<lambda>_ W.
       if w_docs W doc = None then (W, Inr [])
       else case is_published (e_loro E) doc W of
           (W, True) \<Rightarrow> (W, Inr [])
         | (W, False) \<Rightarrow> publish_keyed E doc Current Full W)"

subsection \<open>Asset keys\<close>

definition publish_asset_key ::
  "('c, 'r, 'd) env \<Rightarrow> document_uuid \<Rightarrow> bytes32 \<Rightarrow> keying \<Rightarrow> ('c, 'r, 'd) workspace \<Rightarrow> ('c, 'r, 'd, effect list) wstep" where
  "publish_asset_key E asset key keying W =
     and_then (encrypt_keyed E (be_bytes 32 key) [] keying W) (\<lambda>(ch, ops) W.
       (W, Inr (ops_then ops (StoreChunk (asset_key_key (e_hash E) (w_secret W) asset) asset ch))))"

definition seal_asset_key ::
  "('c, 'r, 'd) env \<Rightarrow> document_uuid \<Rightarrow> ('c, 'r, 'd) workspace \<Rightarrow> ('c, 'r, 'd, bytes32 \<times> effect list) wstep" where
  "seal_asset_key E asset W =
     and_then (check (require_write W) W) (\<lambda>_ W.
       case e_fill32 E (k_rng (w_cgka W)) of (rng, key) \<Rightarrow>
         and_then (publish_asset_key E asset key Current (W\<lparr>w_cgka := (w_cgka W)\<lparr>k_rng := rng\<rparr>\<rparr>)) (\<lambda>effects W.
           (W, Inr (key, effects))))"

definition open_asset_key :: "('c, 'r, 'd) env \<Rightarrow> chunk \<Rightarrow> ('c, 'r, 'd) workspace \<Rightarrow> ('c, 'r, 'd) workspace \<times> asset_key_verdict" where
  "open_asset_key E key_chunk W =
     (case on_cgka (decrypt (e_beekem E) key_chunk) W of
        (W, Inr (DPlaintext bs)) \<Rightarrow> (W, (case be_word 32 bs of None \<Rightarrow> AkCorrupt | Some raw \<Rightarrow> AkReady raw))
      | (W, Inr DAwaitingOp) \<Rightarrow> (W, AkAwaitingKey)
      | (W, Inr DUnreachable) \<Rightarrow> (W, AkUnreachable)
      | (W, Inl _) \<Rightarrow> (W, AkCorrupt))"

definition reseal_asset_key ::
  "('c, 'r, 'd) env \<Rightarrow> bytes32 \<Rightarrow> document_uuid \<Rightarrow> chunk \<Rightarrow> ('c, 'r, 'd) workspace \<Rightarrow> ('c, 'r, 'd, effect list) wstep" where
  "reseal_asset_key E requester asset key_chunk W =
     (if \<not> is_current_member (w_cgka W) requester then (W, Inl (Unauthorized requester))
      else and_then (check (require_write W) W) (\<lambda>_ W.
        case open_asset_key E key_chunk W of
          (W, AkReady key) \<Rightarrow> and_then (publish_asset_key E asset key Fresh W) (\<lambda>effects W.
             ((if effects = [] then W else W\<lparr>w_repairs_answered := w_repairs_answered W + 1\<rparr>), Inr effects))
        | (W, _) \<Rightarrow> (W, Inr [])))"

definition asset_index_keys :: "('c, 'r, 'd) env \<Rightarrow> ('c, 'r, 'd) workspace \<Rightarrow> storage_key_bytes list" where
  "asset_index_keys E W =
     concat (map (\<lambda>entry. concat (map (\<lambda>v.
         asset_key_key (e_hash E) (w_secret W) (av_content v)
         # map (\<lambda>index. asset_part_key (e_hash E) (w_secret W) (av_content v) (of_nat index)) [0..<unat (am_segments (av_meta v))])
       (manifest_asset_versions (e_loro E) (e_codec E) (fe_uuid entry) (w_manifest W))))
     (files (e_loro E) (e_codec E) (w_manifest W)))"

definition asset_prefixes :: "('c, 'r, 'd) env \<Rightarrow> ('c, 'r, 'd) workspace \<Rightarrow> bytes24 list" where
  "asset_prefixes E W =
     map (\<lambda>v. asset_prefix (e_hash E) (w_secret W) (av_content v))
       (concat (map (\<lambda>entry. manifest_asset_versions (e_loro E) (e_codec E) (fe_uuid entry) (w_manifest W))
         (files (e_loro E) (e_codec E) (w_manifest W))))"

end
