(* ===== verification/Draining.thy ===== *)
theory Draining
  imports Publishing
begin

text \<open>
  The queue of chunks that cannot be read yet (\<open>state.rs\<close>: \<open>park_chunk\<close>, \<open>try_apply\<close>,
  \<open>drain_pending\<close>, \<open>on_chunk_arrived\<close>). \<open>drain_loop\<close> is the \<open>loop\<close> of \<open>drain_pending\<close>; it is a
  settling loop, because a chunk that applies leaves the queue.
\<close>

section \<open>Parking\<close>

abbreviation chunk_size :: "chunk \<Rightarrow> nat" where
  "chunk_size ch \<equiv> length (ch_ciphertext ch)"

text \<open>The \<open>while\<close> of \<open>park_chunk\<close>: the oldest chunk goes until the new one fits.\<close>

function make_room :: "nat \<Rightarrow> ('c, 'r, 'd) workspace \<Rightarrow> ('c, 'r, 'd) workspace" where
  "make_room sz W =
     (if w_pending_chunks W \<noteq> [] \<and> (MAX_PENDING_CHUNKS \<le> length (w_pending_chunks W)
         \<or> MAX_PENDING_CHUNK_BYTES < w_pending_bytes W + sz)
      then make_room sz (W\<lparr>w_pending_chunks := tl (w_pending_chunks W),
             w_pending_bytes := w_pending_bytes W - chunk_size (pk_chunk (hd (w_pending_chunks W))),
             w_evicted_chunks := w_evicted_chunks W + 1\<rparr>)
      else W)"
  by pat_completeness auto
termination
  by (relation "measure (\<lambda>(_, W). length (w_pending_chunks W))") auto

declare make_room.simps [simp del]

definition enqueue :: "parked \<Rightarrow> ('c, 'r, 'd) workspace \<Rightarrow> ('c, 'r, 'd) workspace" where
  "enqueue p W = W\<lparr>w_pending_chunks := w_pending_chunks W @ [p],
                   w_pending_bytes := w_pending_bytes W + chunk_size (pk_chunk p)\<rparr>"

definition park_chunk :: "document_uuid \<Rightarrow> chunk \<Rightarrow> ('c, 'r, 'd) workspace \<Rightarrow> ('c, 'r, 'd) workspace" where
  "park_chunk doc ch W = enqueue \<lparr>pk_doc = doc, pk_chunk = ch, pk_drains = 0\<rparr> (make_room (chunk_size ch) W)"

section \<open>Applying\<close>

definition try_apply :: "('c, 'r, 'd) env \<Rightarrow> document_uuid \<Rightarrow> chunk \<Rightarrow> ('c, 'r, 'd) workspace
     \<Rightarrow> ('c, 'r, 'd) workspace \<times> chunk_verdict" where
  "try_apply E doc ch W =
     (case on_cgka (decrypt (e_beekem E) ch) W of
        (W, Inr (DPlaintext plaintext)) \<Rightarrow>
          (case lo_import (e_loro E) plaintext (doc_entry (e_loro E) doc W) of
             (d, Inr True) \<Rightarrow>
               ((set_doc doc d W)\<lparr>w_last_ref := (w_last_ref W)(doc \<mapsto> ch_content_ref ch)\<rparr>, CvApplied)
           | (d, _) \<Rightarrow> (set_doc doc d W, CvAwaitingDeps))
      | (W, Inr DAwaitingOp) \<Rightarrow> (W, CvAwaitingKey)
      | (W, Inr DUnreachable) \<Rightarrow> (W, CvUnreachable)
      | (W, Inl _) \<Rightarrow> (W, CvCorrupt))"

type_synonym ('c, 'r, 'd) draining = "('c, 'r, 'd) workspace \<times> effect list \<times> nat"

text \<open>One candidate of a pass: the state, the effects so far and how many chunks applied.\<close>

definition drain_step :: "('c, 'r, 'd) env \<Rightarrow> parked \<Rightarrow> ('c, 'r, 'd) draining \<Rightarrow> ('c, 'r, 'd) draining" where
  "drain_step E p = (\<lambda>(W, effects, applied).
     let doc = pk_doc p; ch = pk_chunk p in
     case try_apply E doc ch W of
       (W, CvApplied) \<Rightarrow> (W, effects @ [AppliedDoc doc], applied + 1)
     | (W, CvUnreachable) \<Rightarrow>
         (W\<lparr>w_unreadable_chunks := w_unreadable_chunks W + 1\<rparr>,
          effects @ [RequestRepair (RepairDocument doc) (epoch_of ch)], applied)
     | (W, CvCorrupt) \<Rightarrow> (W\<lparr>w_corrupt_chunks := w_corrupt_chunks W + 1\<rparr>, effects, applied)
     | (W, verdict) \<Rightarrow>
         let drains = sat_succ (pk_drains p) in
         (enqueue \<lparr>pk_doc = doc, pk_chunk = ch, pk_drains = drains\<rparr> W,
          (if verdict = CvAwaitingDeps \<and> MAX_DEP_WAIT_DRAINS \<le> drains
           then effects @ [RequestRepair (RepairDocumentHistory doc) (epoch_of ch)] else effects), applied))"

definition drain_round ::
  "('c, 'r, 'd) env \<Rightarrow> ('c, 'r, 'd) workspace \<times> effect list \<Rightarrow> (('c, 'r, 'd) workspace \<times> effect list) \<times> bool" where
  "drain_round E = (\<lambda>(W, effects).
     case fold (drain_step E) (w_pending_chunks W) (W\<lparr>w_pending_chunks := [], w_pending_bytes := 0\<rparr>, effects, 0) of
       (W, effects, applied) \<Rightarrow> ((W, effects), applied \<noteq> 0))"

definition queue_length :: "('c, 'r, 'd) workspace \<times> effect list \<Rightarrow> nat" where
  "queue_length st = length (w_pending_chunks (fst st))"

lemma queue_on_cgka [simp]:
  "w_pending_chunks (fst (on_cgka f W)) = w_pending_chunks W" "w_pending_bytes (fst (on_cgka f W)) = w_pending_bytes W"
  by (simp_all add: on_cgka_def split: prod.split)

lemma queue_set_doc [simp]:
  "w_pending_chunks (set_doc doc d W) = w_pending_chunks W" "w_pending_bytes (set_doc doc d W) = w_pending_bytes W"
  by (simp_all add: set_doc_def)

lemma on_cgka_queue:
  assumes "on_cgka f W = (W', r)"
  shows "w_pending_chunks W' = w_pending_chunks W" and "w_pending_bytes W' = w_pending_bytes W"
  using queue_on_cgka [of f W] assms by simp_all

lemma try_apply_queue:
  assumes "try_apply E doc ch W = (W', v)"
  shows "w_pending_chunks W' = w_pending_chunks W" and "w_pending_bytes W' = w_pending_bytes W"
  using assms by (auto simp: try_apply_def on_cgka_queue split: prod.splits sum.splits decrypt_outcome.splits bool.splits)

lemma drain_step_shape:
  assumes "drain_step E p (W, effects, applied) = (W', effects', applied')"
  shows "applied' = Suc applied \<and> w_pending_chunks W' = w_pending_chunks W
    \<or> applied' = applied \<and> (w_pending_chunks W' = w_pending_chunks W
        \<or> (\<exists>n. w_pending_chunks W' = w_pending_chunks W @ [p\<lparr>pk_drains := n\<rparr>]))"
proof -
  obtain W1 v where t: "try_apply E (pk_doc p) (pk_chunk p) W = (W1, v)" by fastforce
  note q = try_apply_queue [OF t]
  have p: "\<lparr>pk_doc = pk_doc p, pk_chunk = pk_chunk p, pk_drains = n\<rparr> = p\<lparr>pk_drains := n\<rparr>" for n
    by (cases p) simp
  show ?thesis
    using assms q unfolding drain_step_def by (cases v) (auto simp: t p enqueue_def Let_def)
qed

lemma drain_fold_length:
  assumes "fold (drain_step E) ps (W, effects, applied) = (W', effects', applied')"
  shows "length (w_pending_chunks W') + applied' \<le> length ps + length (w_pending_chunks W) + applied \<and> applied \<le> applied'"
  using assms
proof (induction ps arbitrary: W effects applied)
  case (Cons p ps)
  obtain W1 effects1 applied1 where s: "drain_step E p (W, effects, applied) = (W1, effects1, applied1)"
    by (metis surj_pair)
  from Cons.IH [of W1 effects1 applied1] Cons.prems s drain_step_shape [OF s] show ?case by auto
qed simp

lemma drain_round_shrinks:
  assumes "drain_round E st = (st', True)"
  shows "queue_length st' < queue_length st"
proof -
  obtain W effects where st: "st = (W, effects)" by fastforce
  obtain W' effects' applied where
    f: "fold (drain_step E) (w_pending_chunks W) (W\<lparr>w_pending_chunks := [], w_pending_bytes := 0\<rparr>, effects, 0)
        = (W', effects', applied)" by (metis surj_pair)
  from drain_fold_length [OF f] assms show ?thesis
    by (auto simp: st f drain_round_def queue_length_def)
qed

function drain_loop ::
  "('c, 'r, 'd) env \<Rightarrow> ('c, 'r, 'd) workspace \<times> effect list \<Rightarrow> ('c, 'r, 'd) workspace \<times> effect list" where
  "drain_loop E st = (case drain_round E st of (st', progress) \<Rightarrow> if progress then drain_loop E st' else st')"
  by pat_completeness auto
termination
  by (relation "measure (\<lambda>(E, st). queue_length st)") (auto dest: drain_round_shrinks [OF sym])

declare drain_loop.simps [simp del]

interpretation drain_settles: settling_loop "drain_round E" "drain_loop E" queue_length for E
  by unfold_locales (rule drain_loop.simps, erule drain_round_shrinks)

definition drain_pending :: "('c, 'r, 'd) env \<Rightarrow> ('c, 'r, 'd) workspace \<Rightarrow> ('c, 'r, 'd, effect list) wstep" where
  "drain_pending E W = (case drain_loop E (W, []) of (W, effects) \<Rightarrow> (W, Inr effects))"

definition already_parked :: "document_uuid \<Rightarrow> chunk \<Rightarrow> ('c, 'r, 'd) workspace \<Rightarrow> bool" where
  "already_parked doc ch W \<longleftrightarrow> list_ex (\<lambda>p. pk_doc p = doc
     \<and> ch_content_ref (pk_chunk p) = ch_content_ref ch \<and> ch_pcs_key_hash (pk_chunk p) = ch_pcs_key_hash ch)
     (w_pending_chunks W)"

definition on_chunk_arrived ::
  "('c, 'r, 'd) env \<Rightarrow> document_uuid \<Rightarrow> chunk \<Rightarrow> ('c, 'r, 'd) workspace \<Rightarrow> ('c, 'r, 'd, effect list) wstep" where
  "on_chunk_arrived E doc ch W = drain_pending E (if already_parked doc ch W then W else park_chunk doc ch W)"

end
