(* ===== verification/Handlers.thy ===== *)
theory Handlers
  imports Draining
begin

text \<open>
  The handlers of \<open>state.rs\<close> and the two entry points: \<open>handle\<close> for events, \<open>on_control\<close> for the
  messages of the control plane.
\<close>

section \<open>Editing\<close>

definition on_text_edit ::
  "('c, 'r, 'd) env \<Rightarrow> document_uuid \<Rightarrow> unix_seconds \<Rightarrow> ('d \<Rightarrow> 'd loro_call) \<Rightarrow> ('c, 'r, 'd) workspace
     \<Rightarrow> ('c, 'r, 'd, effect list) wstep" where
  "on_text_edit E doc now mutate W =
     (let L = e_loro E in
      and_then (check (require_write W) W) (\<lambda>_ W.
        case loro_step (mutate (claim_authorship L (me W) (doc_entry L doc W))) of
          (d, Inl e) \<Rightarrow> (set_doc doc d W, Inl e)
        | (d, Inr _) \<Rightarrow> publish E doc (set_doc doc (commit_at L now d) W)))"

definition on_append ::
  "('c, 'r, 'd) env \<Rightarrow> document_uuid \<Rightarrow> string \<Rightarrow> unix_seconds \<Rightarrow> ('c, 'r, 'd) workspace \<Rightarrow> ('c, 'r, 'd, effect list) wstep" where
  "on_append E doc text now =
     on_text_edit E doc now (\<lambda>d. lo_text_insert (e_loro E) (lo_len_unicode (e_loro E) d) text d)"

definition on_write ::
  "('c, 'r, 'd) env \<Rightarrow> document_uuid \<Rightarrow> string \<Rightarrow> unix_seconds \<Rightarrow> ('c, 'r, 'd) workspace \<Rightarrow> ('c, 'r, 'd, effect list) wstep" where
  "on_write E doc text now = on_text_edit E doc now (lo_update_text (e_loro E) text)"

definition on_insert ::
  "('c, 'r, 'd) env \<Rightarrow> document_uuid \<Rightarrow> nat \<Rightarrow> string \<Rightarrow> unix_seconds \<Rightarrow> ('c, 'r, 'd) workspace
     \<Rightarrow> ('c, 'r, 'd, effect list) wstep" where
  "on_insert E doc pos text now =
     on_text_edit E doc now (\<lambda>d. lo_text_insert (e_loro E) (min pos (lo_len_unicode (e_loro E) d)) text d)"

definition on_delete ::
  "('c, 'r, 'd) env \<Rightarrow> document_uuid \<Rightarrow> nat \<Rightarrow> nat \<Rightarrow> unix_seconds \<Rightarrow> ('c, 'r, 'd) workspace
     \<Rightarrow> ('c, 'r, 'd, effect list) wstep" where
  "on_delete E doc pos len now =
     on_text_edit E doc now (\<lambda>d. let end = lo_len_unicode (e_loro E) d; at = min pos end in
       lo_text_delete (e_loro E) at (min len (end - at)) d)"

definition on_revert ::
  "('c, 'r, 'd) env \<Rightarrow> document_uuid \<Rightarrow> version_id \<Rightarrow> unix_seconds \<Rightarrow> ('c, 'r, 'd) workspace
     \<Rightarrow> ('c, 'r, 'd, effect list) wstep" where
  "on_revert E doc v now W =
     (let L = e_loro E in
      and_then (check (require_write W) W) (\<lambda>_ W.
      and_then (W, version_to_frontiers L v) (\<lambda>frontiers W.
        case w_docs W doc of
          None \<Rightarrow> (W, Inl UnknownDocument)
        | Some d \<Rightarrow> (case lo_revert_to L frontiers (claim_authorship L (me W) d) of
              (d, Inl _) \<Rightarrow> (set_doc doc d W, Inl (UnknownVersion (version_display v)))
            | (d, Inr _) \<Rightarrow> publish E doc (set_doc doc (commit_at L now d) W)))))"

text \<open>\<open>retain\<close> with its running subtraction, and the rest of what the state remembers of a file.\<close>

definition forget_doc :: "document_uuid \<Rightarrow> ('c, 'r, 'd) workspace \<Rightarrow> ('c, 'r, 'd) workspace" where
  "forget_doc doc W = W\<lparr>
     w_docs := (w_docs W)(doc := None), w_last_ref := (w_last_ref W)(doc := None),
     w_published_up_to := (w_published_up_to W)(doc := None),
     w_deltas_since_full := (w_deltas_since_full W)(doc := None),
     w_pending_chunks := filter (\<lambda>p. pk_doc p \<noteq> doc) (w_pending_chunks W),
     w_pending_bytes := fold (\<lambda>p b. if pk_doc p \<noteq> doc then b else b - chunk_size (pk_chunk p))
                          (w_pending_chunks W) (w_pending_bytes W)\<rparr>"

definition on_delete_file ::
  "('c, 'r, 'd) env \<Rightarrow> document_uuid \<Rightarrow> ('c, 'r, 'd) workspace \<Rightarrow> ('c, 'r, 'd, effect list) wstep" where
  "on_delete_file E doc W =
     (let H = e_hash E in
      and_then (check (require_write W) W) (\<lambda>_ W.
        let versions = manifest_asset_versions (e_loro E) (e_codec E) doc (w_manifest W) in
        and_then (on_manifest (delete_file (e_loro E) doc) W) (\<lambda>_ W.
          let deletes = (if versions = [] then [DeleteEntry (storage_key H (w_secret W) doc) doc]
                else concat (map (\<lambda>v. [DeleteEntry (asset_key_key H (w_secret W) (av_content v)) (av_content v),
                       DeleteAssetSegments (asset_prefix H (w_secret W) (av_content v)) (av_content v)]) versions))
          in and_then (publish_manifest E Current (forget_doc doc W)) (\<lambda>published W.
               (W, Inr (deletes @ published))))))"

section \<open>Asset versions and checkpoints\<close>

definition workspace_add_asset_version ::
  "('c, 'r, 'd) env \<Rightarrow> document_uuid \<Rightarrow> document_uuid \<Rightarrow> asset_meta \<Rightarrow> unix_seconds \<Rightarrow> ('c, 'r, 'd) workspace
     \<Rightarrow> ('c, 'r, 'd, effect list) wstep" where
  "workspace_add_asset_version E doc content meta now W =
     and_then (check (require_write W) W) (\<lambda>_ W.
       let sq = (case map av_seq (manifest_asset_versions (e_loro E) (e_codec E) doc (w_manifest W)) of
               [] \<Rightarrow> 0 | n # ns \<Rightarrow> sat_succ (fold max ns n));
           v = \<lparr>av_content = content, av_meta = meta, av_author = me W, av_at = now, av_seq = sq\<rparr>
       in and_then (on_manifest (add_asset_version (e_loro E) (e_hash E) (e_codec E) doc v) W) (\<lambda>_ W.
            publish_manifest E Current W))"

definition revert_asset ::
  "('c, 'r, 'd) env \<Rightarrow> document_uuid \<Rightarrow> document_uuid \<Rightarrow> unix_seconds \<Rightarrow> ('c, 'r, 'd) workspace
     \<Rightarrow> ('c, 'r, 'd, effect list) wstep" where
  "revert_asset E doc content now W =
     and_then (check (require_write W) W) (\<lambda>_ W.
       case find (\<lambda>v. av_content v = content)
              (manifest_asset_versions (e_loro E) (e_codec E) doc (w_manifest W)) of
         None \<Rightarrow> (W, Inl (UnknownVersion (hex16 content)))
       | Some target \<Rightarrow> workspace_add_asset_version E doc content (av_meta target) now W)"

definition take_checkpoint ::
  "('c, 'r, 'd) env \<Rightarrow> string \<Rightarrow> string \<Rightarrow> unix_seconds \<Rightarrow> ('c, 'r, 'd) workspace
     \<Rightarrow> ('c, 'r, 'd, effect list \<times> bytes32) wstep" where
  "take_checkpoint E name message now W =
     and_then (check (require_write W) W) (\<lambda>_ W.
       let entries = sort_key fst (List.map_filter (\<lambda>entry.
               map_option (\<lambda>v. (fe_uuid entry, v)) (document_version (e_loro E) (fe_uuid entry) W))
             (files (e_loro E) (e_codec E) (w_manifest W)));
           cp = \<lparr>cp_name = name, cp_message = message, cp_author = me W, cp_at = now, cp_entries = entries\<rparr>;
           digest = checkpoint_digest (e_hash E) (e_codec E) cp
       in and_then (on_manifest (add_checkpoint (e_loro E) (e_hash E) (e_codec E) cp) W) (\<lambda>_ W.
          and_then (publish_manifest E Current W) (\<lambda>effects W. (W, Inr (effects, digest)))))"

fun restore_entries ::
  "('c, 'r, 'd) env \<Rightarrow> unix_seconds \<Rightarrow> document_uuid set \<Rightarrow> (document_uuid \<times> version_id) list
     \<Rightarrow> effect list \<times> restore_outcome list \<Rightarrow> ('c, 'r, 'd) workspace
     \<Rightarrow> ('c, 'r, 'd, effect list \<times> restore_outcome list) wstep" where
  "restore_entries E now live [] out W = (W, Inr out)"
| "restore_entries E now live ((doc, v) # entries) (effects, outcomes) W =
     (if doc \<notin> live then restore_entries E now live entries (effects, outcomes @ [Deleted doc]) W
      else if document_version (e_loro E) doc W = Some v
      then restore_entries E now live entries (effects, outcomes @ [Unchanged doc]) W
      else case on_revert E doc v now W of
          (W, Inr produced) \<Rightarrow> restore_entries E now live entries (effects @ produced, outcomes @ [Restored doc]) W
        | (W, Inl (UnknownVersion _)) \<Rightarrow> restore_entries E now live entries (effects, outcomes @ [Unavailable doc]) W
        | (W, Inl UnknownDocument) \<Rightarrow> restore_entries E now live entries (effects, outcomes @ [Unavailable doc]) W
        | (W, Inl other) \<Rightarrow> (W, Inl other))"

definition restore_checkpoint ::
  "('c, 'r, 'd) env \<Rightarrow> bytes32 \<Rightarrow> unix_seconds \<Rightarrow> ('c, 'r, 'd) workspace
     \<Rightarrow> ('c, 'r, 'd, effect list \<times> restore_outcome list) wstep" where
  "restore_checkpoint E digest now W =
     and_then (check (require_write W) W) (\<lambda>_ W.
       case manifest_checkpoint (e_loro E) (e_hash E) (e_codec E) digest (w_manifest W) of
         None \<Rightarrow> (W, Inl (UnknownVersion (hex32 digest)))
       | Some cp \<Rightarrow> restore_entries E now (fe_uuid ` set (files (e_loro E) (e_codec E) (w_manifest W)))
                      (cp_entries cp) ([], []) W)"

section \<open>Members and roles\<close>

definition record_endpoint :: "('c, 'r, 'd) env \<Rightarrow> ('c, 'r, 'd) workspace \<Rightarrow> ('c, 'r, 'd, bool) wstep" where
  "record_endpoint E W =
     (case w_endpoint_id W of
        None \<Rightarrow> (W, Inr False)
      | Some endpoint \<Rightarrow>
          if Option.bind (manifest_device (e_loro E) (me W) (w_manifest W)) dd_endpoint_id = Some endpoint
          then (W, Inr False)
          else case on_manifest (set_device_endpoint (e_loro E) (me W) endpoint) W of
              (W, Inr _) \<Rightarrow> (W, Inr True)
            | (W, Inl UnknownDevice) \<Rightarrow> (W, Inr False)
            | (W, Inl err) \<Rightarrow> (W, Inl err))"

definition on_manifest_arrived :: "('c, 'r, 'd) env \<Rightarrow> chunk \<Rightarrow> ('c, 'r, 'd) workspace \<Rightarrow> ('c, 'r, 'd, effect list) wstep" where
  "on_manifest_arrived E ch W =
     (case on_cgka (decrypt (e_beekem E) ch) W of
        (W, Inr (DPlaintext plaintext)) \<Rightarrow>
          and_then (on_manifest (manifest_import (e_loro E) plaintext) W) (\<lambda>_ W.
          and_then (record_endpoint E W) (\<lambda>recorded W.
            if recorded then and_then (publish_manifest E Current W) (\<lambda>rest W. (W, Inr (ManifestUpdated # rest)))
            else (W, Inr [ManifestUpdated])))
      | (W, Inr DAwaitingOp) \<Rightarrow> (W, Inr [])
      | (W, Inr DUnreachable) \<Rightarrow>
          (W\<lparr>w_unreadable_chunks := w_unreadable_chunks W + 1\<rparr>, Inr [RequestRepair RepairManifest (epoch_of ch)])
      | (W, Inl _) \<Rightarrow> (W\<lparr>w_corrupt_chunks := w_corrupt_chunks W + 1\<rparr>, Inr []))"

definition on_set_role ::
  "('c, 'r, 'd) env \<Rightarrow> bytes32 \<Rightarrow> role \<Rightarrow> ('c, 'r, 'd) workspace \<Rightarrow> ('c, 'r, 'd, effect list) wstep" where
  "on_set_role E user r W =
     and_then (check (if is_founder_device W then require_admin W else require_quorum (SetRole user r) W) W) (\<lambda>_ W.
       if \<not> is_founder_device W \<and> DEFAULT_THRESHOLD < cs_threshold (capabilities W) then (W, Inr [])
       else and_then (check (if can_administer r then Inr () else require_not_last_admin user W) W) (\<lambda>_ W.
         case random_nonce E W of (W, nonce) \<Rightarrow>
           and_then (on_cgka (certify_role (e_crypto E) user r nonce) W) (\<lambda>cert W. (W, Inr [BroadcastCerts [cert]]))))"

text \<open>The manifest entries of a new device: what \<open>record\<close> does in the two callers of \<open>admit\<close>.\<close>

definition note_endpoint :: "'d loro \<Rightarrow> bytes32 \<Rightarrow> bytes32 option \<Rightarrow> 'd \<Rightarrow> ('d, core_error, unit) step" where
  "note_endpoint L m endpoint d = (case endpoint of None \<Rightarrow> (d, Inr ()) | Some ep \<Rightarrow> set_device_endpoint L m ep d)"

definition admit ::
  "('c, 'r, 'd) env \<Rightarrow> bytes32 \<Rightarrow> bytes32 \<Rightarrow> certificate list \<Rightarrow> ('d \<Rightarrow> ('d, core_error, unit) step)
     \<Rightarrow> ('c, 'r, 'd) workspace \<Rightarrow> ('c, 'r, 'd, effect list) wstep" where
  "admit E m share_key certs noted W =
     and_then (on_cgka (add_member (e_beekem E) m share_key) W) (\<lambda>op W.
     and_then (if op \<noteq> None then on_manifest noted W else (W, Inr ())) (\<lambda>_ W.
       let effects = (case op of Some op \<Rightarrow> [BroadcastOp op certs] | None \<Rightarrow> [BroadcastCerts certs])
       in and_then (publish_manifest E Current W) (\<lambda>published W. (W, Inr (effects @ published)))))"

definition on_add_user ::
  "('c, 'r, 'd) env \<Rightarrow> bytes32 \<Rightarrow> bytes32 \<Rightarrow> role \<Rightarrow> string \<Rightarrow> bytes32 option \<Rightarrow> ('c, 'r, 'd) workspace
     \<Rightarrow> ('c, 'r, 'd, effect list) wstep" where
  "on_add_user E m share_key r display_name endpoint W =
     (let L = e_loro E; user = m in
      and_then (check (if DEFAULT_THRESHOLD < cs_threshold (capabilities W) \<and> \<not> is_founder_device W
                       then require_quorum (SetRole user r) W else Inr ()) W) (\<lambda>_ W.
        case random_nonce E W of (W, nonce) \<Rightarrow>
        and_then (on_cgka (certify_device (e_crypto E) m user nonce) W) (\<lambda>binding W.
        case random_nonce E W of (W, nonce) \<Rightarrow>
        and_then (on_cgka (certify_role (e_crypto E) user r nonce) W) (\<lambda>grant W.
          admit E m share_key [binding, grant] (\<lambda>d.
            and_then (set_user L m display_name d) (\<lambda>_ d.
            and_then (set_device L m ''first device'' d) (\<lambda>_ d. note_endpoint L m endpoint d))) W))))"

definition on_add_device ::
  "('c, 'r, 'd) env \<Rightarrow> bytes32 \<Rightarrow> bytes32 \<Rightarrow> bytes32 \<Rightarrow> string \<Rightarrow> bytes32 option \<Rightarrow> ('c, 'r, 'd) workspace
     \<Rightarrow> ('c, 'r, 'd, effect list) wstep" where
  "on_add_device E m share_key user label endpoint W =
     (let L = e_loro E in
      case random_nonce E W of (W, nonce) \<Rightarrow>
      and_then (on_cgka (certify_device (e_crypto E) m user nonce) W) (\<lambda>binding W.
        admit E m share_key [binding] (\<lambda>d.
          and_then (set_device L m label d) (\<lambda>_ d. note_endpoint L m endpoint d)) W))"

definition perform_removal :: "('c, 'r, 'd) env \<Rightarrow> bytes32 \<Rightarrow> ('c, 'r, 'd) workspace \<Rightarrow> ('c, 'r, 'd, effect list) wstep" where
  "perform_removal E m W =
     (let owner = (case user_of (capabilities W) m of None \<Rightarrow> m | Some u \<Rightarrow> u) in
      and_then (check (if length (devices_of (capabilities W) owner) \<le> 1
                       then require_not_last_admin owner W else Inr ()) W) (\<lambda>_ W.
      and_then (on_cgka (remove_member (e_beekem E) m) W) (\<lambda>op W.
        case op of
          None \<Rightarrow> (W, Inr [])
        | Some op \<Rightarrow>
            let epoch = sat_succ (ns_epoch (w_namespace W));
                W = W\<lparr>w_namespace := NamespaceEpoch epoch (ns_digest (w_namespace W))\<rparr>
            in (W, Inr [BroadcastOp op (quorum_proof (RemoveMember m) W), RotateNamespace epoch]))))"

definition on_remove_member :: "('c, 'r, 'd) env \<Rightarrow> bytes32 \<Rightarrow> ('c, 'r, 'd) workspace \<Rightarrow> ('c, 'r, 'd, effect list) wstep" where
  "on_remove_member E m W =
     and_then (check (require_quorum (RemoveMember m) W) W) (\<lambda>_ W. perform_removal E m W)"

definition mark_executed :: "bytes32 \<Rightarrow> ('c, 'r, 'd) workspace \<Rightarrow> ('c, 'r, 'd) workspace" where
  "mark_executed digest W = W\<lparr>w_executed_here := insert digest (w_executed_here W)\<rparr>"

definition quorum_step ::
  "('c, 'r, 'd) env \<Rightarrow> bytes32 \<times> admin_action \<Rightarrow> ('c, 'r, 'd) workspace \<times> effect list \<Rightarrow> ('c, 'r, 'd) workspace \<times> effect list" where
  "quorum_step E = (\<lambda>(digest, action) (W, effects).
     case action of
       RemoveMember target \<Rightarrow>
         (case member_from_bytes (e_crypto E) target of
            Inl _ \<Rightarrow> (mark_executed digest W, effects)
          | Inr m \<Rightarrow> (case perform_removal E m W of
                (W, Inr produced) \<Rightarrow> (mark_executed digest W, effects @ produced)
              | (W, Inl _) \<Rightarrow> (W, effects)))
     | SetRole _ _ \<Rightarrow> (mark_executed digest W, effects))"

definition run_quorum_actions :: "('c, 'r, 'd) env \<Rightarrow> ('c, 'r, 'd) workspace \<Rightarrow> ('c, 'r, 'd) workspace \<times> effect list" where
  "run_quorum_actions E W =
     fold (quorum_step E)
       (filter (\<lambda>(digest, _). digest \<notin> w_executed_here W) (executable (capabilities W))) (W, [])"

definition on_propose ::
  "('c, 'r, 'd) env \<Rightarrow> admin_action \<Rightarrow> u64 option \<Rightarrow> ('c, 'r, 'd) workspace \<Rightarrow> ('c, 'r, 'd, effect list) wstep" where
  "on_propose E action expires W =
     and_then (check (require_admin W) W) (\<lambda>_ W.
       let sq = next_proposal_seq (capabilities W) in
       case random_nonce E W of (W, nonce) \<Rightarrow>
         and_then (on_cgka (certify_proposal (e_crypto E) action sq expires nonce) W) (\<lambda>cert W.
           (W, Inr [BroadcastCerts [cert]])))"

definition on_approve :: "('c, 'r, 'd) env \<Rightarrow> bytes32 \<Rightarrow> ('c, 'r, 'd) workspace \<Rightarrow> ('c, 'r, 'd, effect list) wstep" where
  "on_approve E proposal W =
     and_then (check (require_admin W) W) (\<lambda>_ W.
       case random_nonce E W of (W, nonce) \<Rightarrow>
         and_then (on_cgka (certify_approval (e_crypto E) proposal nonce) W) (\<lambda>cert W.
           case run_quorum_actions E W of (W, rest) \<Rightarrow> (W, Inr (BroadcastCerts [cert] # rest))))"

fun leave_devices ::
  "('c, 'r, 'd) env \<Rightarrow> bytes32 list \<Rightarrow> effect list \<Rightarrow> ('c, 'r, 'd) workspace \<Rightarrow> ('c, 'r, 'd, effect list) wstep" where
  "leave_devices E [] effects W = (W, Inr effects)"
| "leave_devices E (device # theirs) effects W =
     (case member_from_bytes (e_crypto E) device of
        Inl _ \<Rightarrow> leave_devices E theirs effects W
      | Inr m \<Rightarrow> and_then (on_cgka (remove_member (e_beekem E) m) W) (\<lambda>op W.
          leave_devices E theirs (effects @ (case op of None \<Rightarrow> [] | Some op \<Rightarrow> [broadcast op])) W))"

definition on_leave :: "('c, 'r, 'd) env \<Rightarrow> ('c, 'r, 'd) workspace \<Rightarrow> ('c, 'r, 'd, effect list) wstep" where
  "on_leave E W =
     (let user = (case user_of (capabilities W) (me W) of None \<Rightarrow> me W | Some u \<Rightarrow> u) in
      and_then (check (require_not_last_admin user W) W) (\<lambda>_ W.
        let theirs = sort (devices_of (capabilities W) user)
        in leave_devices E (if theirs = [] then [me W] else theirs) [] W))"

section \<open>Namespaces and repairs\<close>

definition on_namespace_minted ::
  "('c, 'r, 'd) env \<Rightarrow> u32 \<Rightarrow> bytes \<Rightarrow> ('c, 'r, 'd) workspace \<Rightarrow> ('c, 'r, 'd, effect list) wstep" where
  "on_namespace_minted E epoch ticket W =
     (if epoch \<noteq> ns_epoch (w_namespace W) then (W, Inr [])
      else and_then (on_cgka (encrypt_fresh (e_beekem E) (e_hash E) ticket []) W) (\<lambda>(ch, ops) W.
        (forget_published (W\<lparr>w_namespace := namespace_epoch_of (e_hash E) epoch ticket, w_namespace_ticket := ticket\<rparr>),
         Inr (ops_then ops (PublishNamespace epoch ch) @ [AdoptNamespace epoch ticket]))))"

definition on_namespace_arrived ::
  "('c, 'r, 'd) env \<Rightarrow> u32 \<Rightarrow> chunk \<Rightarrow> ('c, 'r, 'd) workspace \<Rightarrow> ('c, 'r, 'd, effect list) wstep" where
  "on_namespace_arrived E epoch ch W =
     and_then (on_cgka (decrypt (e_beekem E) ch) W) (\<lambda>outcome W.
       case outcome of
         DAwaitingOp \<Rightarrow> (W, Inr [])
       | DUnreachable \<Rightarrow> (W, Inr [RequestRepair RepairNamespace (epoch_of ch)])
       | DPlaintext ticket \<Rightarrow>
           let announced = namespace_epoch_of (e_hash E) epoch ticket in
           if announced \<le> w_namespace W then (W, Inr [])
           else (forget_published (W\<lparr>w_namespace := announced, w_namespace_ticket := ticket\<rparr>),
                 Inr [AdoptNamespace epoch ticket]))"

definition on_repair_requested ::
  "('c, 'r, 'd) env \<Rightarrow> bytes32 \<Rightarrow> repair_target \<Rightarrow> ('c, 'r, 'd) workspace \<Rightarrow> ('c, 'r, 'd, effect list) wstep" where
  "on_repair_requested E requester target W =
     (let answered = (\<lambda>r. and_then r (\<lambda>effects W.
            ((if effects = [] then W else W\<lparr>w_repairs_answered := w_repairs_answered W + 1\<rparr>), Inr effects)));
          document = (\<lambda>doc keying. if w_docs W doc \<noteq> None \<and> is_ok (require_write W)
            then publish_keyed E doc keying Full W else (W, Inr []))
      in if \<not> is_current_member (w_cgka W) requester then (W, Inl (Unauthorized requester))
         else case target of
             RepairManifest \<Rightarrow> answered (publish_manifest E Fresh W)
           | RepairNamespace \<Rightarrow> answered (republish_namespace E Fresh W)
           | RepairDocument doc \<Rightarrow> answered (document doc Fresh)
           | RepairDocumentHistory doc \<Rightarrow> answered (document doc Current)
           | RepairAssetKey asset \<Rightarrow> (W, Inr [ResealAssetKey requester asset]))"

section \<open>Control plane\<close>

definition evict_if_spliced :: "(bytes32 \<times> bytes32) option \<Rightarrow> ('c, 'r, 'd) workspace \<Rightarrow> effect list" where
  "evict_if_spliced spl W =
     (case spl of
        None \<Rightarrow> []
      | Some (issuer, added) \<Rightarrow>
          if is_current_member (w_cgka W) issuer then []
          else if may_administer (capabilities W) (me W) then [EvictUncertified added] else [])"

definition splice_of :: "control_op \<Rightarrow> (bytes32 \<times> bytes32) option" where
  "splice_of op = (case sg_payload op of Add added _ _ _ \<Rightarrow> Some (sg_issuer op, added) | _ \<Rightarrow> None)"

definition on_control_op ::
  "('c, 'r, 'd) env \<Rightarrow> authorized_op \<Rightarrow> ('c, 'r, 'd) workspace \<Rightarrow> ('c, 'r, 'd, effect list) wstep" where
  "on_control_op E authorized W =
     and_then (on_cgka (merge (e_beekem E) (e_crypto E) authorized) W) (\<lambda>outcome W.
       if outcome = Applied then
         and_then (on_cgka (merge_pending (e_beekem E)) W) (\<lambda>_ W.
         and_then (drain_pending E W) (\<lambda>effects W.
           (W, Inr (effects @ evict_if_spliced (splice_of (ao_op authorized)) W))))
       else (W, Inr []))"

definition on_certs_arrived ::
  "('c, 'r, 'd) env \<Rightarrow> certificate list \<Rightarrow> ('c, 'r, 'd) workspace \<Rightarrow> ('c, 'r, 'd, effect list) wstep" where
  "on_certs_arrived E certs W =
     (case absorb_certificates (e_crypto E) certs (w_cgka W) of (K, added) \<Rightarrow>
        let W = W\<lparr>w_cgka := K\<rparr> in
        and_then (if 0 < added then and_then (on_cgka (merge_pending (e_beekem E)) W) (\<lambda>_ W. drain_pending E W)
                  else (W, Inr [])) (\<lambda>effects W.
          case run_quorum_actions E W of (W, rest) \<Rightarrow> (W, Inr (effects @ rest))))"

section \<open>Dispatch\<close>

fun handle :: "('c, 'r, 'd) env \<Rightarrow> unix_seconds \<Rightarrow> event \<Rightarrow> ('c, 'r, 'd) workspace \<Rightarrow> ('c, 'r, 'd, effect list) wstep" where
  "handle E now (EvControlOp op) W = on_control_op E op W"
| "handle E now (EvCertsArrived certs) W = on_certs_arrived E certs W"
| "handle E now (EvChunkArrived doc ch) W = on_chunk_arrived E doc ch W"
| "handle E now (EvLocalEdit doc text) W = on_append E doc text now W"
| "handle E now (EvWriteFile doc text) W = on_write E doc text now W"
| "handle E now (EvInsertText doc pos text) W = on_insert E doc pos text now W"
| "handle E now (EvRemoveText doc pos len) W = on_delete E doc pos len now W"
| "handle E now (EvRevertDocument doc v) W = on_revert E doc v now W"
| "handle E now (EvDeleteFile doc) W = on_delete_file E doc W"
| "handle E now (EvResync doc) W = on_resync E doc W"
| "handle E now (EvAddUser m share_key r display_name endpoint) W =
     and_then (check (require_admin W) W) (\<lambda>_ W. on_add_user E m share_key r display_name endpoint W)"
| "handle E now (EvAddDevice m share_key user label endpoint) W =
     and_then (check (require_may_add_device_to user W) W) (\<lambda>_ W. on_add_device E m share_key user label endpoint W)"
| "handle E now (EvRemoveMember m) W = on_remove_member E m W"
| "handle E now EvLeave W = on_leave E W"
| "handle E now (EvPropose action expires) W = on_propose E action expires W"
| "handle E now (EvApprove proposal) W = on_approve E proposal W"
| "handle E now EvResyncCertificates W = (W, Inr [BroadcastCerts (certificates (capabilities W))])"
| "handle E now EvRotate W = and_then (on_cgka (rotate_key (e_beekem E)) W) (\<lambda>op W. (W, Inr [broadcast op]))"
| "handle E now (EvManifestArrived ch) W = on_manifest_arrived E ch W"
| "handle E now (EvUpsertFile entry) W =
     and_then (check (require_write W) W) (\<lambda>_ W.
     and_then (on_manifest (upsert_file (e_loro E) (e_codec E) entry) W) (\<lambda>_ W. publish_manifest E Current W))"
| "handle E now (EvRenameFile doc path) W =
     and_then (check (require_write W) W) (\<lambda>_ W.
     and_then (on_manifest (rename (e_loro E) doc path) W) (\<lambda>_ W. publish_manifest E Current W))"
| "handle E now (EvSetRole user r) W = on_set_role E user r W"
| "handle E now (EvSetInfo info) W =
     and_then (check (require_admin W) W) (\<lambda>_ W.
     and_then (on_manifest (set_info (e_loro E) info) W) (\<lambda>_ W. publish_manifest E Current W))"
| "handle E now (EvSetDisplayName display_name) W =
     (case user_of (capabilities W) (me W) of
        None \<Rightarrow> (W, Inl UnknownDevice)
      | Some user \<Rightarrow> and_then (on_manifest (set_user (e_loro E) user display_name) W) (\<lambda>_ W. publish_manifest E Current W))"
| "handle E now (EvAnnounceAuthor author) W =
     and_then (on_manifest (set_author (e_loro E) (me W) author) W) (\<lambda>_ W. publish_manifest E Current W)"
| "handle E now EvResyncManifest W = publish_manifest E Current W"
| "handle E now EvResyncNamespace W = republish_namespace E Current W"
| "handle E now (EvNamespaceMinted epoch ticket) W = on_namespace_minted E epoch ticket W"
| "handle E now (EvNamespaceArrived epoch ch) W = on_namespace_arrived E epoch ch W"
| "handle E now (EvRepairRequested requester target _) W = on_repair_requested E requester target W"
| "handle E now (EvAnnounceEndpoint endpoint) W =
     and_then (record_endpoint E (W\<lparr>w_endpoint_id := Some endpoint\<rparr>)) (\<lambda>recorded W.
       if recorded then publish_manifest E Current W else (W, Inr []))"

text \<open>The operations of a log: what fails is skipped, its state change stays.\<close>

fun log_ops ::
  "('c, 'r, 'd) env \<Rightarrow> unix_seconds \<Rightarrow> control_op list \<Rightarrow> effect list \<Rightarrow> ('c, 'r, 'd) workspace
     \<Rightarrow> ('c, 'r, 'd) workspace \<times> effect list" where
  "log_ops E now [] effects W = (W, effects)"
| "log_ops E now (op # ops) effects W =
     (case handle E now (EvControlOp (bare op)) W of
        (W, Inr rest) \<Rightarrow> log_ops E now ops (effects @ rest) W
      | (W, Inl _) \<Rightarrow> log_ops E now ops effects W)"

fun on_control :: "('c, 'r, 'd) env \<Rightarrow> unix_seconds \<Rightarrow> control_msg \<Rightarrow> ('c, 'r, 'd) workspace
     \<Rightarrow> ('c, 'r, 'd, effect list) wstep" where
  "on_control E now (MsgOp op prf) W = handle E now (EvControlOp (authorized_op_new op prf)) W"
| "on_control E now (MsgCerts certs) W =
     and_then (check (refuse_oversized 0 (length certs)) W) (\<lambda>_ W. handle E now (EvCertsArrived certs) W)"
| "on_control E now (MsgLog ops certs) W =
     and_then (check (refuse_oversized (length ops) (length certs)) W) (\<lambda>_ W.
     and_then (handle E now (EvCertsArrived certs) W) (\<lambda>effects W.
       case log_ops E now ops effects W of (W, effects) \<Rightarrow> (W, Inr effects)))"
| "on_control E now (MsgAnnounce _) W = (W, Inr [])"
| "on_control E now (MsgNamespace epoch ch) W = handle E now (EvNamespaceArrived epoch ch) W"
| "on_control E now (MsgRepair m target epoch) W =
     and_then (W, member_from_bytes (e_crypto E) m) (\<lambda>requester W.
       handle E now (EvRepairRequested requester target epoch) W)"

end
