(* ===== verification/Workspace_Relations.thy ===== *)
theory Workspace_Relations
  imports Handlers Keys_Properties
begin

text \<open>
  What every handler of the workspace does to its state, proved once. A relation between an old and a
  new state that is reflexive, transitive and allows the few elementary changes the code makes
  (\<open>workspace_changes\<close>) is kept by every handler (\<open>workspace_relation\<close>). A relation that does not look
  at the queue of parked chunks is one of these (\<open>queue_blind\<close>). Minting a namespace is the one change
  that some relations exclude (\<open>workspace_relation_minting\<close>).
\<close>

section \<open>Single steps\<close>

text \<open>The one event that some relations exclude.\<close>

fun mints :: "event \<Rightarrow> bool" where
  "mints (EvNamespaceMinted _ _) = True"
| "mints _ = False"

text \<open>Encrypting changes nothing but the controller.\<close>

lemma on_cgka_only: "\<exists>K. fst (on_cgka f W) = W\<lparr>w_cgka := K\<rparr>"
  by (auto simp: on_cgka_def split: prod.split)

lemma encrypt_keyed_cgka: "\<exists>K. fst (encrypt_keyed E p preds keying W) = W\<lparr>w_cgka := K\<rparr>"
proof (cases keying)
  case Current
  obtain V r where r: "on_cgka (encrypt (e_beekem E) (e_hash E) p preds) W = (V, r)" by fastforce
  with on_cgka_only [of "encrypt (e_beekem E) (e_hash E) p preds" W] Current show ?thesis
    by (cases r) (auto simp: encrypt_keyed_def split: prod.splits)
next
  case Fresh
  then show ?thesis by (simp add: encrypt_keyed_def on_cgka_only)
qed

section \<open>The contract of a state relation\<close>

locale workspace_changes =
  fixes R :: "('c, 'r, 'd) workspace \<Rightarrow> ('c, 'r, 'd) workspace \<Rightarrow> bool" and E :: "('c, 'r, 'd) env"
  assumes refl [simp]: "R W W"
    and trans: "R W W' \<Longrightarrow> R W' W'' \<Longrightarrow> R W W''"
    and cgka: "evolves (e_crypto E) (w_cgka W) K \<Longrightarrow> R W (W\<lparr>w_cgka := K\<rparr>)"
    and manifest: "R W (W\<lparr>w_manifest := d\<rparr>)"
    and docs: "R W (W\<lparr>w_docs := (w_docs W)(doc := x)\<rparr>)"
    and last_ref: "R W (W\<lparr>w_last_ref := (w_last_ref W)(doc := r)\<rparr>)"
    and published: "R W (W\<lparr>w_published_up_to := (w_published_up_to W)(doc := v)\<rparr>)"
    and unpublished: "R W (W\<lparr>w_published_up_to := Map.empty\<rparr>)"
    and deltas: "(\<And>doc n. ns doc = Some n \<Longrightarrow> n \<le> FULL_PUBLISH_EVERY \<or> w_deltas_since_full W doc = Some n)
      \<Longrightarrow> R W (W\<lparr>w_deltas_since_full := ns\<rparr>)"
    and counters: "R W (W\<lparr>w_unreadable_chunks := u\<rparr>)" "R W (W\<lparr>w_corrupt_chunks := u\<rparr>)"
      "R W (W\<lparr>w_repairs_answered := u\<rparr>)" "R W (W\<lparr>w_evicted_chunks := u\<rparr>)"
    and endpoint: "R W (W\<lparr>w_endpoint_id := ep\<rparr>)"
    and executed: "R W (W\<lparr>w_executed_here := insert digest (w_executed_here W)\<rparr>)"
    and namespace: "w_namespace W \<le> n \<Longrightarrow> R W (W\<lparr>w_namespace := n\<rparr>)"
    and ticket: "R W (W\<lparr>w_namespace_ticket := t\<rparr>)"
begin

lemma bindI:
  assumes "R W (fst r)" and "\<And>x V. R V (fst (k x V))"
  shows "R W (fst (and_then r k))"
  using assms by (cases rule: and_then_cases [of r k]) (auto intro: trans)

lemma caseI:
  assumes "R W (fst r)" and "\<And>V x. R V (fst (k V x))"
  shows "R W (fst (case r of (V, x) \<Rightarrow> k V x))"
  using assms by (cases r) (auto intro: trans)

lemma if_leaf: "R W (fst r) \<Longrightarrow> R W (fst r') \<Longrightarrow> R W (fst (if b then r else r'))"
  by simp

lemma check_leaf [simp]: "R W (fst (check r W))"
  by (simp add: check_def)

lemma on_cgka_leaf: "(\<And>K. evolves (e_crypto E) K (fst (f K))) \<Longrightarrow> R W (fst (on_cgka f W))"
  by (auto simp: on_cgka_def cgka split: prod.split) (metis cgka fst_conv)

lemma on_manifest_leaf: "R W (fst (on_manifest f W))"
  by (simp add: on_manifest_def manifest split: prod.split)

lemma rng_leaf: "R W (W\<lparr>w_cgka := (w_cgka W)\<lparr>k_rng := g\<rparr>\<rparr>)"
  by (simp add: cgka)

lemma random_nonce_leaf: "R W (fst (random_nonce E W))"
  by (simp add: random_nonce_def rng_leaf split: prod.split)

lemma set_doc_leaf: "R W (set_doc doc d W)"
  by (simp add: set_doc_def docs)

lemma forget_published_leaf: "R W (forget_published W)"
proof -
  have "R W (W\<lparr>w_published_up_to := Map.empty\<rparr>)" by (rule unpublished)
  moreover have "R (W\<lparr>w_published_up_to := Map.empty\<rparr>) (forget_published W)"
    unfolding forget_published_def
    using deltas [of Map.empty "W\<lparr>w_published_up_to := Map.empty\<rparr>"] by simp
  ultimately show ?thesis by (rule trans)
qed

lemma encrypt_keyed_leaf: "R W (fst (encrypt_keyed E p preds keying W))"
  unfolding encrypt_keyed_def
  by (cases keying) (auto intro!: bindI on_cgka_leaf evolves_encrypt evolves_encrypt_fresh split: prod.split option.split)

lemma publish_manifest_leaf: "R W (fst (publish_manifest E keying W))"
  unfolding publish_manifest_def
  by (intro bindI on_manifest_leaf) (auto intro!: bindI encrypt_keyed_leaf)

lemma republish_namespace_leaf: "R W (fst (republish_namespace E keying W))"
  unfolding republish_namespace_def by (auto intro!: bindI encrypt_keyed_leaf)

lemma delta_recorded:
  assumes "n \<le> FULL_PUBLISH_EVERY"
  shows "R W (W\<lparr>w_last_ref := (w_last_ref W)(doc := r), w_published_up_to := (w_published_up_to W)(doc := p),
    w_deltas_since_full := (w_deltas_since_full W)(doc \<mapsto> n)\<rparr>)"
proof -
  have d: "R V (V\<lparr>w_deltas_since_full := (w_deltas_since_full V)(doc \<mapsto> n)\<rparr>)" for V
    by (rule deltas) (use assms in \<open>auto split: if_splits\<close>)
  have p: "R (W\<lparr>w_last_ref := f\<rparr>) (W\<lparr>w_last_ref := f, w_published_up_to := (w_published_up_to W)(doc := p)\<rparr>)" for f
    using published [of "W\<lparr>w_last_ref := f\<rparr>" doc p] by simp
  show ?thesis
    using trans [OF trans [OF last_ref p] d] by simp
qed

text \<open>Publishing: the caller must not ask for a delta once a full export is due.\<close>

lemma publish_keyed_leaf:
  assumes "extent = Delta \<Longrightarrow> deltas_of W doc < FULL_PUBLISH_EVERY"
  shows "R W (fst (publish_keyed E doc keying extent W))"
proof (cases "loro_step (lo_export (e_loro E) (export_mode_for (e_loro E) extent (w_published_up_to W doc)) (doc_entry (e_loro E) doc W))")
  case (Pair d r)
  show ?thesis
  proof (cases r)
    case (Inl e)
    with Pair show ?thesis by (simp add: publish_keyed_def Let_def set_doc_leaf)
  next
    case (Inr update)
    let ?preds = "case w_last_ref W doc of None \<Rightarrow> [] | Some r \<Rightarrow> [r]"
    obtain V q where e: "encrypt_keyed E update ?preds keying (set_doc doc d W) = (V, q)" by fastforce
    have V: "R (set_doc doc d W) V" using encrypt_keyed_leaf [of "set_doc doc d W" update ?preds keying] e by simp
    have "deltas_of V doc = deltas_of W doc"
      using encrypt_keyed_cgka [of E update ?preds keying "set_doc doc d W"] e by (auto simp: set_doc_def deltas_of_def)
    with assms have le: "(case extent of Delta \<Rightarrow> deltas_of V doc + 1 | Full \<Rightarrow> 0) \<le> FULL_PUBLISH_EVERY"
      by (cases extent) (auto simp: inc_le)
    have WV: "R W V" by (rule trans [OF set_doc_leaf V])
    show ?thesis
    proof (cases q)
      case (Inl err)
      with Pair Inr e WV show ?thesis by (simp add: publish_keyed_def)
    next
      case (Inr out)
      obtain ch ops where out: "out = (ch, ops)" by fastforce
      show ?thesis
        using trans [OF WV delta_recorded [OF le, of V]] Pair \<open>r = Inr update\<close> e Inr out
        by (simp add: publish_keyed_def Let_def)
    qed
  qed
qed

lemma snapshot_docs_leaf: "R W (fst (snapshot_docs L ds W))"
proof (induction ds arbitrary: W)
  case (Cons a ds)
  obtain doc d where a: "a = (doc, d)" by fastforce
  obtain d' r where r: "snapshot_doc L d = (d', r)" by fastforce
  have "R W (fst (and_then (set_doc doc d' W, r) (\<lambda>bs W. and_then (snapshot_docs L ds W) (\<lambda>rest W. (W, Inr ((doc, bs) # rest))))))"
    by (intro bindI Cons.IH) (simp_all add: set_doc_leaf)
  then show ?case by (simp add: a r)
qed simp

lemma workspace_snapshot_leaf: "R W (fst (workspace_snapshot_of E W))"
  unfolding workspace_snapshot_of_def by (intro bindI snapshot_docs_leaf on_manifest_leaf) simp

lemma found_leaf:
  assumes "found E K secret threshold = Inr W"
  shows "R (joined (e_loro E) K secret (ns_epoch NAMESPACE_INITIAL)) W"
proof -
  let ?X = "e_crypto E" and ?L = "e_loro E"
  let ?W = "joined ?L K secret (ns_epoch NAMESPACE_INITIAL)"
  define r where "r = and_then (on_manifest (set_user ?L (me ?W) []) ?W) (\<lambda>_ W'.
      and_then (on_manifest (set_device ?L (me ?W) ''first device'') W') (\<lambda>_ W'.
      and_then (on_cgka (certify_device ?X (me ?W) (me ?W) 0) W') (\<lambda>_ W'.
      and_then (on_cgka (certify_role ?X (me ?W) Admin 0) W') (\<lambda>_ W'.
      on_cgka (certify_policy ?X threshold 0) W'))))"
  have c: "R V (fst (on_cgka (\<lambda>K. certify ?X (f K) K) V))" for V f
    by (rule on_cgka_leaf [OF evolves_certify])
  have "R ?W (fst r)"
    unfolding r_def certify_device_def certify_role_def certify_policy_def
    by (intro bindI on_manifest_leaf on_cgka_leaf evolves_certify)
  moreover have "fst r = W"
    using assms unfolding found_def Let_def r_def [symmetric] by (auto split: prod.splits sum.splits)
  ultimately show ?thesis by simp
qed

lemma publish_leaf: "R W (fst (publish E doc W))"
  unfolding publish_def
  by (rule publish_keyed_leaf) (auto simp: publish_extent_def split: if_splits)

end

section \<open>Every handler keeps it\<close>

locale workspace_relation = workspace_changes R E
  for R :: "('c, 'r, 'd) workspace \<Rightarrow> ('c, 'r, 'd) workspace \<Rightarrow> bool" and E :: "('c, 'r, 'd) env" +
  assumes drain: "R W (fst (drain_pending E W))"
    and park: "\<not> already_parked doc ch W \<Longrightarrow> R W (park_chunk doc ch W)"
    and forget: "R W (forget_doc doc W)"
begin

lemmas leaves = on_cgka_leaf on_manifest_leaf random_nonce_leaf set_doc_leaf forget_published_leaf encrypt_keyed_leaf
  publish_manifest_leaf republish_namespace_leaf publish_leaf drain rng_leaf counters

lemma publish_full_leaf: "R W (fst (publish_keyed E doc keying Full W))"
  by (rule publish_keyed_leaf) simp

lemma on_resync_leaf: "R W (fst (on_resync E doc W))"
proof -
  have p: "R V (fst (is_published (e_loro E) doc V))" for V
    by (auto simp: is_published_def set_doc_leaf split: option.split)
  have "R V (fst (case is_published (e_loro E) doc V of (V, b) \<Rightarrow> if b then (V, Inr []) else publish_keyed E doc Current Full V))" for V
    by (rule caseI [OF p]) (simp add: publish_full_leaf)
  moreover have "(case is_published (e_loro E) doc V of (V, True) \<Rightarrow> (V, Inr []) | (V, False) \<Rightarrow> publish_keyed E doc Current Full V)
      = (case is_published (e_loro E) doc V of (V, b) \<Rightarrow> if b then (V, Inr []) else publish_keyed E doc Current Full V)" for V
    by (auto split: prod.split bool.split)
  ultimately show ?thesis
    unfolding on_resync_def by (intro bindI) auto
qed

lemma publish_asset_key_leaf: "R W (fst (publish_asset_key E asset key keying W))"
  unfolding publish_asset_key_def by (rule bindI [OF encrypt_keyed_leaf]) auto

lemma seal_asset_key_leaf: "R W (fst (seal_asset_key E asset W))"
proof -
  have "R V (fst (and_then (publish_asset_key E asset key Current (V\<lparr>w_cgka := (w_cgka V)\<lparr>k_rng := g\<rparr>\<rparr>))
      (\<lambda>effects V. (V, Inr (key, effects)))))" for V key g
    by (rule bindI [OF trans [OF rng_leaf publish_asset_key_leaf]]) simp
  then show ?thesis
    unfolding seal_asset_key_def by (intro bindI) (auto split: prod.split)
qed

lemma decrypt_leaf: "on_cgka (decrypt B ch) W = (W', r) \<Longrightarrow> R W W'"
  using on_cgka_leaf [of "decrypt B ch" W] evolves_decrypt by (metis fst_conv)

lemma open_asset_key_leaf: "R W (fst (open_asset_key E ch W))"
  unfolding open_asset_key_def
  by (auto split: prod.split sum.split decrypt_outcome.split dest: decrypt_leaf)

lemma answered_leaf:
  assumes "R W (fst r)"
  shows "R W (fst (and_then r (\<lambda>effects W.
      ((if effects = [] then W else W\<lparr>w_repairs_answered := w_repairs_answered W + 1\<rparr>), Inr effects))))"
  by (rule bindI [OF assms]) (simp add: counters)

lemma reseal_asset_key_leaf: "R W (fst (reseal_asset_key E requester asset ch W))"
proof -
  have "R V (fst (case open_asset_key E ch V of
      (V, v) \<Rightarrow> (case v of AkReady key \<Rightarrow> and_then (publish_asset_key E asset key Fresh V) (\<lambda>effects W.
             ((if effects = [] then W else W\<lparr>w_repairs_answered := w_repairs_answered W + 1\<rparr>), Inr effects))
        | _ \<Rightarrow> (V, Inr []))))" for V
    by (rule caseI [OF open_asset_key_leaf])
      (auto intro!: answered_leaf publish_asset_key_leaf split: asset_key_verdict.split)
  then show ?thesis
    unfolding reseal_asset_key_def by (auto intro!: bindI)
qed

lemma on_chunk_arrived_leaf: "R W (fst (on_chunk_arrived E doc ch W))"
proof (cases "already_parked doc ch W")
  case False
  from trans [OF park [OF False] drain] show ?thesis by (simp add: on_chunk_arrived_def False)
qed (simp add: on_chunk_arrived_def drain)

lemma on_text_edit_leaf: "R W (fst (on_text_edit E doc now mutate W))"
proof -
  have "R V (fst (case q of (d, Inl e) \<Rightarrow> (set_doc doc d V, Inl e)
      | (d, Inr x) \<Rightarrow> publish E doc (set_doc doc (commit_at (e_loro E) now d) V)))" for V and q :: "'d \<times> (core_error + unit)"
    using trans [OF set_doc_leaf publish_leaf] by (auto simp: set_doc_leaf split: prod.split sum.split)
  then show ?thesis unfolding on_text_edit_def Let_def by (intro bindI) auto
qed

lemma on_revert_leaf: "R W (fst (on_revert E doc v now W))"
proof -
  have "R V (fst (case w_docs V doc of None \<Rightarrow> (V, Inl UnknownDocument)
        | Some d \<Rightarrow> (case lo_revert_to (e_loro E) frontiers (claim_authorship (e_loro E) (me V) d) of
              (d, Inl _) \<Rightarrow> (set_doc doc d V, Inl (UnknownVersion (version_display v)))
            | (d, Inr _) \<Rightarrow> publish E doc (set_doc doc (commit_at (e_loro E) now d) V))))" for V frontiers
    using trans [OF set_doc_leaf publish_leaf] by (auto simp: set_doc_leaf split: option.split prod.split sum.split)
  then show ?thesis unfolding on_revert_def Let_def by (intro bindI) auto
qed

lemma on_delete_file_leaf: "R W (fst (on_delete_file E doc W))"
  unfolding on_delete_file_def Let_def
  by (intro bindI on_manifest_leaf) (auto intro: trans [OF forget publish_manifest_leaf])

lemma then_publish_leaf: "R W (fst r) \<Longrightarrow> R W (fst (and_then r (\<lambda>_ W. publish_manifest E keying W)))"
  by (erule bindI) (rule publish_manifest_leaf)

lemma add_asset_version_leaf: "R W (fst (workspace_add_asset_version E doc content meta now W))"
  unfolding workspace_add_asset_version_def Let_def by (intro bindI then_publish_leaf on_manifest_leaf) simp

lemma revert_asset_leaf: "R W (fst (revert_asset E doc content now W))"
  unfolding revert_asset_def by (intro bindI) (auto simp: add_asset_version_leaf split: option.split)

lemma take_checkpoint_leaf: "R W (fst (take_checkpoint E name message now W))"
  unfolding take_checkpoint_def Let_def by (intro bindI on_manifest_leaf publish_manifest_leaf) auto

lemma restore_entries_leaf: "R W (fst (restore_entries E now live entries out W))"
proof (induction entries arbitrary: out W)
  case (Cons entry entries)
  obtain doc v where entry: "entry = (doc, v)" by fastforce
  obtain effects outcomes where out: "out = (effects, outcomes)" by fastforce
  obtain V r where r: "on_revert E doc v now W = (V, r)" by fastforce
  have V: "R W V" using on_revert_leaf [of W doc v now] r by simp
  show ?case
    using Cons.IH trans [OF V Cons.IH] V
    by (auto simp: entry out r split: sum.split core_error.split)
qed simp

lemma restore_checkpoint_leaf: "R W (fst (restore_checkpoint E digest now W))"
  unfolding restore_checkpoint_def by (intro bindI) (auto simp: restore_entries_leaf split: option.split)

subsection \<open>Members, namespaces, control plane\<close>

lemma record_endpoint_leaf: "R W (fst (record_endpoint E W))"
proof -
  have "R W V" if "on_manifest f W = (V, r)" for f V and r :: "core_error + unit"
    using on_manifest_leaf [of W f] that by simp
  then show ?thesis
    by (auto simp: record_endpoint_def split: option.split prod.split sum.split core_error.split)
qed

lemma on_manifest_arrived_leaf: "R W (fst (on_manifest_arrived E ch W))"
proof (cases "on_cgka (decrypt (e_beekem E) ch) W")
  case (Pair V r)
  have V: "R W V" by (rule decrypt_leaf [OF Pair])
  have "R V (fst (and_then (on_manifest (manifest_import (e_loro E) plaintext) V) (\<lambda>_ W.
      and_then (record_endpoint E W) (\<lambda>recorded W.
        if recorded then and_then (publish_manifest E Current W) (\<lambda>rest W. (W, Inr (ManifestUpdated # rest)))
        else (W, Inr [ManifestUpdated])))))" for plaintext
    by (intro bindI on_manifest_leaf record_endpoint_leaf) (auto intro!: bindI publish_manifest_leaf)
  from trans [OF V this] trans [OF V counters(1)] trans [OF V counters(2)] V Pair show ?thesis
    by (auto simp: on_manifest_arrived_def split: sum.split decrypt_outcome.split)
qed

lemma certify_leaf: "R W (fst (on_cgka (certify_device (e_crypto E) d u n) W))" "R W (fst (on_cgka (certify_role (e_crypto E) u c n) W))"
  "R W (fst (on_cgka (certify_proposal (e_crypto E) a sq e n) W))" "R W (fst (on_cgka (certify_approval (e_crypto E) p n) W))"
  by (rule on_cgka_leaf; simp add: certify_device_def certify_role_def certify_proposal_def certify_approval_def evolves_certify)+

lemma on_set_role_leaf: "R W (fst (on_set_role E user r W))"
  unfolding on_set_role_def
  by (intro bindI caseI random_nonce_leaf certify_leaf check_leaf if_leaf) auto

lemma admit_leaf: "R W (fst (admit E m share_key certs noted W))"
  unfolding admit_def Let_def
  by (intro bindI on_cgka_leaf publish_manifest_leaf evolves_add_member) (auto simp: on_manifest_leaf)

lemma on_add_user_leaf: "R W (fst (on_add_user E m share_key r display_name endpoint W))"
  unfolding on_add_user_def Let_def
  by (intro bindI caseI random_nonce_leaf certify_leaf check_leaf admit_leaf)

lemma on_add_device_leaf: "R W (fst (on_add_device E m share_key user label endpoint W))"
  unfolding on_add_device_def Let_def
  by (intro bindI caseI random_nonce_leaf certify_leaf admit_leaf)

lemma perform_removal_leaf: "R W (fst (perform_removal E m W))"
proof -
  have le: "w_namespace V \<le> NamespaceEpoch (sat_succ (ns_epoch (w_namespace V))) (ns_digest (w_namespace V))"
    for V :: "('c, 'r, 'd) workspace"
    using sat_succ_ge [of "ns_epoch (w_namespace V)"]
    by (auto simp: less_eq_namespace_epoch_def)
  show ?thesis
    unfolding perform_removal_def Let_def
    by (intro bindI check_leaf on_cgka_leaf evolves_remove_member) (auto intro: namespace le split: option.split)
qed

lemma on_remove_member_leaf: "R W (fst (on_remove_member E m W))"
  unfolding on_remove_member_def by (intro bindI check_leaf perform_removal_leaf)

lemma mark_executed_leaf: "R W (mark_executed digest W)"
  by (simp add: mark_executed_def executed)

lemma quorum_step_leaf: "R (fst st) (fst (quorum_step E item st))"
proof -
  obtain W effects where st: "st = (W, effects)" by fastforce
  obtain digest action where item: "item = (digest, action)" by fastforce
  have "R W (fst (case perform_removal E m W of (W, Inr produced) \<Rightarrow> (mark_executed digest W, effects @ produced)
      | (W, Inl _) \<Rightarrow> (W, effects)))" for m
    by (cases "perform_removal E m W"; cases "snd (perform_removal E m W)")
      (use perform_removal_leaf [of W m] trans [OF _ mark_executed_leaf] in auto)
  then show ?thesis
    by (auto simp: st item quorum_step_def mark_executed_leaf split: admin_action.split sum.split)
qed

lemma run_quorum_actions_leaf: "R W (fst (run_quorum_actions E W))"
proof -
  have "R W (fst (fold (quorum_step E) items (W, [])))" for items
    by (rule fold_invariant_set [where P = "\<lambda>st. R W (fst st)"]) (auto intro: trans [OF _ quorum_step_leaf])
  then show ?thesis by (simp add: run_quorum_actions_def)
qed

lemma on_propose_leaf: "R W (fst (on_propose E action expires W))"
  unfolding on_propose_def Let_def
  by (intro bindI caseI random_nonce_leaf certify_leaf check_leaf) simp

lemma on_approve_leaf: "R W (fst (on_approve E proposal W))"
  unfolding on_approve_def
  by (intro bindI caseI random_nonce_leaf certify_leaf check_leaf run_quorum_actions_leaf) simp

lemma leave_devices_leaf: "R W (fst (leave_devices E theirs effects W))"
proof (induction theirs arbitrary: effects W)
  case (Cons device theirs)
  show ?case
    by (auto intro!: bindI on_cgka_leaf evolves_remove_member Cons split: sum.split)
qed simp

lemma on_leave_leaf: "R W (fst (on_leave E W))"
  unfolding on_leave_def Let_def by (intro bindI check_leaf leave_devices_leaf)

lemma on_namespace_arrived_leaf: "R W (fst (on_namespace_arrived E epoch ch W))"
proof -
  have "R V (forget_published (V\<lparr>w_namespace := n, w_namespace_ticket := t\<rparr>))" if "w_namespace V \<le> n" for V n t
    using trans [OF trans [OF namespace [OF that] ticket] forget_published_leaf, of t] by simp
  then show ?thesis
    unfolding on_namespace_arrived_def Let_def
    by (intro bindI on_cgka_leaf evolves_decrypt) (auto split: decrypt_outcome.split)
qed

lemma on_repair_requested_leaf: "R W (fst (on_repair_requested E requester target W))"
  unfolding on_repair_requested_def Let_def
  by (auto intro!: answered_leaf publish_manifest_leaf republish_namespace_leaf publish_full_leaf split: repair_target.split)

lemma on_control_op_leaf: "R W (fst (on_control_op E authorized W))"
  unfolding on_control_op_def
  by (intro bindI on_cgka_leaf evolves_merge) (auto intro!: bindI on_cgka_leaf evolves_merge_pending drain)

lemma on_certs_arrived_leaf: "R W (fst (on_certs_arrived E certs W))"
proof -
  obtain K n where a: "absorb_certificates (e_crypto E) certs (w_cgka W) = (K, n)" by fastforce
  have K: "R W (W\<lparr>w_cgka := K\<rparr>)"
    using evolves_absorb [of "e_crypto E" "w_cgka W" certs] a by (simp add: cgka)
  have "R V (fst (and_then (if 0 < n then and_then (on_cgka (merge_pending (e_beekem E)) V) (\<lambda>_ W. drain_pending E W)
          else (V, Inr [])) (\<lambda>effects W. case run_quorum_actions E W of (W, rest) \<Rightarrow> (W, Inr (effects @ rest)))))" for V
    by (intro bindI caseI run_quorum_actions_leaf) (auto intro!: bindI on_cgka_leaf evolves_merge_pending drain)
  from trans [OF K this] show ?thesis by (simp add: on_certs_arrived_def a Let_def)
qed

text \<open>The two entry points, on anything but a freshly minted namespace.\<close>

lemma handle_leaf:
  assumes "\<not> mints ev"
  shows "R W (fst (handle E now ev W))"
proof (cases ev)
  case (EvAddUser m sk r dn ep)
  show ?thesis unfolding EvAddUser handle.simps by (intro bindI check_leaf on_add_user_leaf)
next
  case (EvAddDevice m sk u l ep)
  show ?thesis unfolding EvAddDevice handle.simps by (intro bindI check_leaf on_add_device_leaf)
next
  case EvRotate
  show ?thesis unfolding EvRotate handle.simps by (rule bindI [OF on_cgka_leaf [OF evolves_rotate_key]]) simp
next
  case (EvAnnounceEndpoint ep)
  have "R W (fst (record_endpoint E (W\<lparr>w_endpoint_id := Some ep\<rparr>)))" by (rule trans [OF endpoint record_endpoint_leaf])
  then show ?thesis unfolding EvAnnounceEndpoint handle.simps
    by (rule bindI) (simp add: publish_manifest_leaf)
next
  case (EvSetDisplayName dn)
  show ?thesis by (simp add: EvSetDisplayName then_publish_leaf [OF on_manifest_leaf] split: option.split)
next
  case (EvUpsertFile e)
  show ?thesis unfolding EvUpsertFile handle.simps by (intro bindI check_leaf then_publish_leaf on_manifest_leaf)
next
  case (EvRenameFile doc path)
  show ?thesis unfolding EvRenameFile handle.simps by (intro bindI check_leaf then_publish_leaf on_manifest_leaf)
next
  case (EvSetInfo i)
  show ?thesis unfolding EvSetInfo handle.simps by (intro bindI check_leaf then_publish_leaf on_manifest_leaf)
qed (use assms in \<open>simp_all add: on_control_op_leaf on_certs_arrived_leaf on_chunk_arrived_leaf on_append_def on_write_def
    on_insert_def on_delete_def on_text_edit_leaf on_revert_leaf on_delete_file_leaf on_resync_leaf on_remove_member_leaf
    on_leave_leaf on_propose_leaf on_approve_leaf on_manifest_arrived_leaf on_set_role_leaf
    then_publish_leaf [OF on_manifest_leaf] publish_manifest_leaf republish_namespace_leaf on_namespace_arrived_leaf
    on_repair_requested_leaf\<close>)

lemma log_ops_leaf: "R W (fst (log_ops E now ops effects W))"
proof (induction ops arbitrary: effects W)
  case (Cons op ops)
  obtain V r where r: "handle E now (EvControlOp (bare op)) W = (V, r)" by fastforce
  have "R W V" using handle_leaf [of "EvControlOp (bare op)" W now] r by simp
  from trans [OF this Cons.IH] r show ?case by (auto split: sum.split)
qed simp

lemma on_control_leaf: "R W (fst (on_control E now msg W))"
proof (cases msg)
  case (MsgLog ops certs)
  show ?thesis unfolding MsgLog on_control.simps
    by (intro bindI caseI check_leaf log_ops_leaf handle_leaf) simp_all
next
  case (MsgCerts certs)
  show ?thesis unfolding MsgCerts on_control.simps by (intro bindI check_leaf handle_leaf) simp
next
  case (MsgRepair m target epoch)
  show ?thesis unfolding MsgRepair on_control.simps by (intro bindI handle_leaf) simp_all
qed (simp_all add: on_control_op_leaf on_namespace_arrived_leaf)

end

text \<open>
  Everything the driver of a workspace can do to it: events, control messages, the calls of the file
  layer, calls on its controller, taking a snapshot (which commits the documents), and coming with another
  random generator.
\<close>

inductive workspace_step :: "('c, 'r, 'd) env \<Rightarrow> ('c, 'r, 'd) workspace \<Rightarrow> ('c, 'r, 'd) workspace \<Rightarrow> bool" for E where
  event: "workspace_step E W (fst (handle E now ev W))"
| message: "workspace_step E W (fst (on_control E now msg W))"
| seal: "workspace_step E W (fst (seal_asset_key E asset W))"
| open_key: "workspace_step E W (fst (open_asset_key E ch W))"
| reseal: "workspace_step E W (fst (reseal_asset_key E requester asset ch W))"
| take_cp: "workspace_step E W (fst (take_checkpoint E name message now W))"
| restore_cp: "workspace_step E W (fst (restore_checkpoint E digest now W))"
| add_version: "workspace_step E W (fst (workspace_add_asset_version E doc content meta now W))"
| revert_version: "workspace_step E W (fst (revert_asset E doc content now W))"
| snapshot: "workspace_step E W (fst (workspace_snapshot_of E W))"
| reseeded: "workspace_step E W (W\<lparr>w_cgka := (w_cgka W)\<lparr>k_rng := rng\<rparr>\<rparr>)"
| controller: "controller_step (e_beekem E) (e_crypto E) (w_cgka W) K \<Longrightarrow> workspace_step E W (W\<lparr>w_cgka := K\<rparr>)"

text \<open>Relations that a freshly minted namespace keeps as well are kept by every step.\<close>

locale workspace_relation_minting = workspace_relation R E
  for R :: "('c, 'r, 'd) workspace \<Rightarrow> ('c, 'r, 'd) workspace \<Rightarrow> bool" and E :: "('c, 'r, 'd) env" +
  assumes minted: "ns_epoch n = ns_epoch (w_namespace W) \<Longrightarrow> R W (W\<lparr>w_namespace := n\<rparr>)"
begin

lemma on_namespace_minted_leaf: "R W (fst (on_namespace_minted E epoch tk W))"
proof (cases "epoch = ns_epoch (w_namespace W)")
  case True
  obtain V r where r: "on_cgka (encrypt_fresh (e_beekem E) (e_hash E) tk []) W = (V, r)" by fastforce
  have V: "R W V"
    using on_cgka_leaf [where f = "encrypt_fresh (e_beekem E) (e_hash E) tk []" and W = W, OF evolves_encrypt_fresh] r by simp
  have "w_namespace V = w_namespace W"
    using on_cgka_only [of "encrypt_fresh (e_beekem E) (e_hash E) tk []" W] r by auto
  then have "ns_epoch (namespace_epoch_of (e_hash E) epoch tk) = ns_epoch (w_namespace V)"
    by (simp add: namespace_epoch_of_def True)
  note m = trans [OF trans [OF trans [OF V minted [OF this]] ticket [where t = tk]] forget_published_leaf]
  show ?thesis
  proof (cases r)
    case (Inr out)
    obtain ch ops where "out = (ch, ops)" by fastforce
    with Inr r m True show ?thesis by (simp add: on_namespace_minted_def)
  qed (use V r True in \<open>simp add: on_namespace_minted_def\<close>)
qed (simp add: on_namespace_minted_def)

lemma any_handle_leaf: "R W (fst (handle E now ev W))"
  by (cases "mints ev") (auto elim!: mints.elims simp: on_namespace_minted_leaf handle_leaf)

lemma step_leaf: "workspace_step E W W' \<Longrightarrow> R W W'"
  by (induction rule: workspace_step.induct)
    (auto intro: any_handle_leaf on_control_leaf seal_asset_key_leaf open_asset_key_leaf reseal_asset_key_leaf
      take_checkpoint_leaf restore_checkpoint_leaf add_asset_version_leaf revert_asset_leaf workspace_snapshot_leaf
      rng_leaf cgka controller_step_evolves)

end

section \<open>Relations that do not look at the queue\<close>

locale queue_blind = workspace_changes R E
  for R :: "('c, 'r, 'd) workspace \<Rightarrow> ('c, 'r, 'd) workspace \<Rightarrow> bool" and E :: "('c, 'r, 'd) env" +
  assumes queue: "R W (W\<lparr>w_pending_chunks := q, w_pending_bytes := b\<rparr>)"
begin

lemma enqueue_leaf: "R W (enqueue p W)"
  using queue [where W = W and q = "w_pending_chunks W @ [p]" and b = "w_pending_bytes W + chunk_size (pk_chunk p)"]
  by (simp add: enqueue_def)

lemma make_room_leaf: "R W (make_room sz W)"
proof (induction sz W rule: make_room.induct)
  case (1 sz W)
  let ?b = "w_pending_bytes W - chunk_size (pk_chunk (hd (w_pending_chunks W)))"
  have "R W (W\<lparr>w_pending_chunks := tl (w_pending_chunks W), w_pending_bytes := ?b,
      w_evicted_chunks := w_evicted_chunks W + 1\<rparr>)"
    using trans [OF queue [where W = W and q = "tl (w_pending_chunks W)" and b = ?b] counters(4) [where u = "w_evicted_chunks W + 1"]]
    by simp
  note step = trans [OF this]
  show ?case
  proof (cases "w_pending_chunks W \<noteq> [] \<and> (MAX_PENDING_CHUNKS \<le> length (w_pending_chunks W)
         \<or> MAX_PENDING_CHUNK_BYTES < w_pending_bytes W + sz)")
    case True
    from step [OF 1 [OF True]] True show ?thesis by (subst make_room.simps) simp
  next
    case False
    then show ?thesis by (subst make_room.simps) (simp only: if_False refl)
  qed
qed

lemma try_apply_leaf: "R W (fst (try_apply E doc ch W))"
proof (cases "on_cgka (decrypt (e_beekem E) ch) W")
  case (Pair V r)
  have V: "R W V"
    using on_cgka_leaf [where f = "decrypt (e_beekem E) ch" and W = W, OF evolves_decrypt] Pair by simp
  have "R V ((set_doc doc d V)\<lparr>w_last_ref := (w_last_ref V)(doc \<mapsto> r)\<rparr>)" for d r
    using trans [OF set_doc_leaf last_ref, of V doc d doc "Some r"] by (simp add: set_doc_def)
  from trans [OF V this] trans [OF V set_doc_leaf] V Pair show ?thesis
    by (auto simp: try_apply_def split: sum.split decrypt_outcome.split prod.split bool.split)
qed

lemma drain_step_leaf: "R (fst st) (fst (drain_step E p st))"
proof -
  obtain W effects applied where st: "st = (W, effects, applied)" by (metis surj_pair)
  obtain V v where t: "try_apply E (pk_doc p) (pk_chunk p) W = (V, v)" by fastforce
  have V: "R W V" using try_apply_leaf [of W "pk_doc p" "pk_chunk p"] t by simp
  from trans [OF V counters(1)] trans [OF V counters(2)] trans [OF V enqueue_leaf] V show ?thesis
    by (cases v) (auto simp: st drain_step_def t Let_def)
qed

lemma drain_round_leaf: "R (fst st) (fst (fst (drain_round E st)))"
proof -
  obtain W effects where st: "st = (W, effects)" by fastforce
  have "R W (fst (fold (drain_step E) ps (W\<lparr>w_pending_chunks := [], w_pending_bytes := 0\<rparr>, effects, 0)))" for ps
    by (rule fold_invariant_set [where P = "\<lambda>st. R W (fst st)"]) (auto intro: queue trans [OF _ drain_step_leaf])
  then show ?thesis by (simp add: st drain_round_def split: prod.split) (metis fst_conv)
qed

lemma drain_pending_leaf: "R W (fst (drain_pending E W))"
proof -
  have "R W (fst (drain_loop E (W, [])))"
    by (rule drain_settles.loop_inv [where P = "\<lambda>st. R W (fst st)"]) (auto intro: trans [OF _ drain_round_leaf])
  then show ?thesis by (cases "drain_loop E (W, [])") (simp add: drain_pending_def)
qed

lemma forget_doc_leaf: "R W (forget_doc doc W)"
proof -
  have d: "R V (V\<lparr>w_deltas_since_full := (w_deltas_since_full V)(doc := None)\<rparr>)" for V
    by (rule deltas) (auto split: if_splits)
  show ?thesis
    using trans [OF trans [OF trans [OF trans [OF docs [where W = W and doc = doc and x = None]
      last_ref [where doc = doc and r = None]] published [where doc = doc and v = None]] d]
      queue [where q = "filter (\<lambda>p. pk_doc p \<noteq> doc) (w_pending_chunks W)"
        and b = "fold (\<lambda>p b. if pk_doc p \<noteq> doc then b else b - chunk_size (pk_chunk p)) (w_pending_chunks W) (w_pending_bytes W)"]]
    by (simp add: forget_doc_def)
qed

end

sublocale queue_blind \<subseteq> workspace_relation R E
  by unfold_locales (auto intro: drain_pending_leaf forget_doc_leaf trans [OF make_room_leaf enqueue_leaf] simp: park_chunk_def)

end
