(* ===== verification/Workspace_Invariants.thy ===== *)
theory Workspace_Invariants
  imports Workspace_Relations "HOL-Library.Sublist"
begin

text \<open>
  The invariants of a workspace over everything its driver can do: the bounds of the queue of parked
  chunks, of the parked operations and of the deltas between two full exports, and what only ever
  grows. The relations of the previous theory are instantiated here.
\<close>

section \<open>The queue of parked chunks\<close>

definition parked_view :: "('c, 'r, 'd) workspace \<Rightarrow> (document_uuid \<times> chunk) list" where
  "parked_view W = map (\<lambda>p. (pk_doc p, pk_chunk p)) (w_pending_chunks W)"

definition park_key :: "document_uuid \<times> chunk \<Rightarrow> document_uuid \<times> chunk_ref \<times> bytes32" where
  "park_key = (\<lambda>(doc, ch). (doc, ch_content_ref ch, ch_pcs_key_hash ch))"

definition view_bytes :: "(document_uuid \<times> chunk) list \<Rightarrow> nat" where
  "view_bytes q = sum_list (map (\<lambda>(_, ch). chunk_size ch) q)"

text \<open>
  The byte count is the sum of the parked sizes, at most \<open>MAX_PENDING_CHUNKS\<close> chunks are parked, their
  bytes stay below \<open>MAX_PENDING_CHUNK_BYTES\<close> unless a single chunk exceeds it, and no chunk is parked twice.
\<close>

definition view_ok :: "(document_uuid \<times> chunk) list \<Rightarrow> bool" where
  "view_ok q \<longleftrightarrow> length q \<le> MAX_PENDING_CHUNKS \<and> (view_bytes q \<le> MAX_PENDING_CHUNK_BYTES \<or> length q \<le> 1)
     \<and> distinct (map park_key q)"

definition queue_ok :: "('c, 'r, 'd) workspace \<Rightarrow> bool" where
  "queue_ok W \<longleftrightarrow> w_pending_bytes W = view_bytes (parked_view W) \<and> view_ok (parked_view W)"

lemma view_bytes_simps [simp]:
  "view_bytes [] = 0" "view_bytes ((doc, ch) # q) = chunk_size ch + view_bytes q"
  "view_bytes (q @ r) = view_bytes q + view_bytes r"
  by (simp_all add: view_bytes_def)

lemma view_ok_Nil [simp]: "view_ok []"
  by (simp add: view_ok_def)

lemma queue_ok_cong:
  "w_pending_chunks W' = w_pending_chunks W \<Longrightarrow> w_pending_bytes W' = w_pending_bytes W \<Longrightarrow> queue_ok W \<Longrightarrow> queue_ok W'"
  by (simp add: queue_ok_def parked_view_def)

lemma view_bytes_subseq: "subseq q r \<Longrightarrow> view_bytes q \<le> view_bytes r"
  by (induction rule: list_emb.induct) auto

lemma distinct_subseq: "subseq xs ys \<Longrightarrow> distinct ys \<Longrightarrow> distinct xs"
  by (induction rule: list_emb.induct) (auto dest: list_emb_set)

lemma view_ok_subseq:
  assumes "subseq q r" and "view_ok r"
  shows "view_ok q"
proof -
  have "subseq (map park_key q) (map park_key r)" by (rule subseq_map [OF assms(1)])
  then have "distinct (map park_key q)" using assms(2) distinct_subseq by (auto simp: view_ok_def)
  with assms view_bytes_subseq [OF assms(1)] list_emb_length [OF assms(1)] show ?thesis
    by (auto simp: view_ok_def)
qed

lemma make_room_spec:
  assumes "queue_ok W"
  shows "queue_ok (make_room sz W) \<and> suffix (parked_view (make_room sz W)) (parked_view W)
    \<and> (w_pending_chunks (make_room sz W) = [] \<or> length (w_pending_chunks (make_room sz W)) < MAX_PENDING_CHUNKS
        \<and> w_pending_bytes (make_room sz W) + sz \<le> MAX_PENDING_CHUNK_BYTES)"
  using assms
proof (induction sz W rule: make_room.induct)
  case (1 sz W)
  let ?full = "w_pending_chunks W \<noteq> [] \<and> (MAX_PENDING_CHUNKS \<le> length (w_pending_chunks W)
         \<or> MAX_PENDING_CHUNK_BYTES < w_pending_bytes W + sz)"
  show ?case
  proof (cases ?full)
    case True
    then obtain p q where q: "w_pending_chunks W = p # q" by (meson list.exhaust)
    let ?W = "W\<lparr>w_pending_chunks := tl (w_pending_chunks W),
             w_pending_bytes := w_pending_bytes W - chunk_size (pk_chunk (hd (w_pending_chunks W))),
             w_evicted_chunks := w_evicted_chunks W + 1\<rparr>"
    have v: "parked_view W = (pk_doc p, pk_chunk p) # parked_view ?W" by (simp add: parked_view_def q)
    have "subseq (parked_view ?W) (parked_view W)" unfolding v by (rule list_emb_Cons) simp
    then have "view_ok (parked_view ?W)" using "1.prems" view_ok_subseq by (auto simp: queue_ok_def)
    with "1.prems" have "queue_ok ?W" by (simp add: queue_ok_def v) (simp add: q parked_view_def)
    from 1(1) [OF True this] v show ?thesis
      unfolding make_room.simps [of sz W] if_P [OF True] by (auto simp: suffix_Cons)
  next
    case False
    with "1.prems" show ?thesis unfolding make_room.simps [of sz W] if_not_P [OF False] by auto
  qed
qed

lemma queue_ok_park:
  assumes "queue_ok W" and "\<not> already_parked doc ch W"
  shows "queue_ok (park_chunk doc ch W)"
proof -
  let ?V = "make_room (chunk_size ch) W"
  have V: "queue_ok ?V" "suffix (parked_view ?V) (parked_view W)"
    and room: "w_pending_chunks ?V = [] \<or> length (w_pending_chunks ?V) < MAX_PENDING_CHUNKS
        \<and> w_pending_bytes ?V + chunk_size ch \<le> MAX_PENDING_CHUNK_BYTES"
    using make_room_spec [OF assms(1), of "chunk_size ch"] by simp_all
  have "park_key (doc, ch) \<notin> set (map park_key (parked_view W))"
    using assms(2) by (auto simp: already_parked_def list_ex_iff parked_view_def park_key_def)
  with V(2) have new: "park_key (doc, ch) \<notin> set (map park_key (parked_view ?V))"
    using set_mono_suffix by fastforce
  have view: "parked_view (park_chunk doc ch W) = parked_view ?V @ [(doc, ch)]"
    by (simp add: park_chunk_def enqueue_def parked_view_def)
  have bytes: "w_pending_bytes (park_chunk doc ch W) = w_pending_bytes ?V + chunk_size ch"
    by (simp add: park_chunk_def enqueue_def)
  have "w_pending_chunks ?V = [] \<longleftrightarrow> parked_view ?V = []" "length (w_pending_chunks ?V) = length (parked_view ?V)"
    by (simp_all add: parked_view_def)
  with V(1) room new show ?thesis
    by (auto simp: queue_ok_def view_ok_def view bytes MAX_PENDING_CHUNKS_def)
qed

lemma drain_step_queue:
  assumes "drain_step E p (W, effects, n) = (W', effects', n')"
  shows "\<exists>q. subseq q [(pk_doc p, pk_chunk p)] \<and> parked_view W' = parked_view W @ q
    \<and> w_pending_bytes W' = w_pending_bytes W + view_bytes q"
proof -
  obtain V v where t: "try_apply E (pk_doc p) (pk_chunk p) W = (V, v)" by fastforce
  let ?q = "if v = CvAwaitingKey \<or> v = CvAwaitingDeps then [(pk_doc p, pk_chunk p)] else []"
  have "parked_view W' = parked_view W @ ?q \<and> w_pending_bytes W' = w_pending_bytes W + view_bytes ?q"
    using assms try_apply_queue [OF t] unfolding drain_step_def
    by (cases v) (auto simp: t Let_def enqueue_def parked_view_def)
  moreover have "subseq ?q [(pk_doc p, pk_chunk p)]" by simp
  ultimately show ?thesis by blast
qed

lemma drain_fold_queue:
  assumes "fold (drain_step E) ps (W, effects, n) = (W', effects', n')"
  shows "\<exists>q. subseq q (map (\<lambda>p. (pk_doc p, pk_chunk p)) ps) \<and> parked_view W' = parked_view W @ q
    \<and> w_pending_bytes W' = w_pending_bytes W + view_bytes q"
  using assms
proof (induction ps arbitrary: W effects n)
  case (Cons p ps)
  obtain V fx m where s: "drain_step E p (W, effects, n) = (V, fx, m)" by (metis surj_pair)
  obtain q where q: "subseq q [(pk_doc p, pk_chunk p)]" "parked_view V = parked_view W @ q"
    "w_pending_bytes V = w_pending_bytes W + view_bytes q"
    using drain_step_queue [OF s] by blast
  obtain r where r: "subseq r (map (\<lambda>p. (pk_doc p, pk_chunk p)) ps)" "parked_view W' = parked_view V @ r"
    "w_pending_bytes W' = w_pending_bytes V + view_bytes r"
    using Cons.IH [of V fx m] Cons.prems s by auto
  have "subseq (q @ r) (map (\<lambda>p. (pk_doc p, pk_chunk p)) (p # ps))"
    using list_emb_append_mono [OF q(1) r(1)] by simp
  with q r show ?case by (intro exI [of _ "q @ r"]) simp
qed simp

lemma drain_round_queue: "queue_ok (fst st) \<Longrightarrow> queue_ok (fst (fst (drain_round E st)))"
proof -
  assume ok: "queue_ok (fst st)"
  obtain W effects where st: "st = (W, effects)" by fastforce
  obtain W' fx n where f: "fold (drain_step E) (w_pending_chunks W)
      (W\<lparr>w_pending_chunks := [], w_pending_bytes := 0\<rparr>, effects, 0) = (W', fx, n)" by (metis surj_pair)
  from drain_fold_queue [OF f] obtain q where "subseq q (parked_view W)" "parked_view W' = q"
    "w_pending_bytes W' = view_bytes q"
    by (auto simp: parked_view_def)
  with ok view_ok_subseq [of q "parked_view W"] have "queue_ok W'"
    by (simp add: st queue_ok_def)
  then show ?thesis by (simp add: st drain_round_def f)
qed

lemma drain_pending_queue:
  assumes "queue_ok W"
  shows "queue_ok (fst (drain_pending E W))"
proof -
  have "queue_ok (fst (drain_loop E (W, [])))"
    by (rule drain_settles.loop_inv [where P = "\<lambda>st. queue_ok (fst st)"]) (simp_all add: assms drain_round_queue)
  then show ?thesis by (cases "drain_loop E (W, [])") (simp add: drain_pending_def)
qed

lemma forget_bytes:
  "view_bytes (map (\<lambda>p. (pk_doc p, pk_chunk p)) ps) \<le> b \<Longrightarrow>
   fold (\<lambda>p b. if pk_doc p \<noteq> doc then b else b - chunk_size (pk_chunk p)) ps b
     + view_bytes (map (\<lambda>p. (pk_doc p, pk_chunk p)) ps)
   = b + view_bytes (map (\<lambda>p. (pk_doc p, pk_chunk p)) (filter (\<lambda>p. pk_doc p \<noteq> doc) ps))"
proof (induction ps arbitrary: b)
  case (Cons p ps)
  have le: "view_bytes (map (\<lambda>p. (pk_doc p, pk_chunk p)) ps) \<le> b - chunk_size (pk_chunk p)"
    and le': "chunk_size (pk_chunk p) + view_bytes (map (\<lambda>p. (pk_doc p, pk_chunk p)) ps) \<le> b"
    using Cons.prems by simp_all
  show ?case
    using Cons.IH [OF le] Cons.IH [of b] le' by (cases "pk_doc p = doc") simp_all
qed simp

lemma forget_doc_queue: "queue_ok W \<Longrightarrow> queue_ok (forget_doc doc W)"
proof -
  assume ok: "queue_ok W"
  let ?view = "map (\<lambda>p. (pk_doc p, pk_chunk p))"
  have "subseq (?view (filter (\<lambda>p. pk_doc p \<noteq> doc) (w_pending_chunks W))) (?view (w_pending_chunks W))"
    by (rule subseq_map) (rule subseq_filter_left)
  with ok view_ok_subseq have "view_ok (parked_view (forget_doc doc W))"
    by (fastforce simp: queue_ok_def parked_view_def forget_doc_def)
  moreover have "w_pending_bytes (forget_doc doc W) = view_bytes (parked_view (forget_doc doc W))"
    using forget_bytes [of "w_pending_chunks W" "w_pending_bytes W" doc] ok
    by (simp add: queue_ok_def parked_view_def forget_doc_def)
  ultimately show ?thesis by (simp add: queue_ok_def)
qed

text \<open>Nothing else touches the queue.\<close>

interpretation queue_kept: workspace_relation "\<lambda>W W'. queue_ok W \<longrightarrow> queue_ok W'" E for E :: "('c, 'r, 'd) env"
  by unfold_locales (auto intro: queue_ok_cong drain_pending_queue queue_ok_park forget_doc_queue)

section \<open>What only grows\<close>

definition deltas_ok :: "('c, 'r, 'd) workspace \<Rightarrow> bool" where
  "deltas_ok W \<longleftrightarrow> (\<forall>doc n. w_deltas_since_full W doc = Some n \<longrightarrow> n \<le> FULL_PUBLISH_EVERY)"

text \<open>The maps of a workspace have finitely many entries, as its snapshots need.\<close>

definition maps_finite :: "('c, 'r, 'd) workspace \<Rightarrow> bool" where
  "maps_finite W \<longleftrightarrow> finite (dom (w_docs W)) \<and> finite (dom (w_last_ref W)) \<and> finite (dom (w_published_up_to W))"

definition advances :: "('c, 'r, 'd) env \<Rightarrow> ('c, 'r, 'd) workspace \<Rightarrow> ('c, 'r, 'd) workspace \<Rightarrow> bool" where
  "advances E W W' \<longleftrightarrow> evolves (e_crypto E) (w_cgka W) (w_cgka W') \<and> w_secret W' = w_secret W
     \<and> w_executed_here W \<subseteq> w_executed_here W' \<and> (deltas_ok W \<longrightarrow> deltas_ok W')
     \<and> (maps_finite W \<longrightarrow> maps_finite W') \<and> ns_epoch (w_namespace W) \<le> ns_epoch (w_namespace W')"

lemma namespace_epoch_mono: "n \<le> n' \<Longrightarrow> ns_epoch n \<le> ns_epoch n'"
  by (auto simp: less_eq_namespace_epoch_def)

interpretation advancing: queue_blind "advances E" E for E :: "('c, 'r, 'd) env"
proof unfold_locales
  fix W W' W'' :: "('c, 'r, 'd) workspace"
  show "advances E W W' \<Longrightarrow> advances E W' W'' \<Longrightarrow> advances E W W''"
    unfolding advances_def by (auto intro: evolves_trans [of "e_crypto E" "w_cgka W" "w_cgka W'"])
next
  fix ns and W :: "('c, 'r, 'd) workspace"
  assume "\<And>doc n. ns doc = Some n \<Longrightarrow> n \<le> FULL_PUBLISH_EVERY \<or> w_deltas_since_full W doc = Some n"
  then show "advances E W (W\<lparr>w_deltas_since_full := ns\<rparr>)"
    unfolding advances_def deltas_ok_def maps_finite_def by fastforce
qed (auto simp: advances_def deltas_ok_def maps_finite_def namespace_epoch_mono split: if_splits)

interpretation advancing_minting: workspace_relation_minting "advances E" E for E
  by unfold_locales (auto simp: advances_def deltas_ok_def maps_finite_def)

interpretation queue_kept_minting: workspace_relation_minting "\<lambda>W W'. queue_ok W \<longrightarrow> queue_ok W'" E
  for E :: "('c, 'r, 'd) env"
  by unfold_locales (auto intro: queue_ok_cong)

text \<open>Only minting can lower the pair of generation and digest.\<close>

interpretation namespace_grows: queue_blind "\<lambda>W W'. w_namespace W \<le> w_namespace W'" E for E
  by unfold_locales auto

section \<open>Reachable workspaces\<close>

text \<open>
  A workspace is founded or joined, then driven by the steps of \<open>workspace_step\<close> and by restarts from
  its own snapshots.
\<close>

inductive workspace_reachable :: "('c, 'r, 'd) env \<Rightarrow> ('c, 'r, 'd) workspace \<Rightarrow> bool" for E where
  founded: "controller_initial (e_beekem E) (e_crypto E) K \<Longrightarrow> found E (K\<lparr>k_rng := rng\<rparr>) secret threshold = Inr W
    \<Longrightarrow> workspace_reachable E W"
| joined: "controller_initial (e_beekem E) (e_crypto E) K \<Longrightarrow> workspace_reachable E (joined (e_loro E) K secret n)"
| stepped: "workspace_reachable E W \<Longrightarrow> workspace_step E W W' \<Longrightarrow> workspace_reachable E W'"
| restarted: "workspace_reachable E W \<Longrightarrow> workspace_snapshot_of E W = (W1, Inr ss)
    \<Longrightarrow> workspace_from_snapshot E ss rng = Inr W' \<Longrightarrow> workspace_reachable E W'"

lemmas step_advances = advancing_minting.step_leaf

lemma step_queue: "workspace_step E W W' \<Longrightarrow> queue_ok W \<Longrightarrow> queue_ok W'"
  using queue_kept_minting.step_leaf by blast

definition workspace_ok :: "('c, 'r, 'd) workspace \<Rightarrow> bool" where
  "workspace_ok W \<longleftrightarrow> members_wf (w_cgka W) \<and> queue_ok W \<and> deltas_ok W \<and> maps_finite W"

lemma workspace_ok_joined: "members_wf K \<Longrightarrow> workspace_ok (joined L K secret n)"
  by (simp add: workspace_ok_def joined_def queue_ok_def parked_view_def deltas_ok_def maps_finite_def)

lemma members_wf_rng [simp]: "members_wf (K\<lparr>k_rng := r\<rparr>) = members_wf K"
  by (simp add: members_wf_def)

lemma controller_initial_members: "controller_initial B X K \<Longrightarrow> members_wf K"
  by (induction rule: controller_initial.induct) (auto intro: members_wf_create members_wf_join)

lemma workspace_ok_step: "workspace_step E W W' \<Longrightarrow> workspace_ok W \<Longrightarrow> workspace_ok W'"
  using step_advances [of E W W'] step_queue [of E W W'] by (simp add: workspace_ok_def advances_def evolves_def)

lemma workspace_ok_found:
  assumes "found E K secret threshold = Inr W" and "members_wf K"
  shows "workspace_ok W"
proof -
  let ?W = "joined (e_loro E) K secret (ns_epoch NAMESPACE_INITIAL)"
  have "advances E ?W W" by (rule advancing.found_leaf [OF assms(1)])
  moreover have "queue_ok ?W \<longrightarrow> queue_ok W" by (rule queue_kept.found_leaf [OF assms(1)])
  ultimately show ?thesis
    using workspace_ok_joined [OF assms(2), of "e_loro E" secret] by (simp add: workspace_ok_def advances_def evolves_def)
qed

text \<open>What a snapshot keeps of the member sets comes back as the same sets.\<close>

lemma restored_members:
  assumes "members_wf (K :: ('c, 'r) controller)" and "controller_from_snapshot B X (controller_snapshot K) rng = Inr K'"
  shows "k_known_members K' = k_known_members K" and "k_current_members K' = k_current_members K"
    and "members_wf K'"
proof -
  have f: "finite (k_known_members K)" "k_current_members K \<subseteq> k_known_members K" "finite (k_current_members K)"
    using assms(1) finite_subset by (auto simp: members_wf_def)
  have c: "collect_results (map (member_from_bytes X) ms) = Inr known \<Longrightarrow> known = ms" for ms known
    by (induction ms arbitrary: known) (auto simp: member_from_bytes_def split: if_splits sum.splits)
  show known: "k_known_members K' = k_known_members K" and current: "k_current_members K' = k_current_members K"
    using assms(2) f
    by (auto simp: controller_from_snapshot_def controller_snapshot_def split: sum.splits dest!: c)
  have "k_parked K' = []"
    using assms(2) by (auto simp: controller_from_snapshot_def split: sum.splits)
  with known current f show "members_wf K'" by (simp add: members_wf_def)
qed

lemma dom_fold_updates: "dom (fold (\<lambda>(k, v) m. m(k \<mapsto> v)) xs m) = fst ` set xs \<union> dom m"
  by (induction xs arbitrary: m) auto

lemma restored_finite: "workspace_from_snapshot E ss rng = Inr W \<Longrightarrow> maps_finite W"
  by (auto simp: workspace_from_snapshot_def Let_def maps_finite_def dom_fold_updates split: if_splits prod.splits sum.splits)

lemma restored_ok:
  assumes "members_wf (w_cgka W)" and "workspace_snapshot_of E W = (W1, Inr ss)" and "workspace_from_snapshot E ss rng = Inr W'"
  shows "workspace_ok W'"
proof -
  have "advances E W W1" using advancing.workspace_snapshot_leaf [of E W] assms(2) by simp
  then have "members_wf (w_cgka W1)" using assms(1) by (simp add: advances_def evolves_def)
  moreover have "ss_cgka ss = controller_snapshot (w_cgka W1)"
    using assms(2) unfolding workspace_snapshot_of_def by (auto elim!: and_then_InrE)
  moreover obtain K where "controller_from_snapshot (e_beekem E) (e_crypto E) (ss_cgka ss) rng = Inr K" "w_cgka W' = K"
    "w_pending_chunks W' = []" "w_pending_bytes W' = 0" "w_deltas_since_full W' = Map.empty"
    using assms(3) by (auto simp: workspace_from_snapshot_def Let_def split: if_splits prod.splits sum.splits)
  ultimately show ?thesis
    using restored_members(3) restored_finite [OF assms(3)] by (fastforce simp: workspace_ok_def queue_ok_def parked_view_def deltas_ok_def)
qed

lemma reachable_ok: "workspace_reachable E W \<Longrightarrow> workspace_ok W"
proof (induction rule: workspace_reachable.induct)
  case (restarted W W1 ss rng W')
  then have "members_wf (w_cgka W)" by (simp add: workspace_ok_def)
  then show ?case by (rule restored_ok [OF _ restarted.hyps(2,3)])
next
  case (founded K rng secret threshold W)
  from workspace_ok_found [OF founded(2)] controller_initial_members [OF founded(1)] show ?case by simp
qed (auto intro: workspace_ok_joined workspace_ok_step controller_initial_members)

section \<open>Certificates of reachable workspaces\<close>

lemma restored_certs:
  assumes "collision_free X" and "store_wf X (k_certs K)" and "controller_from_snapshot B X (controller_snapshot K) rng = Inr K'"
  shows "k_certs K' = k_certs K"
proof -
  let ?S = "k_certs K" and ?new = "capability_store_new (cs_founder (k_certs K))"
  have new: "store_wf X ?new" "cs_founder ?new = cs_founder ?S" "certificates ?new = []"
    using reaches_new [of X] assms(1) by (auto simp: collision_free_def reaches_def capability_store_new_def certificates_def)
  have "k_certs K' = fst (store_extend X (certificates ?S) ?new)"
    using assms(3) by (auto simp: controller_from_snapshot_def controller_snapshot_def split: sum.splits)
  moreover have "\<forall>c \<in> set (certificates ?S). cert_valid X c"
    using assms(2) certificates_valid by (auto simp: store_wf_def)
  ultimately show ?thesis
    using store_extend_wf [OF assms(1) new(1), of "certificates ?S"] new(2,3) assms(2)
    by (intro store_determined [of X]) auto
qed

lemma reachable_store_wf:
  assumes "workspace_reachable E W" and "collision_free (e_crypto E)"
  shows "store_wf (e_crypto E) (capabilities W)"
  using assms(1)
proof (induction rule: workspace_reachable.induct)
  case (founded K rng secret threshold W)
  have "advances E (joined (e_loro E) (K\<lparr>k_rng := rng\<rparr>) secret (ns_epoch NAMESPACE_INITIAL)) W"
    by (rule advancing.found_leaf [OF founded(2)])
  with initial_store_wf [OF founded(1) assms(2)] assms(2) show ?case
    by (simp add: advances_def evolves_def certs_advance_def joined_def)
next
  case (joined K secret n)
  from initial_store_wf [OF this assms(2)] show ?case by (simp add: joined_def)
next
  case (stepped W W')
  from step_advances [OF stepped(2)] stepped(3) assms(2) show ?case
    by (simp add: advances_def evolves_def certs_advance_def)
next
  case (restarted W W1 ss rng W')
  have "advances E W W1" using advancing.workspace_snapshot_leaf [of E W] restarted(2) by simp
  then have "store_wf (e_crypto E) (capabilities W1)"
    using restarted(4) assms(2) by (simp add: advances_def evolves_def certs_advance_def)
  moreover have "ss_cgka ss = controller_snapshot (w_cgka W1)"
    using restarted(2) unfolding workspace_snapshot_of_def by (auto elim!: and_then_InrE)
  moreover obtain K where "controller_from_snapshot (e_beekem E) (e_crypto E) (ss_cgka ss) rng = Inr K" "w_cgka W' = K"
    using restarted(3) by (auto simp: workspace_from_snapshot_def Let_def split: if_splits prod.splits sum.splits)
  ultimately show ?case using restored_certs [OF assms(2), of "w_cgka W1" "e_beekem E" rng K] by simp
qed

end
