(* ===== verification/Workspace_Effects.thy ===== *)
theory Workspace_Effects
  imports Handlers
begin

text \<open>
  The lists of effects that the handlers return. Every list is of one of a few shapes: nothing that
  carries content, or such a list followed by one publication, which announces the operations that carry
  a new key before the content sealed under it. \<open>effect_law\<close> is the contract of a property of effect
  lists that holds of these shapes, and \<open>handle_emits\<close> says that it then holds of every event. Whether
  documents may be published at all is the parameter \<open>writing\<close>.
\<close>

section \<open>Shapes\<close>

fun carries_content :: "effect \<Rightarrow> bool" where
  "carries_content (StoreChunk _ _ _) = True"
| "carries_content (StoreManifest _ _) = True"
| "carries_content (PublishNamespace _ _) = True"
| "carries_content _ = False"

definition silent :: "effect list \<Rightarrow> bool" where
  "silent effects \<longleftrightarrow> (\<forall>e \<in> set effects. \<not> carries_content e)"

definition emits :: "(effect list \<Rightarrow> bool) \<Rightarrow> ('s, core_error, effect list) step \<Rightarrow> bool" where
  "emits Q r \<longleftrightarrow> (\<forall>s effects. r = (s, Inr effects) \<longrightarrow> Q effects)"

lemma emitsI: "(\<And>s effects. r = (s, Inr effects) \<Longrightarrow> Q effects) \<Longrightarrow> emits Q r"
  by (simp add: emits_def)

lemma emits_simps [simp]: "emits Q (s, Inr effects) = Q effects" "emits Q (s, Inl e)"
  by (simp_all add: emits_def)

lemma emits_bind: "(\<And>x s. r = (s, Inr x) \<Longrightarrow> emits Q (k x s)) \<Longrightarrow> emits Q (and_then r k)"
  by (cases rule: and_then_cases [of r k]) auto

lemma emits_mono: "emits Q r \<Longrightarrow> (\<And>effects. Q effects \<Longrightarrow> Q' effects) \<Longrightarrow> emits Q' r"
  by (auto simp: emits_def)

lemma emits_bind_effects:
  "emits P r \<Longrightarrow> (\<And>x s. P x \<Longrightarrow> emits Q (k x s)) \<Longrightarrow> emits Q (and_then r k)"
  by (rule emits_bind) (auto simp: emits_def)

lemma silent_simps [simp]:
  "silent []" "silent (e # effects) = (\<not> carries_content e \<and> silent effects)"
  "silent (effects @ effects') = (silent effects \<and> silent effects')"
  by (auto simp: silent_def)

subsection \<open>What draining and the quorum return\<close>

text \<open>Draining returns nothing but news of applied documents and requests for repair.\<close>

lemma drain_emits_each:
  assumes "\<And>doc. P (AppliedDoc doc)" and "\<And>target epoch. P (RequestRepair target epoch)"
  shows "emits (\<lambda>effects. \<forall>e \<in> set effects. P e) (drain_pending E W)"
proof -
  let ?Q = "\<lambda>effects. \<forall>e \<in> set effects. P e"
  have step: "?Q (fst (snd (drain_step E p st)))" if "?Q (fst (snd st))" for p st
    using that assms by (auto simp: drain_step_def Let_def split: prod.splits chunk_verdict.splits)
  have "?Q (snd (fst (drain_round E st)))" if "?Q (snd st)" for st
  proof -
    have "?Q (fst (snd (fold (drain_step E) ps (V, snd st, 0))))" for ps V
      by (rule fold_invariant_set [where P = "\<lambda>st. ?Q (fst (snd st))"]) (use that step in simp_all)
    then show ?thesis by (simp add: drain_round_def split: prod.splits) (metis fst_conv snd_conv)
  qed
  then have "?Q (snd (drain_loop E (W, [])))"
    by (intro drain_settles.loop_inv [where P = "\<lambda>st. ?Q (snd st)"]) simp_all
  then show ?thesis by (cases "drain_loop E (W, [])") (simp add: drain_pending_def)
qed

lemma silent_drain: "emits silent (drain_pending E W)"
  using drain_emits_each [of "\<lambda>e. \<not> carries_content e" E W] by (simp add: silent_def [abs_def])

lemma silent_removal: "emits silent (perform_removal E m W)"
  unfolding perform_removal_def Let_def
  by (intro emits_bind) (simp split: option.split)

lemma silent_quorum: "silent (snd (run_quorum_actions E W))"
proof -
  have "silent (snd (quorum_step E item st))" if s: "silent (snd st)" for item st
  proof -
    obtain V effects digest action where [simp]: "st = (V, effects)" "item = (digest, action)" by fastforce
    have "silent produced" if "perform_removal E m V = (V', Inr produced)" for m V' produced
      using silent_removal [of E m V] that by (simp add: emits_def)
    with s show ?thesis by (auto simp: quorum_step_def split: admin_action.split sum.split prod.split)
  qed
  then show ?thesis
    unfolding run_quorum_actions_def
    by (intro fold_invariant_set [where P = "\<lambda>st. silent (snd st)"]) simp_all
qed

lemma silent_leave: "silent effects \<Longrightarrow> emits silent (leave_devices E theirs effects W)"
  by (induction theirs arbitrary: effects W)
    (auto intro!: emits_bind simp: broadcast_def split: sum.split option.split)

subsection \<open>What publishing returns\<close>

definition stores_manifest :: "effect list \<Rightarrow> bool" where
  "stores_manifest effects \<longleftrightarrow> (\<exists>ops key ch. effects = ops_then ops (StoreManifest key ch))"

definition stores_chunk :: "effect list \<Rightarrow> bool" where
  "stores_chunk effects \<longleftrightarrow> (\<exists>ops key doc ch. effects = ops_then ops (StoreChunk key doc ch))"

definition publishes_namespace :: "effect list \<Rightarrow> bool" where
  "publishes_namespace effects \<longleftrightarrow> effects = [] \<or> (\<exists>ops n ch. effects = ops_then ops (PublishNamespace n ch))"

lemma shapes [simp]:
  "stores_manifest (ops_then ops (StoreManifest key ch))" "stores_chunk (ops_then ops (StoreChunk key doc ch))"
  "publishes_namespace []" "publishes_namespace (ops_then ops (PublishNamespace n ch))"
  unfolding stores_manifest_def stores_chunk_def publishes_namespace_def by blast+

lemma publish_manifest_shape: "emits stores_manifest (publish_manifest E keying W)"
  unfolding publish_manifest_def by (intro emits_bind) auto

lemma republish_namespace_shape: "emits publishes_namespace (republish_namespace E keying W)"
  unfolding republish_namespace_def by (auto intro!: emits_bind)

lemma publish_keyed_shape: "emits stores_chunk (publish_keyed E doc keying extent W)"
  unfolding publish_keyed_def Let_def by (auto intro!: emits_bind split: prod.split sum.split)

section \<open>The contract of a property of effects\<close>

locale effect_law =
  fixes Q :: "effect list \<Rightarrow> bool" and writing :: bool
  assumes quiet: "silent effects \<Longrightarrow> Q effects"
    and manifest: "silent before \<Longrightarrow> Q (before @ ops_then ops (StoreManifest key ch))"
    and namespace: "Q (ops_then ops (PublishNamespace n ch))"
    and adopt: "Q (ops_then ops (PublishNamespace n ch) @ [AdoptNamespace n' ticket])"
    and chunk: "writing \<Longrightarrow> Q (ops_then ops (StoreChunk key doc ch))"
begin

lemma publish_manifest_emits: "emits Q (publish_manifest E keying W)"
  by (rule emits_mono [OF publish_manifest_shape]) (use manifest [where before = "[]"] in \<open>auto simp: stores_manifest_def\<close>)

lemma prefixed_manifest_emits:
  "silent before \<Longrightarrow> emits Q (and_then (publish_manifest E keying W) (\<lambda>effects W. (W, Inr (before @ effects))))"
  by (rule emits_bind_effects [OF publish_manifest_shape]) (use manifest in \<open>auto simp: stores_manifest_def\<close>)

lemma then_manifest_emits: "emits Q (and_then r (\<lambda>_ W. publish_manifest E keying W))"
  by (rule emits_bind) (rule publish_manifest_emits)

lemma republish_namespace_emits: "emits Q (republish_namespace E keying W)"
  by (rule emits_mono [OF republish_namespace_shape]) (auto simp: publishes_namespace_def namespace quiet)

lemma publish_keyed_emits: "writing \<Longrightarrow> emits Q (publish_keyed E doc keying extent W)"
  by (rule emits_mono [OF publish_keyed_shape]) (auto simp: stores_chunk_def chunk)

lemma quiet_emits: "emits silent r \<Longrightarrow> emits Q r"
  by (erule emits_mono) (rule quiet)

lemma refused_emits: "\<not> is_ok (require_write W) \<Longrightarrow> emits Q (and_then (check (require_write W) W) k)"
  by (cases "require_write W") (simp_all add: check_def)

lemma write_emits:
  assumes "writing \<or> \<not> is_ok (require_write W)" and "writing \<Longrightarrow> emits Q (k () W)"
  shows "emits Q (and_then (check (require_write W) W) k)"
  using assms refused_emits [of W k] by (cases "require_write W") (auto simp: check_def)

lemma on_text_edit_emits: "writing \<or> \<not> is_ok (require_write W) \<Longrightarrow> emits Q (on_text_edit E doc now mutate W)"
  unfolding on_text_edit_def Let_def
  by (erule write_emits) (auto simp: publish_def publish_keyed_emits split: prod.split sum.split)

lemma on_revert_emits: "writing \<or> \<not> is_ok (require_write W) \<Longrightarrow> emits Q (on_revert E doc v now W)"
  unfolding on_revert_def Let_def
  by (erule write_emits, rule emits_bind) (auto simp: publish_def publish_keyed_emits split: option.split prod.split sum.split)

lemma on_resync_emits: "writing \<or> \<not> is_ok (require_write W) \<Longrightarrow> emits Q (on_resync E doc W)"
  unfolding on_resync_def
  by (erule write_emits) (auto simp: publish_keyed_emits quiet split: prod.split bool.split)

lemma on_delete_file_emits: "emits Q (on_delete_file E doc W)"
proof -
  have "silent (concat (map (\<lambda>v. [DeleteEntry (f v) (g v), DeleteAssetSegments (h v) (g v)]) vs))" for f g h and vs :: "asset_version list"
    by (induction vs) simp_all
  then show ?thesis
    unfolding on_delete_file_def Let_def by (intro emits_bind prefixed_manifest_emits) simp
qed

lemma answered_emits:
  "emits Q r \<Longrightarrow> emits Q (and_then r (\<lambda>effects W. (f effects W, Inr effects)))"
  by (erule emits_bind_effects) simp

lemma on_repair_requested_emits:
  "writing \<or> \<not> is_ok (require_write W) \<Longrightarrow> emits Q (on_repair_requested E requester target W)"
  unfolding on_repair_requested_def Let_def
  by (auto intro!: answered_emits publish_manifest_emits republish_namespace_emits publish_keyed_emits quiet
      split: repair_target.split)

lemma admit_emits: "emits Q (admit E m share_key certs noted W)"
  unfolding admit_def Let_def by (intro emits_bind prefixed_manifest_emits) (simp split: option.split)

lemma on_manifest_arrived_emits: "emits Q (on_manifest_arrived E ch W)"
proof -
  have "emits Q (and_then (publish_manifest E Current V) (\<lambda>rest W. (W, Inr (ManifestUpdated # rest))))" for V
    using prefixed_manifest_emits [of "[ManifestUpdated]" E Current V] by simp
  then show ?thesis
    unfolding on_manifest_arrived_def
    by (auto intro!: emits_bind quiet split: prod.split sum.split decrypt_outcome.split)
qed

lemma on_certs_arrived_emits:
  fixes W :: "('c, 'r, 'd) workspace"
  shows "emits Q (on_certs_arrived E certs W)"
proof -
  have "emits silent (and_then (if b then and_then r (\<lambda>_ W. drain_pending E W) else (V, Inr []))
      (\<lambda>effects W. case run_quorum_actions E W of (W, rest) \<Rightarrow> (W, Inr (effects @ rest))))"
    for b V and r :: "('c, 'r, 'd, nat) wstep"
  proof (rule emits_bind_effects [where P = silent])
    fix effects and V' :: "('c, 'r, 'd) workspace"
    assume "silent effects"
    with silent_quorum [of E V'] show "emits silent (case run_quorum_actions E V' of (W, rest) \<Rightarrow> (W, Inr (effects @ rest)))"
      by (cases "run_quorum_actions E V'") simp
  qed (auto intro!: emits_bind silent_drain)
  then show ?thesis
    unfolding on_certs_arrived_def Let_def by (intro quiet_emits) (auto split: prod.split)
qed

lemma on_control_op_emits: "emits Q (on_control_op E op W)"
  unfolding on_control_op_def
  by (rule quiet_emits) (auto intro!: emits_bind emits_bind_effects [OF silent_drain] simp: evict_if_spliced_def split: option.split)

lemma on_approve_emits: "emits Q (on_approve E proposal W)"
  unfolding on_approve_def
  by (rule quiet_emits) (auto intro!: emits_bind split: prod.split, metis silent_quorum snd_conv)

lemma on_namespace_minted_emits: "emits Q (on_namespace_minted E n ticket W)"
  unfolding on_namespace_minted_def by (auto intro!: emits_bind adopt quiet)

lemma handle_emits:
  assumes "writing \<or> \<not> is_ok (require_write W)"
  shows "emits Q (handle E now ev W)"
proof (cases ev)
  case (EvSetRole user r)
  show ?thesis unfolding EvSetRole handle.simps on_set_role_def
    by (rule quiet_emits) (auto intro!: emits_bind split: prod.split)
next
  case (EvPropose action expires)
  show ?thesis unfolding EvPropose handle.simps on_propose_def Let_def
    by (rule quiet_emits) (auto intro!: emits_bind split: prod.split)
next
  case (EvRemoveMember m)
  show ?thesis unfolding EvRemoveMember handle.simps on_remove_member_def
    by (rule quiet_emits) (rule emits_bind [OF silent_removal])
next
  case EvLeave
  show ?thesis unfolding EvLeave handle.simps on_leave_def Let_def
    by (rule quiet_emits) (rule emits_bind, simp add: silent_leave)
next
  case (EvNamespaceArrived n ch)
  show ?thesis unfolding EvNamespaceArrived handle.simps on_namespace_arrived_def Let_def
    by (rule quiet_emits) (auto intro!: emits_bind split: decrypt_outcome.split)
next
  case (EvAddUser m sk r dn ep)
  show ?thesis unfolding EvAddUser handle.simps on_add_user_def Let_def
    by (auto intro!: emits_bind admit_emits split: prod.split)
next
  case (EvAddDevice m sk u l ep)
  show ?thesis unfolding EvAddDevice handle.simps on_add_device_def Let_def
    by (auto intro!: emits_bind admit_emits split: prod.split)
next
  case (EvAnnounceEndpoint ep)
  show ?thesis unfolding EvAnnounceEndpoint handle.simps
    by (rule emits_bind) (simp add: publish_manifest_emits quiet)
next
  case EvRotate
  show ?thesis unfolding EvRotate handle.simps
    by (rule quiet_emits, rule emits_bind) (simp add: broadcast_def)
next
  case (EvChunkArrived doc ch)
  show ?thesis by (simp add: EvChunkArrived on_chunk_arrived_def quiet_emits silent_drain)
next
  case (EvUpsertFile e)
  show ?thesis unfolding EvUpsertFile handle.simps by (intro emits_bind publish_manifest_emits)
next
  case (EvRenameFile doc path)
  show ?thesis unfolding EvRenameFile handle.simps by (intro emits_bind publish_manifest_emits)
next
  case (EvSetInfo i)
  show ?thesis unfolding EvSetInfo handle.simps by (intro emits_bind publish_manifest_emits)
next
  case (EvSetDisplayName dn)
  show ?thesis by (simp add: EvSetDisplayName then_manifest_emits split: option.split)
qed (use assms in \<open>simp_all add: on_control_op_emits on_certs_arrived_emits on_append_def on_write_def on_insert_def
    on_delete_def on_text_edit_emits on_revert_emits on_delete_file_emits on_resync_emits on_approve_emits
    on_manifest_arrived_emits then_manifest_emits publish_manifest_emits republish_namespace_emits
    on_namespace_minted_emits on_repair_requested_emits quiet\<close>)

end

section \<open>Two laws\<close>

text \<open>Nothing that carries a key follows content: a receiver can read what it gets when it gets it.\<close>

fun is_operation :: "effect \<Rightarrow> bool" where
  "is_operation (BroadcastOp _ _) = True"
| "is_operation _ = False"

fun keys_first :: "effect list \<Rightarrow> bool" where
  "keys_first [] = True"
| "keys_first (e # effects) = (if carries_content e then \<not> list_ex is_operation effects else keys_first effects)"

lemma keys_first_silent: "silent before \<Longrightarrow> keys_first (before @ effects) = keys_first effects"
  by (induction before) auto

lemma keys_first_ops: "\<not> list_ex is_operation after \<Longrightarrow> carries_content content \<Longrightarrow> keys_first (ops_then ops content @ after)"
  by (induction ops) (simp_all add: ops_then_def broadcast_def)

interpretation key_order: effect_law keys_first True
proof unfold_locales
  fix effects assume "silent effects"
  then show "keys_first effects" using keys_first_silent [of effects "[]"] by simp
qed (use keys_first_ops [where after = "[]"] keys_first_ops in \<open>auto simp: keys_first_silent\<close>)

definition no_chunk :: "effect list \<Rightarrow> bool" where
  "no_chunk effects \<longleftrightarrow> (\<forall>key doc ch. StoreChunk key doc ch \<notin> set effects)"

interpretation no_content: effect_law no_chunk False
  by unfold_locales (auto simp: no_chunk_def silent_def ops_then_def broadcast_def)

end
