(* ===== verification/Workspace_Properties.thy ===== *)
theory Workspace_Properties
  imports Workspace_Invariants Workspace_Effects
begin

text \<open>
  What the workspace promises its driver: the bounds of its state, the order of its effects, who may
  do what, and how namespaces, repairs, removals and snapshots behave.
\<close>

section \<open>State\<close>


text \<open>
  Handling an event, whatever its outcome, forgets no member, keeps the device's identity, the
  founder and the workspace secret, un-executes no proposal and never lowers the namespace's generation.
\<close>

theorem handle_forgets_nothing:
  "k_known_members (w_cgka W) \<subseteq> k_known_members (w_cgka (fst (handle E now ev W)))
    \<and> me (fst (handle E now ev W)) = me W
    \<and> cs_founder (capabilities (fst (handle E now ev W))) = cs_founder (capabilities W)
    \<and> w_secret (fst (handle E now ev W)) = w_secret W
    \<and> w_executed_here W \<subseteq> w_executed_here (fst (handle E now ev W))
    \<and> ns_epoch (w_namespace W) \<le> ns_epoch (w_namespace (fst (handle E now ev W)))"
  using advancing_minting.any_handle_leaf [of E W now ev] by (simp add: advances_def evolves_def certs_advance_def)

text \<open>
  No event but the minting of a namespace moves the workspace to a smaller (generation, digest)
  pair: what arrives from peers only ever raises it.
\<close>

theorem namespace_never_regresses:
  assumes "\<not> mints ev"
  shows "w_namespace W \<le> w_namespace (fst (handle E now ev W))"
  by (rule namespace_grows.handle_leaf [OF assms])

section \<open>Draining\<close>

text \<open>
  Draining the parked chunks ends: after at most one pass more than there are parked chunks, the
  last pass having applied nothing.
\<close>

theorem drain_rounds_bounded:
  "run_rounds (drain_round E) (Suc (length (w_pending_chunks W))) (W, []) = Some (drain_loop E (W, []))"
  by (rule drain_settles.run_rounds_loop) (simp add: queue_length_def)

fun is_applied :: "effect \<Rightarrow> bool" where
  "is_applied (AppliedDoc _) = True"
| "is_applied _ = False"

text \<open>The tally of a drain: parked before, against parked, applied, unreadable and corrupt after.\<close>

definition drained :: "('c, 'r, 'd) workspace \<Rightarrow> ('c, 'r, 'd) workspace \<Rightarrow> nat \<Rightarrow> effect list \<Rightarrow> effect list \<Rightarrow> bool" where
  "drained W W' todo effects effects' \<longleftrightarrow> (\<exists>unreadable corrupt.
     w_unreadable_chunks W' = w_unreadable_chunks W + of_nat unreadable
     \<and> w_corrupt_chunks W' = w_corrupt_chunks W + of_nat corrupt
     \<and> length (w_pending_chunks W) + todo + length (filter is_applied effects)
       = length (w_pending_chunks W') + length (filter is_applied effects') + unreadable + corrupt)"

lemma try_apply_counters:
  assumes "try_apply E doc ch W = (W', v)"
  shows "w_unreadable_chunks W' = w_unreadable_chunks W" and "w_corrupt_chunks W' = w_corrupt_chunks W"
proof -
  obtain V r where d: "on_cgka (decrypt (e_beekem E) ch) W = (V, r)" by fastforce
  then obtain K where V: "V = W\<lparr>w_cgka := K\<rparr>" using on_cgka_only [of "decrypt (e_beekem E) ch" W] by auto
  show "w_unreadable_chunks W' = w_unreadable_chunks W" "w_corrupt_chunks W' = w_corrupt_chunks W"
    using assms by (auto simp: try_apply_def d V set_doc_def split: sum.splits decrypt_outcome.splits prod.splits bool.splits)
qed

lemma drain_step_drained:
  assumes "drain_step E p (W, effects, n) = (W', effects', n')"
  shows "drained W W' 1 effects effects'"
proof -
  obtain V v where t: "try_apply E (pk_doc p) (pk_chunk p) W = (V, v)" by fastforce
  note s = try_apply_counters [OF t] try_apply_queue [OF t]
  show ?thesis
  proof (cases v)
    case CvUnreachable
    then show ?thesis using assms s unfolding drained_def
      by (intro exI [of _ 1] exI [of _ 0]) (auto simp: drain_step_def t)
  next
    case CvCorrupt
    then show ?thesis using assms s unfolding drained_def
      by (intro exI [of _ 0] exI [of _ 1]) (auto simp: drain_step_def t)
  qed (use assms s in \<open>unfold drained_def, intro exI [of _ 0], auto simp: drain_step_def t enqueue_def Let_def\<close>)
qed

lemma drained_trans:
  assumes "drained W V m effects fx" and "drained V W' n fx effects'"
  shows "drained W W' (m + n) effects effects'"
proof -
  from assms obtain u c u' c' where "w_unreadable_chunks V = w_unreadable_chunks W + of_nat u"
    "w_corrupt_chunks V = w_corrupt_chunks W + of_nat c"
    "w_unreadable_chunks W' = w_unreadable_chunks V + of_nat u'"
    "w_corrupt_chunks W' = w_corrupt_chunks V + of_nat c'"
    "length (w_pending_chunks W) + m + length (filter is_applied effects)
      = length (w_pending_chunks V) + length (filter is_applied fx) + u + c"
    "length (w_pending_chunks V) + n + length (filter is_applied fx)
      = length (w_pending_chunks W') + length (filter is_applied effects') + u' + c'"
    unfolding drained_def by blast
  then show ?thesis
    unfolding drained_def by (intro exI [of _ "u + u'"] exI [of _ "c + c'"]) (simp add: add.assoc)
qed

lemma drain_fold_drained:
  "fold (drain_step E) ps (W, effects, n) = (W', effects', n') \<Longrightarrow> drained W W' (length ps) effects effects'"
proof (induction ps arbitrary: W effects n)
  case Nil
  then show ?case unfolding drained_def by (intro exI [of _ 0]) simp
next
  case (Cons p ps)
  obtain V fx m where s: "drain_step E p (W, effects, n) = (V, fx, m)" by (metis surj_pair)
  have "drained W W' (1 + length ps) effects effects'"
    using drained_trans [OF drain_step_drained [OF s] Cons.IH [of V fx m]] Cons.prems s by simp
  then show ?case by simp
qed

lemma drain_round_drained:
  assumes "drained W0 (fst st) 0 [] (snd st)"
  shows "drained W0 (fst (fst (drain_round E st))) 0 [] (snd (fst (drain_round E st)))"
proof -
  obtain W effects where st: "st = (W, effects)" by fastforce
  let ?W = "W\<lparr>w_pending_chunks := [], w_pending_bytes := 0\<rparr>"
  obtain W' fx n where f: "fold (drain_step E) (w_pending_chunks W) (?W, effects, 0) = (W', fx, n)" by (metis surj_pair)
  from drain_fold_drained [OF f] have "drained W W' 0 effects fx" by (simp add: drained_def)
  from drained_trans [OF assms [unfolded st fst_conv snd_conv] this] show ?thesis by (simp add: st drain_round_def f)
qed


section \<open>Effects\<close>

lemma keys_firstD:
  "keys_first (before @ content # after) \<Longrightarrow> carries_content content \<Longrightarrow> \<not> list_ex is_operation after"
  by (induction before) (auto split: if_splits)



section \<open>Permissions\<close>

fun writes :: "event \<Rightarrow> bool" where
  "writes (EvLocalEdit _ _) = True"
| "writes (EvWriteFile _ _) = True"
| "writes (EvInsertText _ _ _) = True"
| "writes (EvRemoveText _ _ _) = True"
| "writes (EvRevertDocument _ _) = True"
| "writes (EvDeleteFile _) = True"
| "writes (EvUpsertFile _) = True"
| "writes (EvRenameFile _ _) = True"
| "writes (EvResync _) = True"
| "writes _ = False"

text \<open>
  C32. Every event that edits, reverts, deletes, renames or re-publishes a file is refused to a device
  whose user may not write, and the refusal leaves the workspace as it was.
\<close>

theorem writing_refused:
  assumes "role_of_member (capabilities W) (me W) = Some r" and "\<not> can_write r" and "writes ev"
  shows "handle E now ev W = (W, Inl NotAWriter)"
proof -
  have "require_write W = Inl NotAWriter" using assms(1,2) by (simp add: require_write_def)
  then show ?thesis
    using assms(3) by (cases ev) (simp_all add: check_def on_append_def on_write_def on_insert_def on_delete_def
      on_text_edit_def on_revert_def on_delete_file_def on_resync_def)
qed

fun administers :: "event \<Rightarrow> bool" where
  "administers (EvAddUser _ _ _ _ _) = True"
| "administers (EvRemoveMember _) = True"
| "administers (EvSetRole _ _) = True"
| "administers (EvSetInfo _) = True"
| "administers (EvPropose _ _) = True"
| "administers (EvApprove _) = True"
| "administers _ = False"

text \<open>
  C31. Every administrative event is refused to a device whose user is no administrator, and the refusal
  leaves the workspace as it was.
\<close>

theorem administration_refused:
  assumes "\<not> may_administer (capabilities W) (me W)" and "administers ev"
  shows "handle E now ev W = (W, Inl NotAnAdmin)"
proof -
  have "require_admin W = Inl NotAnAdmin" using assms(1) by (simp add: require_admin_def)
  moreover from this have "require_quorum action W = Inl NotAnAdmin" for action
    by (simp add: require_quorum_def)
  ultimately show ?thesis
    using assms(2) by (cases ev) (simp_all add: check_def on_remove_member_def on_set_role_def on_propose_def on_approve_def)
qed

lemma perform_removalE:
  assumes "perform_removal E m W = (W', Inr effects)" and "effects \<noteq> []"
  obtains op where "effects = [BroadcastOp op (quorum_proof (RemoveMember m) W), RotateNamespace (ns_epoch (w_namespace W'))]"
    and "m \<notin> k_current_members (w_cgka W')" and "ns_epoch (w_namespace W') = sat_succ (ns_epoch (w_namespace W))"
proof -
  obtain K r where K: "remove_member (e_beekem E) m (w_cgka W) = (K, r)" by fastforce
  then have on: "on_cgka (remove_member (e_beekem E) m) W = (W\<lparr>w_cgka := K\<rparr>, r)" by (simp add: on_cgka_def)
  obtain op where r: "r = Inr (Some op)"
    and eq: "(W', Inr effects) = (let epoch = sat_succ (ns_epoch (w_namespace W));
        V = W\<lparr>w_cgka := K, w_namespace := NamespaceEpoch epoch (ns_digest (w_namespace W))\<rparr>
      in (V, Inr [BroadcastOp op (quorum_proof (RemoveMember m) V), RotateNamespace epoch] :: core_error + effect list))"
    using assms unfolding perform_removal_def check_def
    by (cases r; cases "projr r") (auto simp: on Let_def and_then_def split: sum.splits if_splits)
  have "k_certs K = k_certs (w_cgka W)" "m \<notin> k_current_members K"
    using K r by (auto simp: remove_member_def Let_def split: prod.splits sum.splits if_splits)
  with eq that [of op] show thesis by (auto simp: Let_def quorum_proof_def)
qed

text \<open>
  C18. A removal that does anything was asked by an administrator, with one signature only when the
  workspace's threshold is one and otherwise with an executed proposal to remove that member; it
  removes the member, raises the namespace's generation, and returns exactly the removal, with its proof,
  and the request to rotate the namespace to the new generation, in this order.
\<close>

theorem removal_authorised:
  assumes "handle E now (EvRemoveMember m) W = (W', Inr effects)" and "effects \<noteq> []"
  shows "may_administer (capabilities W) (me W)
    \<and> (cs_threshold (capabilities W) \<le> DEFAULT_THRESHOLD \<or> RemoveMember m \<in> snd ` set (executable (capabilities W)))
    \<and> m \<notin> k_current_members (w_cgka W')
    \<and> ns_epoch (w_namespace W') = sat_succ (ns_epoch (w_namespace W))
    \<and> (\<exists>op. effects = [BroadcastOp op (quorum_proof (RemoveMember m) W), RotateNamespace (ns_epoch (w_namespace W'))])"
proof -
  have q: "require_quorum (RemoveMember m) W = Inr ()" and p: "perform_removal E m W = (W', Inr effects)"
    using assms(1) by (auto simp: on_remove_member_def check_def elim!: and_then_InrE)
  have "may_administer (capabilities W) (me W)"
    "cs_threshold (capabilities W) \<le> DEFAULT_THRESHOLD \<or> RemoveMember m \<in> snd ` set (executable (capabilities W))"
    using q by (force simp: require_quorum_def require_admin_def list_ex_iff Let_def split: if_splits sum.splits)+
  with perform_removalE [OF p assms(2)] show ?thesis by metis
qed


section \<open>Namespaces\<close>

text \<open>
  Leaving does not rotate the namespace: the leaver must not be the one who draws the new one.
\<close>

lemma leave_devices_namespace:
  assumes "leave_devices E theirs effects W = (W', r)" and "\<And>n. RotateNamespace n \<notin> set effects"
  shows "w_namespace W' = w_namespace W \<and> (\<forall>fx n. r = Inr fx \<longrightarrow> RotateNamespace n \<notin> set fx)"
  using assms
proof (induction theirs arbitrary: effects W)
  case (Cons d theirs)
  show ?case
  proof (cases "member_from_bytes (e_crypto E) d")
    case (Inr m)
    obtain V q where q: "on_cgka (remove_member (e_beekem E) m) W = (V, q)" by fastforce
    have V: "w_namespace V = w_namespace W" using on_cgka_only [of "remove_member (e_beekem E) m" W] q by auto
    show ?thesis
    proof (cases q)
      case (Inr op)
      have "\<And>n. RotateNamespace n \<notin> set (effects @ (case op of None \<Rightarrow> [] | Some op \<Rightarrow> [broadcast op]))"
        using Cons.prems(2) by (cases op) (simp_all add: broadcast_def)
      from Cons.IH [OF _ this, of V] Cons.prems(1) V show ?thesis by (simp add: \<open>member_from_bytes _ _ = _\<close> q Inr)
    qed (use Cons.prems(1) V in \<open>auto simp: Inr q\<close>)
  qed (use Cons in auto)
qed auto

text \<open>
  Whoever leaves does not rotate the namespace: neither the generation nor the digest changes and
  no effect asks for a rotation, so a leaver never chooses where the others go on.
\<close>

theorem leaver_never_rotates:
  assumes "handle E now EvLeave W = (W', Inr effects)"
  shows "w_namespace W' = w_namespace W \<and> RotateNamespace n \<notin> set effects"
proof -
  obtain theirs where "leave_devices E theirs [] W = (W', Inr effects)"
    using assms by (auto simp: on_leave_def check_def Let_def elim!: and_then_InrE)
  from leave_devices_namespace [OF this] show ?thesis by simp
qed

fun arrivals :: "('c, 'r, 'd) env \<Rightarrow> unix_seconds \<Rightarrow> (u32 \<times> chunk) list \<Rightarrow> ('c, 'r, 'd) workspace \<Rightarrow> ('c, 'r, 'd) workspace" where
  "arrivals E now [] W = W"
| "arrivals E now ((n, ch) # announced) W = arrivals E now announced (fst (handle E now (EvNamespaceArrived n ch) W))"

lemma on_namespace_arrived_max:
  assumes "snd (decrypt (e_beekem E) ch (w_cgka W)) = Inr (DPlaintext ticket)"
  shows "w_namespace (fst (on_namespace_arrived E n ch W)) = max (w_namespace W) (namespace_epoch_of (e_hash E) n ticket)"
    and "w_cgka (fst (on_namespace_arrived E n ch W)) = fst (decrypt (e_beekem E) ch (w_cgka W))"
proof -
  obtain K where d: "decrypt (e_beekem E) ch (w_cgka W) = (K, Inr (DPlaintext ticket))"
    using assms by (metis prod.collapse)
  show "w_namespace (fst (on_namespace_arrived E n ch W)) = max (w_namespace W) (namespace_epoch_of (e_hash E) n ticket)"
    by (auto simp: on_namespace_arrived_def on_cgka_def d forget_published_def Let_def max_def)
  show "w_cgka (fst (on_namespace_arrived E n ch W)) = fst (decrypt (e_beekem E) ch (w_cgka W))"
    by (simp add: on_namespace_arrived_def on_cgka_def d forget_published_def Let_def)
qed

lemma Max_insert_max:
  "finite S \<Longrightarrow> Max (insert (max a b) S) = Max (insert a (insert b S))" for a :: "'a::linorder"
  by (cases "S = {}") (simp_all add: max.assoc)

text \<open>
  C25. Namespace announcements converge: a workspace that can open each of the announcements it receives
  ends at the greatest (generation, digest) pair among its own and theirs, whatever the order and
  however often each arrives. \<open>able\<close> is the set of controller states that hold the keys, which opening a
  chunk does not leave.
\<close>

theorem namespaces_converge:
  assumes "able (w_cgka W)" and "\<forall>K ch. able K \<longrightarrow> able (fst (decrypt (e_beekem E) ch K))"
    and "\<forall>(n, ch) \<in> set announced. \<forall>K. able K \<longrightarrow> snd (decrypt (e_beekem E) ch K) = Inr (DPlaintext (ticket ch))"
  shows "w_namespace (arrivals E now announced W)
    = Max (insert (w_namespace W) ((\<lambda>(n, ch). namespace_epoch_of (e_hash E) n (ticket ch)) ` set announced))"
  using assms(1,3)
proof (induction announced arbitrary: W)
  case (Cons a announced)
  obtain n ch where a: "a = (n, ch)" by fastforce
  have opens: "snd (decrypt (e_beekem E) ch (w_cgka W)) = Inr (DPlaintext (ticket ch))"
    using Cons.prems by (simp add: a)
  let ?V = "fst (on_namespace_arrived E n ch W)"
  have "able (w_cgka ?V)"
    using assms(2) Cons.prems(1) by (simp add: on_namespace_arrived_max(2) [OF opens])
  from Cons.IH [OF this] Cons.prems(2) show ?case
    by (simp only: a arrivals.simps handle.simps on_namespace_arrived_max(1) [OF opens]) (simp add: Max_insert_max)
qed simp

text \<open>
  A device that receives the namespace it had asked for moves onto it whenever the generation still
  fits, also when it has meanwhile adopted a concurrent namespace of that generation with a greater
  digest, which every other device keeps.
\<close>

theorem minted_overrides:
  assumes "handle E now (EvNamespaceMinted (ns_epoch (w_namespace W)) ticket) W = (W', Inr effects)"
  shows "w_namespace W' = namespace_epoch_of (e_hash E) (ns_epoch (w_namespace W)) ticket
    \<and> AdoptNamespace (ns_epoch (w_namespace W)) ticket \<in> set effects"
  using assms by (auto simp: on_namespace_minted_def forget_published_def elim!: and_then_InrE)

section \<open>Repairs\<close>

lemma encrypt_fresh_ops:
  assumes "encrypt_keyed E p preds Fresh W = (W', Inr (ch, ops))"
  obtains rotation rest where "ops = rotation # rest"
  using assms
  by (auto simp: encrypt_keyed_def on_cgka_def encrypt_fresh_def split: prod.splits elim!: and_then_InrE)

lemma publish_keyed_freshE:
  assumes "publish_keyed E doc Fresh extent W = (W', Inr effects)"
  obtains rotation rest ch where "effects = broadcast rotation # map broadcast rest @ [StoreChunk (storage_key (e_hash E) (w_secret W) doc) doc ch]"
    and "w_repairs_answered W' = w_repairs_answered W"
proof -
  obtain d update where d: "loro_step (lo_export (e_loro E) (export_mode_for (e_loro E) extent (w_published_up_to W doc)) (doc_entry (e_loro E) doc W)) = (d, Inr update)"
    using assms by (auto simp: publish_keyed_def Let_def split: prod.splits sum.splits)
  let ?preds = "case w_last_ref W doc of None \<Rightarrow> [] | Some r \<Rightarrow> [r]"
  obtain V ch ops where e: "encrypt_keyed E update ?preds Fresh (set_doc doc d W) = (V, Inr (ch, ops))"
    and eff: "effects = ops_then ops (StoreChunk (storage_key (e_hash E) (w_secret V) doc) doc ch)"
    and W': "w_repairs_answered W' = w_repairs_answered V"
    using assms by (auto simp: publish_keyed_def Let_def d elim!: and_then_InrE split: prod.splits)
  obtain K where "V = (set_doc doc d W)\<lparr>w_cgka := K\<rparr>"
    using encrypt_keyed_cgka [of E update ?preds Fresh "set_doc doc d W"] e by auto
  moreover obtain rotation rest where "ops = rotation # rest" by (rule encrypt_fresh_ops [OF e])
  ultimately show thesis using that [of rotation rest ch] eff W' by (simp add: ops_then_def set_doc_def)
qed


section \<open>Quorum actions\<close>

lemma certs_remove_member: "remove_member B m K = (K', r) \<Longrightarrow> k_certs K' = k_certs K"
  by (auto simp: remove_member_def Let_def split: prod.splits sum.splits if_splits)

lemma certs_perform_removal: "capabilities (fst (perform_removal E m W)) = capabilities W"
  by (auto simp: perform_removal_def check_def on_cgka_def Let_def and_then_def
      split: prod.splits sum.splits option.splits dest!: certs_remove_member)

lemma executed_perform_removal: "w_executed_here (fst (perform_removal E m W)) = w_executed_here W"
  by (auto simp: perform_removal_def check_def on_cgka_def Let_def and_then_def split: prod.splits sum.splits option.splits)

text \<open>A step over one action: certificates stay, and its digest is marked unless the removal failed.\<close>

lemma quorum_step_spec:
  assumes "quorum_step E (digest, action) (W, effects) = (W', effects')"
  shows "capabilities W' = capabilities W"
    and "w_executed_here W' = insert digest (w_executed_here W)
      \<or> w_executed_here W' = w_executed_here W \<and> effects' = effects \<and> (\<exists>m e. action = RemoveMember m \<and> snd (perform_removal E m W) = Inl e)"
proof -
  have r: "capabilities V = capabilities W" "w_executed_here V = w_executed_here W" if "perform_removal E m W = (V, q)" for m V q
    using certs_perform_removal [of E m W] executed_perform_removal [of E m W] that by simp_all
  show "capabilities W' = capabilities W"
    using assms r by (auto simp: quorum_step_def mark_executed_def split: admin_action.splits sum.splits prod.splits)
  have m: "member_from_bytes X b = Inr m \<Longrightarrow> m = b" for X b m
    by (auto simp: member_from_bytes_def split: if_splits)
  show "w_executed_here W' = insert digest (w_executed_here W)
      \<or> w_executed_here W' = w_executed_here W \<and> effects' = effects \<and> (\<exists>m e. action = RemoveMember m \<and> snd (perform_removal E m W) = Inl e)"
    using assms r by (auto simp: quorum_step_def mark_executed_def split: admin_action.splits sum.splits prod.splits dest!: m)
qed

lemma quorum_fold_spec:
  assumes "fold (quorum_step E) items (W, effects) = (W', effects')"
  shows "capabilities W' = capabilities W \<and> w_executed_here W \<subseteq> w_executed_here W'
    \<and> (\<forall>digest user r. (digest, SetRole user r) \<in> set items \<longrightarrow> digest \<in> w_executed_here W')"
  using assms
proof (induction items arbitrary: W effects)
  case (Cons item items)
  obtain digest action where item: "item = (digest, action)" by fastforce
  obtain V fx where s: "quorum_step E item (W, effects) = (V, fx)" by fastforce
  note step = quorum_step_spec [OF s [unfolded item]]
  from Cons.IH [of V fx] Cons.prems s step show ?case by (auto simp: item)
qed simp

text \<open>
  Acting on executed proposals changes no certificate and marks what it did: every executed role
  change is marked, and once every executed proposal is marked, doing it again does nothing and returns
  no effect.
\<close>

theorem quorum_actions_once:
  assumes "run_quorum_actions E W = (W', effects)"
  shows "capabilities W' = capabilities W
    \<and> (\<forall>digest user r. (digest, SetRole user r) \<in> set (executable (capabilities W)) \<longrightarrow> digest \<in> w_executed_here W')
    \<and> ((\<forall>(digest, action) \<in> set (executable (capabilities W)). digest \<in> w_executed_here W')
        \<longrightarrow> run_quorum_actions E W' = (W', []))"
proof -
  from quorum_fold_spec [OF assms [unfolded run_quorum_actions_def]]
  have s: "capabilities W' = capabilities W" "w_executed_here W \<subseteq> w_executed_here W'"
    and r: "(digest, SetRole user r) \<in> set (executable (capabilities W)) \<Longrightarrow> digest \<notin> w_executed_here W \<Longrightarrow> digest \<in> w_executed_here W'"
      for digest user r by auto
  have "run_quorum_actions E W' = (W', [])"
    if "\<forall>(digest, action) \<in> set (executable (capabilities W)). digest \<in> w_executed_here W'"
  proof -
    from that have "filter (\<lambda>(digest, _). digest \<notin> w_executed_here W') (executable (capabilities W)) = []"
      by (auto simp: filter_empty_conv)
    then show ?thesis by (simp add: run_quorum_actions_def s(1))
  qed
  with s r show ?thesis by blast
qed

section \<open>Restarts\<close>

text \<open>
  A device that restarts from a snapshot still holds what it last published of a document, so the
  next publication of that document is a delta and no full export, also when the snapshot was taken
  after fifteen deltas: the count starts over.
\<close>

theorem restart_publishes_delta:
  assumes "workspace_from_snapshot E ss rng = Inr W" and "doc \<in> fst ` set (ss_published_up_to ss)"
  shows "publish_extent doc W = Delta"
proof -
  have "w_published_up_to W = fold (\<lambda>(doc, v) m. m(doc \<mapsto> v)) (ss_published_up_to ss) Map.empty"
    and "w_deltas_since_full W = Map.empty"
    using assms(1) by (auto simp: workspace_from_snapshot_def Let_def split: if_splits prod.splits sum.splits)
  with dom_fold_updates [of "ss_published_up_to ss" Map.empty] assms(2) show ?thesis
    by (auto simp: publish_extent_def deltas_of_def FULL_PUBLISH_EVERY_def)
qed

text \<open>The entries of a map and back.\<close>

lemma fold_updates: "distinct (map fst xs) \<Longrightarrow> fold (\<lambda>(k, v) m. m(k \<mapsto> v)) xs m = m ++ map_of xs"
proof (induction xs arbitrary: m)
  case (Cons a xs)
  obtain k v where a: "a = (k, v)" by fastforce
  from Cons.prems have "map_of xs k = None" by (simp add: a map_of_eq_None_iff)
  with Cons show ?case by (auto simp: a fun_eq_iff map_add_def split: option.split)
qed simp

lemma sorted_entries_keys: "map fst (sorted_entries m) = sorted_list_of_set (dom m)"
  by (simp add: sorted_entries_def comp_def)

lemma map_of_sorted_entries: "finite (dom m) \<Longrightarrow> map_of (sorted_entries m) = m"
  unfolding sorted_entries_def
  by (rule ext) (auto simp: map_of_map_restrict restrict_map_def domIff comp_def)

lemma rebuilt_map: "finite (dom m) \<Longrightarrow> fold (\<lambda>(k, v) m. m(k \<mapsto> v)) (sorted_entries m) Map.empty = m"
  by (subst fold_updates) (simp_all add: sorted_entries_keys map_of_sorted_entries)

lemma snapshot_docs_spec:
  assumes "snapshot_docs L ds W = (W', Inr out)"
  shows "(\<exists>f. W' = W\<lparr>w_docs := f\<rparr>)
    \<and> list_all2 (\<lambda>(doc, d) (doc', bs). doc' = doc \<and> (\<exists>d'. lo_export L Snapshot (lo_commit L d) = (d', Inr bs))) ds out"
  using assms
proof (induction ds arbitrary: W out)
  case Nil
  then show ?case by (auto intro: exI [of _ "w_docs W"])
next
  case (Cons a ds)
  obtain doc d where a: "a = (doc, d)" by fastforce
  obtain d' r where r: "snapshot_doc L d = (d', r)" by fastforce
  from Cons.prems obtain bs rest where bs: "r = Inr bs" and rest: "snapshot_docs L ds (set_doc doc d' W) = (W', Inr rest)"
    and out: "out = (doc, bs) # rest"
    by (auto simp: a r elim!: and_then_InrE)
  have "lo_export L Snapshot (lo_commit L d) = (d', Inr bs)"
    using r bs by (auto simp: snapshot_doc_def loro_step_def split: prod.splits sum.splits)
  with Cons.IH [OF rest] show ?case by (auto simp: a out set_doc_def)
qed

definition snapshots_restore :: "'d loro \<Rightarrow> bool" where
  "snapshots_restore L \<longleftrightarrow> (\<forall>d d' bs. lo_export L Snapshot (lo_commit L d) = (d', Inr bs) \<longrightarrow>
     (\<exists>r b. lo_import L bs (new_doc L) = (r, Inr b) \<and> lo_text L r = lo_text L d)
     \<and> (\<exists>r b. lo_import L bs (manifest_new L) = (r, Inr b)))"

lemma restored_docs:
  assumes "snapshots_restore L"
    and "list_all2 (\<lambda>(doc, d) (doc', bs). doc' = doc \<and> (\<exists>d'. lo_export L Snapshot (lo_commit L d) = (d', Inr bs))) ds out"
  shows "\<exists>docs. collect_results (map (\<lambda>(doc, bs). map_sum (\<lambda>e. e) (\<lambda>d. (doc, d)) (restore_doc L bs)) out) = Inr docs
    \<and> list_all2 (\<lambda>(doc, d) (doc', r). doc' = doc \<and> lo_text L r = lo_text L d) ds docs"
  using assms(2)
proof (induction rule: list_all2_induct)
  case (Cons a ds b out)
  obtain doc d where a: "a = (doc, d)" by fastforce
  obtain d' bs where b: "b = (doc, bs)" and e: "lo_export L Snapshot (lo_commit L d) = (d', Inr bs)"
    using Cons(1) by (auto simp: a split: prod.splits)
  obtain r q where r: "lo_import L bs (new_doc L) = (r, Inr q)" "lo_text L r = lo_text L d"
    using assms(1) e unfolding snapshots_restore_def by blast
  have "restore_doc L bs = Inr r" by (simp add: restore_doc_def r)
  with Cons(3) r(2) show ?case by (auto simp: a b)
qed simp

lemma texts_by_key:
  assumes "list_all2 (\<lambda>(doc, d) (doc', r). doc' = doc \<and> t r = t d) ds docs"
  shows "map fst docs = map fst ds" and "map_option t (map_of docs doc) = map_option t (map_of ds doc)"
  using assms by (induction rule: list_all2_induct) auto

text \<open>
  Restarting from a snapshot gives back the workspace: the secret, the namespace with its ticket,
  the endpoint, what was last received and last published of each document, the same documents with
  the same text, and the controller that its own snapshot restores. The hypothesis on Loro is that the
  snapshot of a committed document can be imported into an empty one and then has the same text.
\<close>

lemma restart_restores:
  assumes "workspace_snapshot_of E W = (W1, Inr ss)"
    and "snapshots_restore (e_loro E)"
    and "finite (dom (w_docs W))" and "finite (dom (w_last_ref W))" and "finite (dom (w_published_up_to W))"
    and "controller_from_snapshot (e_beekem E) (e_crypto E) (controller_snapshot (w_cgka W)) rng = Inr K"
  shows "\<exists>W'. workspace_from_snapshot E ss rng = Inr W' \<and> w_cgka W' = K \<and> w_secret W' = w_secret W
    \<and> w_namespace W' = w_namespace W \<and> w_namespace_ticket W' = w_namespace_ticket W
    \<and> w_endpoint_id W' = w_endpoint_id W \<and> w_last_ref W' = w_last_ref W
    \<and> w_published_up_to W' = w_published_up_to W \<and> dom (w_docs W') = dom (w_docs W)
    \<and> (\<forall>doc. document_text (e_loro E) doc W' = document_text (e_loro E) doc W)"
proof -
  let ?L = "e_loro E"
  obtain V docs bytes where sd: "snapshot_docs ?L (sorted_entries (w_docs W)) W = (V, Inr docs)"
    and m: "on_manifest (export_snapshot ?L) V = (W1, Inr bytes)"
    and ss: "ss = \<lparr>ss_version = SNAPSHOT_VERSION, ss_cgka = controller_snapshot (w_cgka W1), ss_secret = w_secret W1,
                ss_manifest = bytes, ss_docs = docs, ss_last_ref = sorted_entries (w_last_ref W1),
                ss_endpoint_id = w_endpoint_id W1, ss_namespace = w_namespace W1,
                ss_namespace_ticket = w_namespace_ticket W1,
                ss_published_up_to = sorted_entries (w_published_up_to W1)\<rparr>"
    using assms(1) unfolding workspace_snapshot_of_def by (auto elim!: and_then_InrE)
  obtain f where V: "V = W\<lparr>w_docs := f\<rparr>" using snapshot_docs_spec [OF sd] by blast
  obtain d where W1: "W1 = V\<lparr>w_manifest := d\<rparr>" and ex: "export_snapshot ?L (w_manifest V) = (d, Inr bytes)"
    using m by (auto simp: on_manifest_def split: prod.splits)
  obtain mf b where mf: "lo_import ?L bytes (manifest_new ?L) = (mf, Inr b)"
    using assms(2) ex unfolding snapshots_restore_def export_snapshot_def
    by (auto simp: loro_step_def split: prod.splits sum.splits) blast
  obtain out where out: "collect_results (map (\<lambda>(doc, bs). map_sum (\<lambda>e. e) (\<lambda>d. (doc, d)) (restore_doc ?L bs)) docs) = Inr out"
    and texts: "list_all2 (\<lambda>(doc, d) (doc', r). doc' = doc \<and> lo_text ?L r = lo_text ?L d) (sorted_entries (w_docs W)) out"
    using restored_docs [OF assms(2)] snapshot_docs_spec [OF sd] by blast
  have dist: "distinct (map fst out)"
    by (simp add: texts_by_key(1) [OF texts] sorted_entries_keys)
  let ?docs = "fold (\<lambda>(doc, d) m. m(doc \<mapsto> d)) out Map.empty"
  have docs': "?docs = map_of out" by (simp add: fold_updates [OF dist])
  have same_text: "map_option (lo_text ?L) (map_of out doc) = map_option (lo_text ?L) (w_docs W doc)" for doc
    using texts_by_key(2) [OF texts, of doc] by (simp add: map_of_sorted_entries [OF assms(3)])
  have dom: "dom (map_of out) = dom (w_docs W)"
    using same_text by (metis (no_types, lifting) domIff map_option_is_None subsetI subset_antisym)
  have same: "lo_text ?L r = lo_text ?L d" if "map_of out doc = Some r" and "w_docs W doc = Some d" for doc r d
    using same_text [of doc] that by simp
  show ?thesis
    using assms(6) out mf rebuilt_map [OF assms(4)] rebuilt_map [OF assms(5)] dom same_text docs'
    by (auto simp: workspace_from_snapshot_def manifest_import_def ss W1 V Let_def document_text_def split: option.splits intro: same)
qed

end
