(* ===== verification/Workspace_Examples.thy ===== *)
theory Workspace_Examples
  imports Keys_Examples Manifest_Properties Workspace_Properties
begin

text \<open>
  A document library and a codec small enough to evaluate, a founded workspace over them, and the
  properties of the manifest and of the workspace applied to it.
\<close>

section \<open>Documents to compute with\<close>

text \<open>A document is its text and its maps. An export is the text; an import replaces it.\<close>

record demo_doc =
  dt_text :: string
  dt_maps :: "(string \<times> loro_map) list"

definition demo_upd :: "string \<Rightarrow> 'v \<Rightarrow> (string \<times> 'v) list \<Rightarrow> (string \<times> 'v) list" where
  "demo_upd k v m = (k, v) # filter (\<lambda>(a, _). a \<noteq> k) m"

definition demo_map :: "demo_doc \<Rightarrow> string \<Rightarrow> loro_map" where
  "demo_map d c = (case map_of (dt_maps d) c of None \<Rightarrow> [] | Some m \<Rightarrow> m)"

definition demo_put_map :: "string \<Rightarrow> loro_map \<Rightarrow> demo_doc \<Rightarrow> demo_doc" where
  "demo_put_map c m d = d\<lparr>dt_maps := demo_upd c m (dt_maps d)\<rparr>"

fun demo_insert :: "string list \<Rightarrow> string \<Rightarrow> string \<Rightarrow> demo_doc \<Rightarrow> demo_doc \<times> (string + unit)" where
  "demo_insert [c] key v d = (demo_put_map c (demo_upd key (LString v) (demo_map d c)) d, Inr ())"
| "demo_insert [c, k] key v d =
     (case map_of (demo_map d c) k of
        Some (LMap node) \<Rightarrow> (demo_put_map c (demo_upd k (LMap (demo_upd key (LString v) node)) (demo_map d c)) d, Inr ())
      | _ \<Rightarrow> (d, Inl ''no such container''))"
| "demo_insert _ key v d = (d, Inl ''no such container'')"

definition demo_container :: "string \<Rightarrow> string \<Rightarrow> demo_doc \<Rightarrow> demo_doc \<times> (string + unit)" where
  "demo_container c key d =
     ((case map_of (demo_map d c) key of
         Some (LMap _) \<Rightarrow> d | _ \<Rightarrow> demo_put_map c (demo_upd key (LMap []) (demo_map d c)) d), Inr ())"

definition demo_string :: "bytes \<Rightarrow> string" where
  "demo_string bs = map (\<lambda>b. char_of (unat b)) bs"

definition demo_loro :: "demo_doc loro" where
  "demo_loro = \<lparr>
     lo_new = \<lparr>dt_text = [], dt_maps = []\<rparr>, lo_set_change_merge_interval = (\<lambda>_ d. d), lo_peer_id = (\<lambda>_. 7),
     lo_set_peer_id = (\<lambda>_ d. (d, Inr ())), lo_get_map = demo_map, lo_map_insert = demo_insert,
     lo_map_insert_container = demo_container,
     lo_map_delete = (\<lambda>c k d. (demo_put_map c (filter (\<lambda>(a, _). a \<noteq> k) (demo_map d c)) d, Inr ())),
     lo_text = dt_text, lo_len_unicode = (\<lambda>d. length (dt_text d)),
     lo_text_insert = (\<lambda>i t d. (d\<lparr>dt_text := take i (dt_text d) @ t @ drop i (dt_text d)\<rparr>, Inr ())),
     lo_text_delete = (\<lambda>i n d. (d\<lparr>dt_text := take i (dt_text d) @ drop (i + n) (dt_text d)\<rparr>, Inr ())),
     lo_update_text = (\<lambda>t d. (d\<lparr>dt_text := t\<rparr>, Inr ())), lo_commit = (\<lambda>d. d),
     lo_commit_with_timestamp = (\<lambda>_ d. d),
     lo_export = (\<lambda>_ d. (d, Inr (map of_char (dt_text d)))),
     lo_import = (\<lambda>bs d. (d\<lparr>dt_text := demo_string bs\<rparr>, Inr True)),
     lo_oplog_vv = (\<lambda>d. map of_char (dt_text d)), lo_vv_decodes = (\<lambda>_. True),
     lo_oplog_frontiers = (\<lambda>d. map of_char (dt_text d)), lo_frontiers_decode = (\<lambda>_. True),
     lo_fork_at = (\<lambda>f d. Some (d\<lparr>dt_text := demo_string f\<rparr>)),
     lo_revert_to = (\<lambda>f d. (d\<lparr>dt_text := demo_string f\<rparr>, Inr ())),
     lo_change_ancestors = (\<lambda>_ _. []), lo_frontier_of_id = (\<lambda>_ _. [])\<rparr>"

definition demo_codec :: codec where
  "demo_codec = \<lparr>
     pc_encode_version = (\<lambda>v. Some [ucast (av_seq v)]),
     pc_decode_version = (\<lambda>bs. Some \<lparr>av_content = 1, av_meta = \<lparr>am_size = 1, am_segments = 1, am_segment_bytes = 1, am_content_hash = 0\<rparr>,
        av_author = 1, av_at = 0, av_seq = ucast (hd bs)\<rparr>),
     pc_encode_meta = (\<lambda>_. Some []), pc_decode_meta = (\<lambda>_. None),
     pc_encode_checkpoint = (\<lambda>c. Some (map of_char (cp_name c))),
     pc_decode_checkpoint = (\<lambda>bs. Some \<lparr>cp_name = demo_string bs, cp_message = [], cp_author = 1, cp_at = 0, cp_entries = []\<rparr>)\<rparr>"

definition demo_env :: "(control_op list, nat, demo_doc) env" where
  "demo_env = \<lparr>e_beekem = demo_beekem, e_crypto = demo_crypto, e_hash = demo_hash, e_loro = demo_loro,
     e_codec = demo_codec, e_fill16 = (\<lambda>r. (Suc r, of_nat r)), e_fill32 = (\<lambda>r. (Suc r, of_nat r))\<rparr>"

text \<open>The founder's workspace, and the same with user 30 a viewer, as user 30 sees it.\<close>

definition demo_ws :: "(control_op list, nat, demo_doc) workspace" where
  "demo_ws = joined demo_loro demo_founder 5 0"

definition viewer_grant :: certificate where
  "viewer_grant = Grant \<lparr>sg_issuer = 1, sg_payload = grant_new 30 Viewer 0 None 17, sg_signature = []\<rparr>"

definition viewer_device :: certificate where
  "viewer_device = Binding \<lparr>sg_issuer = 1, sg_payload = device_binding_new 30 30 18, sg_signature = []\<rparr>"

definition demo_viewer :: "(control_op list, nat, demo_doc) workspace" where
  "demo_viewer = demo_ws\<lparr>w_cgka := (w_cgka demo_ws)\<lparr>k_member_id := 30,
     k_certs := fst (store_extend demo_crypto [viewer_grant, viewer_device] (capabilities demo_ws))\<rparr>\<rparr>"

lemma demo_reachable: "workspace_reachable demo_env demo_ws"
proof -
  have "controller_initial demo_beekem demo_crypto demo_founder"
    using demo_founder_created by (rule controller_initial.intros)
  then show ?thesis
    using workspace_reachable.joined [of demo_env demo_founder 5 0] by (simp add: demo_ws_def demo_env_def)
qed


theorem namespace_never_regresses_witness:
  "w_namespace demo_ws \<le> w_namespace (fst (handle demo_env 0 (EvNamespaceArrived 3 (demo_chunk [1, 2])) demo_ws))"
  by (rule namespace_never_regresses) simp

text \<open>A chunk whose key has not arrived stays parked.\<close>

definition late_chunk :: chunk where
  "late_chunk = (demo_chunk [1, 2, 3])\<lparr>ch_pcs_update_op_hash := 99\<rparr>"

definition demo_parked :: "(control_op list, nat, demo_doc) workspace" where
  "demo_parked = demo_ws\<lparr>w_pending_bytes := 4, w_pending_chunks :=
     [\<lparr>pk_doc = 1, pk_chunk = demo_chunk [1], pk_drains = 0\<rparr>, \<lparr>pk_doc = 1, pk_chunk = late_chunk, pk_drains = 0\<rparr>]\<rparr>"


section \<open>Effects and permissions\<close>

definition demo_edited :: "(control_op list, nat, demo_doc) workspace" where
  "demo_edited = demo_ws\<lparr>w_docs := [1 \<mapsto> \<lparr>dt_text = ''hi'', dt_maps = []\<rparr>]\<rparr>"

lemma demo_current: "1 \<in> k_current_members (w_cgka demo_edited)" "require_write demo_edited = Inr ()"
  by code_simp+

lemma demo_repair:
  "\<exists>W' ch. handle demo_env 0 (EvRepairRequested 1 (RepairDocument 1) 0) demo_edited
    = (W', Inr [broadcast (demo_update 1 2), StoreChunk (storage_key demo_hash 5 1) 1 ch])"
proof -
  have k: "k_cgka demo_founder = [demo_add 1 1 1 []]" "k_signer demo_founder = 1"
    by (simp_all add: demo_founder_def controller_create_def demo_beekem_def polled_def Let_def demo_crypto_def)
  show ?thesis
    using demo_current
    by (simp add: on_repair_requested_def is_current_member_def Let_def demo_edited_def demo_ws_def joined_def demo_env_def
        publish_keyed_def demo_loro_def doc_entry_def encrypt_keyed_def encrypt_fresh_def rotate_key_def encrypt_def
        on_cgka_def polled_def demo_beekem_def set_doc_def ops_then_def k)
qed



lemma demo_viewer_role: "role_of_member (capabilities demo_viewer) (me demo_viewer) = Some Viewer"
  by code_simp


theorem writing_refused_witness:
  "handle demo_env 0 (EvLocalEdit 1 ''x'') demo_viewer = (demo_viewer, Inl NotAWriter)"
  by (rule writing_refused [OF demo_viewer_role]) (simp_all add: can_write_def)

theorem administration_refused_witness:
  "handle demo_env 0 (EvRemoveMember 1) demo_viewer = (demo_viewer, Inl NotAnAdmin)"
proof (rule administration_refused)
  show "\<not> may_administer (capabilities demo_viewer) (me demo_viewer)" by code_simp
qed simp

theorem removal_authorised_witness:
  "ns_epoch (w_namespace (fst (handle demo_env 0 (EvRemoveMember 30) demo_ws))) = 1"
proof -
  have "snd (handle demo_env 0 (EvRemoveMember 30) demo_ws) = Inr [BroadcastOp (demo_remove 1 30 2 []) [], RotateNamespace 1]"
    by code_simp
  then obtain W' where h: "handle demo_env 0 (EvRemoveMember 30) demo_ws
      = (W', Inr [BroadcastOp (demo_remove 1 30 2 []) [], RotateNamespace 1])"
    by (metis prod.collapse)
  from removal_authorised [OF h] obtain cs op where
    "[BroadcastOp (demo_remove 1 30 2 []) [], RotateNamespace 1] = [BroadcastOp op cs, RotateNamespace (ns_epoch (w_namespace W'))]"
    by auto
  then show ?thesis unfolding h by simp
qed


section \<open>Namespaces, quorum and restarts\<close>

theorem leaver_never_rotates_witness: "w_namespace (fst (handle demo_env 0 EvLeave demo_viewer)) = w_namespace demo_viewer"
proof -
  have "snd (handle demo_env 0 EvLeave demo_viewer) = Inr [broadcast (demo_remove 1 30 2 [])]" by code_simp
  then obtain W' where h: "handle demo_env 0 EvLeave demo_viewer = (W', Inr [broadcast (demo_remove 1 30 2 [])])"
    by (metis prod.collapse)
  from leaver_never_rotates [OF h] h show ?thesis by simp
qed

theorem namespaces_converge_witness:
  "w_namespace (arrivals demo_env 0 [(3, demo_chunk [1]), (2, demo_chunk [9])] demo_ws)
    = Max {w_namespace demo_ws, namespace_epoch_of demo_hash 3 [1], namespace_epoch_of demo_hash 2 [9]}"
proof -
  let ?able = "\<lambda>K :: (control_op list, nat) controller. 1 \<in> op_name ` set (k_cgka K)"
  have "?able (w_cgka demo_ws)" by code_simp
  moreover have "\<forall>K ch. ?able K \<longrightarrow> ?able (fst (decrypt (e_beekem demo_env) ch K))"
    by (auto simp: decrypt_def demo_env_def demo_beekem_def Let_def split: if_splits)
  moreover have "\<forall>(n, ch) \<in> set [(3 :: u32, demo_chunk [1]), (2, demo_chunk [9])]. \<forall>K. ?able K \<longrightarrow>
      snd (decrypt (e_beekem demo_env) ch K) = Inr (DPlaintext (ch_ciphertext ch))"
    by (simp add: decrypt_def demo_env_def demo_beekem_def Let_def demo_chunk_def)
  ultimately show ?thesis
    using namespaces_converge [of ?able demo_ws demo_env "[(3, demo_chunk [1]), (2, demo_chunk [9])]" ch_ciphertext 0]
    by (simp add: demo_env_def demo_chunk_def)
qed

text \<open>The quorum of the capability example, as a workspace holds it.\<close>

definition demo_quorum :: "(control_op list, nat, demo_doc) workspace" where
  "demo_quorum = demo_ws\<lparr>w_cgka := (w_cgka demo_ws)\<lparr>k_certs := quorum_store\<rparr>\<rparr>"

theorem quorum_actions_once_witness: "tagged 3 11 \<in> w_executed_here (fst (run_quorum_actions demo_env demo_quorum))"
proof -
  have "executable (capabilities demo_quorum) = [(tagged 3 11, SetRole 3 Editor)]" by code_simp
  with quorum_actions_once [of demo_env demo_quorum] show ?thesis by (cases "run_quorum_actions demo_env demo_quorum") auto
qed

text \<open>A published document and its snapshot.\<close>

definition demo_published :: "(control_op list, nat, demo_doc) workspace" where
  "demo_published = demo_edited\<lparr>w_published_up_to := [1 \<mapsto> [1]]\<rparr>"

lemma demo_string_inverse: "demo_string (map of_char t) = t"
proof -
  have "char_of (unat (of_char c :: byte)) = c" for c :: char
  proof -
    have "(of_char c :: byte) = of_nat (of_char c)" by (simp add: of_nat_of_char)
    then show ?thesis by (simp add: unat_of_nat)
  qed
  then show ?thesis by (simp add: demo_string_def comp_def)
qed

lemma demo_snapshots_restore: "snapshots_restore demo_loro"
  by (auto simp: snapshots_restore_def demo_loro_def new_doc_def manifest_new_def demo_string_inverse)

lemma demo_members [simp]: "collect_results (map (member_from_bytes demo_crypto) ms) = Inr ms"
  by (induction ms) (simp_all add: member_from_bytes_def)

lemma demo_snapshot: "\<exists>W1 ss W'. workspace_snapshot_of demo_env demo_published = (W1, Inr ss)
    \<and> ss_published_up_to ss = [(1, [1])] \<and> workspace_from_snapshot demo_env ss 0 = Inr W'"
  by (simp add: workspace_snapshot_of_def sorted_entries_def demo_published_def demo_edited_def demo_ws_def joined_def
      demo_env_def demo_loro_def on_manifest_def export_snapshot_def snapshot_doc_def set_doc_def
      workspace_from_snapshot_def manifest_import_def restore_doc_def controller_from_snapshot_def Let_def)

lemma demo_controller_restores:
  "\<exists>K. controller_from_snapshot demo_beekem demo_crypto (controller_snapshot (w_cgka demo_published)) 0 = Inr K"
  by (simp add: controller_from_snapshot_def)

theorem restart_restores_witness:
  "\<exists>W1 ss W'. workspace_snapshot_of demo_env demo_published = (W1, Inr ss)
    \<and> workspace_from_snapshot demo_env ss 0 = Inr W' \<and> document_text demo_loro 1 W' = ''hi''"
proof -
  obtain W1 ss where ss: "workspace_snapshot_of demo_env demo_published = (W1, Inr ss)" using demo_snapshot by blast
  obtain K where K: "controller_from_snapshot demo_beekem demo_crypto (controller_snapshot (w_cgka demo_published)) 0 = Inr K"
    using demo_controller_restores by blast
  have "document_text demo_loro 1 demo_published = ''hi''"
    by (simp add: document_text_def demo_published_def demo_edited_def demo_loro_def)
  moreover have "finite (dom (w_docs demo_published))" "finite (dom (w_last_ref demo_published))" "finite (dom (w_published_up_to demo_published))"
    by (simp_all add: demo_published_def demo_edited_def demo_ws_def joined_def)
  moreover have "e_loro demo_env = demo_loro" "e_beekem demo_env = demo_beekem" "e_crypto demo_env = demo_crypto"
    by (simp_all add: demo_env_def)
  ultimately show ?thesis
    using restart_restores [OF ss] demo_snapshots_restore K ss by fastforce
qed

theorem restart_publishes_delta_witness:
  "\<exists>W1 ss W'. workspace_snapshot_of demo_env demo_published = (W1, Inr ss)
    \<and> workspace_from_snapshot demo_env ss 0 = Inr W' \<and> publish_extent 1 W' = Delta"
proof -
  obtain W1 ss W' where ss: "workspace_snapshot_of demo_env demo_published = (W1, Inr ss)"
    and p: "ss_published_up_to ss = [(1, [1])]" and W': "workspace_from_snapshot demo_env ss 0 = Inr W'"
    using demo_snapshot by blast
  from restart_publishes_delta [OF W', of 1] p ss W' show ?thesis by auto
qed

text \<open>A device that adopted a greater digest goes back to its own smaller one.\<close>

definition demo_adopted :: "(control_op list, nat, demo_doc) workspace" where
  "demo_adopted = demo_ws\<lparr>w_namespace := NamespaceEpoch 1 9\<rparr>"

theorem minted_overrides_witness:
  "w_namespace (fst (handle demo_env 0 (EvNamespaceMinted 1 [5]) demo_adopted)) < w_namespace demo_adopted"
proof -
  have n: "ns_epoch (w_namespace demo_adopted) = 1" by (simp add: demo_adopted_def)
  have "is_ok (snd (handle demo_env 0 (EvNamespaceMinted 1 [5]) demo_adopted))" by code_simp
  then obtain W' effects where h: "handle demo_env 0 (EvNamespaceMinted 1 [5]) demo_adopted = (W', Inr effects)"
    by (cases "handle demo_env 0 (EvNamespaceMinted 1 [5]) demo_adopted"; cases "snd (handle demo_env 0 (EvNamespaceMinted 1 [5]) demo_adopted)") auto
  have "w_namespace W' = namespace_epoch_of demo_hash 1 [5]"
    using minted_overrides [where W = demo_adopted, unfolded n, OF h] by (simp add: demo_env_def)
  moreover have "namespace_epoch_of demo_hash 1 [5] < w_namespace demo_adopted" by code_simp
  ultimately show ?thesis using h by simp
qed

section \<open>Manifest\<close>

definition demo_checkpoints :: "(string \<times> loro_entry) list \<Rightarrow> demo_doc" where
  "demo_checkpoints entries = \<lparr>dt_text = [], dt_maps = [(CHECKPOINTS_CONTAINER, entries)]\<rparr>"

theorem checkpoints_order_independent_witness:
  "manifest_checkpoints demo_loro demo_hash demo_codec (demo_checkpoints [(''a'', LString ''61''), (''b'', LString ''62'')])
    = manifest_checkpoints demo_loro demo_hash demo_codec (demo_checkpoints [(''b'', LString ''62''), (''a'', LString ''61'')])"
proof -
  let ?d = "demo_checkpoints [(''a'', LString ''61''), (''b'', LString ''62'')]"
  have "distinct (map (checkpoint_digest demo_hash demo_codec) (manifest_checkpoints demo_loro demo_hash demo_codec ?d))"
    by code_simp
  then have "inj_on (checkpoint_digest demo_hash demo_codec) (set (manifest_checkpoints demo_loro demo_hash demo_codec ?d))"
    by (simp add: distinct_map)
  then show ?thesis
    by (intro conjunct1 [OF checkpoints_order_independent]) (simp_all add: demo_loro_def demo_map_def demo_checkpoints_def)
qed

definition demo_files :: demo_doc where
  "demo_files = \<lparr>dt_text = [], dt_maps = [(FILES_CONTAINER,
     [(hex16 5, LMap [(''version:a'', LString ''01''), (''version:b'', LString ''02'')])])]\<rparr>"

lemma demo_files_listed: "map fe_uuid (files demo_loro demo_codec demo_files) = [5]"
  by code_simp

theorem current_asset_agrees_witness:
  "fe_asset (hd (files demo_loro demo_codec demo_files))
    = Some (av_meta (last (manifest_asset_versions demo_loro demo_codec 5 demo_files)))"
proof -
  obtain f where f: "files demo_loro demo_codec demo_files = [f]" "fe_uuid f = 5"
    using demo_files_listed by (cases "files demo_loro demo_codec demo_files") auto
  have "recorded_versions demo_loro demo_codec 5 demo_files \<noteq> []" by code_simp
  with current_asset_agrees [of f demo_loro demo_codec demo_files] f show ?thesis by simp
qed

section \<open>A workspace without administrators\<close>

text \<open>Admitting a device touches no certificate.\<close>

lemma certs_encrypt: "encrypt B H p refs K = (K', r) \<Longrightarrow> k_certs K' = k_certs K"
  by (auto simp: encrypt_def Let_def split: prod.splits sum.splits option.splits)

lemma certs_publish_manifest: "capabilities (fst (publish_manifest E Current W)) = capabilities W"
  by (auto simp: publish_manifest_def on_manifest_def encrypt_keyed_def on_cgka_def and_then_def
      split: prod.splits sum.splits dest!: certs_encrypt)

lemma certs_add_member: "add_member B m sk K = (K', r) \<Longrightarrow> k_certs K' = k_certs K"
  by (auto simp: add_member_def Let_def split: prod.splits sum.splits if_splits)

lemma and_then_result: "(\<And>x V. f (fst (k x V)) = f V) \<Longrightarrow> f (fst (and_then r k)) = f (fst r)"
  by (cases rule: and_then_cases [of r k]) auto

lemma certs_admit: "capabilities (fst (admit E m sk certs noted W)) = capabilities W"
proof -
  have "capabilities (fst (on_manifest noted V)) = capabilities V" for V :: "('a, 'b, 'c) workspace"
    by (simp add: on_manifest_def split: prod.split)
  moreover have "capabilities (fst (on_cgka (add_member (e_beekem E) m sk) W)) = capabilities W"
    by (auto simp: on_cgka_def split: prod.split dest!: certs_add_member)
  ultimately show ?thesis
    unfolding admit_def Let_def
    by (simp add: and_then_result [where f = capabilities] certs_publish_manifest)
qed

lemma is_okE:
  assumes "is_ok (snd r)"
  obtains x where "r = (fst r, Inr x)"
  using assms by (cases r; cases "snd r") auto

lemma added_user_certs:
  assumes "require_admin W = Inr ()" and "cs_threshold (capabilities W) \<le> DEFAULT_THRESHOLD"
    and "random_nonce E W = (W1, n1)" and "on_cgka (certify_device (e_crypto E) m m n1) W1 = (W2, Inr binding)"
    and "random_nonce E W2 = (W3, n2)" and "on_cgka (certify_role (e_crypto E) m r n2) W3 = (W4, Inr grant)"
  shows "capabilities (fst (handle E now (EvAddUser m sk r dn ep) W)) = capabilities W4"
  using assms by (auto simp: on_add_user_def check_def certs_admit Let_def)

text \<open>
  The guard that keeps a workspace from losing its last administrator does not cover adding a user:
  the founder, alone, adding themselves again as a viewer leaves no administrator.
\<close>

theorem add_user_unseats_last_admin:
  "admin_count (capabilities demo_ws) = 1
    \<and> admin_count (capabilities (fst (handle demo_env 0 (EvAddUser 1 1 Viewer ''x'' None) demo_ws))) = 0"
proof -
  let ?W1 = "fst (random_nonce demo_env demo_ws)"
  let ?W2 = "fst (on_cgka (certify_device demo_crypto 1 1 (snd (random_nonce demo_env demo_ws))) ?W1)"
  let ?W3 = "fst (random_nonce demo_env ?W2)"
  let ?W4 = "fst (on_cgka (certify_role demo_crypto 1 Viewer (snd (random_nonce demo_env ?W2))) ?W3)"
  have guards: "require_admin demo_ws = Inr ()" "cs_threshold (capabilities demo_ws) = 1" by code_simp+
  have "is_ok (snd (on_cgka (certify_device demo_crypto 1 1 (snd (random_nonce demo_env demo_ws))) ?W1))" by code_simp
  then obtain binding where b: "on_cgka (certify_device demo_crypto 1 1 (snd (random_nonce demo_env demo_ws))) ?W1 = (?W2, Inr binding)"
    by (rule is_okE)
  have "is_ok (snd (on_cgka (certify_role demo_crypto 1 Viewer (snd (random_nonce demo_env ?W2))) ?W3))" by code_simp
  then obtain grant where g: "on_cgka (certify_role demo_crypto 1 Viewer (snd (random_nonce demo_env ?W2))) ?W3 = (?W4, Inr grant)"
    by (rule is_okE)
  have X: "demo_crypto = e_crypto demo_env" by (simp add: demo_env_def)
  have "capabilities (fst (handle demo_env 0 (EvAddUser 1 1 Viewer ''x'' None) demo_ws)) = capabilities ?W4"
    by (rule added_user_certs [OF guards(1) _ prod.collapse [symmetric] b [unfolded X] prod.collapse [symmetric] g [unfolded X], folded X])
      (simp add: guards(2) DEFAULT_THRESHOLD_def)
  moreover have "admin_count (capabilities ?W4) = 0" by code_simp
  moreover have "admin_count (capabilities demo_ws) = 1" by code_simp
  ultimately show ?thesis by simp
qed

end
