(* ===== verification/Facade_Error.thy ===== *)
theory Facade_Error
  imports Core_Error
begin

text \<open>
  The errors of the networked crate: \<open>WorkspaceError\<close> of \<open>error.rs\<close> and \<open>InviteError\<close> of
  \<open>invite.rs\<close>. The message of another crate's error is a string.
\<close>

datatype invite_error =
    InviteWrongDomain
  | InviteBadSignature
  | InviteNotAnAdmin
  | InviteWrongInvitee
  | InviteExpired (expired_not_after: u64) (expired_now: u64)
  | InviteReplayed
  | InviteMalformedTreeId
  | InviteNoClock

datatype workspace_error =
    CoreFailure core_error
  | CodecFailure
  | BindFailure string
  | GossipFailure string
  | StorageFailure string
  | InviteFailure invite_error
  | NotAdmitted core_error
  | IdentityFailure string
  | NoSuchPath string
  | NotPersistent
  | NoSuchWorkspace bytes32
  | AssetIo string
  | NotAnAsset
  | MissingSegment u64
  | CorruptAsset
  | AssetKeyUnavailable
  | IdentityMismatch

type_synonym 'a facade_result = "workspace_error + 'a"

text \<open>The conversions that the question mark inserts, and those that the code writes out.\<close>

definition map_err :: "('e \<Rightarrow> 'f) \<Rightarrow> 'e + 'a \<Rightarrow> 'f + 'a" where
  "map_err f r = (case r of Inl e \<Rightarrow> Inl (f e) | Inr x \<Rightarrow> Inr x)"

lemma map_err_simps [simp]: "map_err f (Inl e) = Inl (f e)" "map_err f (Inr x) = Inr x"
  by (simp_all add: map_err_def)

lemma map_err_Inr [simp]: "map_err f r = Inr x \<longleftrightarrow> r = Inr x"
  by (cases r) simp_all

lemma is_ok_map_err [simp]: "is_ok (map_err f r) = is_ok r"
  by (cases r) simp_all

end
