(* ===== verification/Identity.thy ===== *)
theory Identity
  imports Facade_Error Keys Loro
begin

text \<open>
  One device's key material and what it hands to an administrator to be admitted (\<open>identity.rs\<close>). The
  signing key and the leaf secret are their 32 bytes, as in the key controller; public keys are derived
  by the libraries.
\<close>

definition IDENTITY_BYTES :: nat where
  "IDENTITY_BYTES = 64"

record identity =
  id_signer :: bytes32
  id_share_secret :: bytes32

text \<open>\<open>from_bytes\<close>: once the length is 64 the two halves cannot fail to be 32 bytes long.\<close>

definition identity_from_bytes :: "bytes \<Rightarrow> identity facade_result" where
  "identity_from_bytes bs =
     (if length bs \<noteq> IDENTITY_BYTES then Inl (IdentityFailure ''identity must be 64 bytes'')
      else case be_word 32 (take 32 bs) of
          None \<Rightarrow> Inl (IdentityFailure ''malformed signing key'')
        | Some signing \<Rightarrow> (case be_word 32 (drop 32 bs) of
              None \<Rightarrow> Inl (IdentityFailure ''malformed leaf secret'')
            | Some share \<Rightarrow> Inr \<lparr>id_signer = signing, id_share_secret = share\<rparr>))"

definition identity_to_bytes :: "identity \<Rightarrow> bytes" where
  "identity_to_bytes i = be_bytes 32 (id_signer i) @ be_bytes 32 (id_share_secret i)"

definition identity_member_id :: "cert_crypto \<Rightarrow> identity \<Rightarrow> bytes32" where
  "identity_member_id X i = cc_verifying_key X (id_signer i)"

definition identity_share_key :: "('c, 'r) beekem \<Rightarrow> identity \<Rightarrow> bytes32" where
  "identity_share_key B i = bk_share_key B (id_share_secret i)"

record enrollment =
  en_member :: bytes32
  en_share_key :: bytes32
  en_endpoint :: bytes32

definition identity_enrollment :: "('c, 'r) beekem \<Rightarrow> cert_crypto \<Rightarrow> identity \<Rightarrow> bytes32 \<Rightarrow> enrollment" where
  "identity_enrollment B X i endpoint =
     \<lparr>en_member = identity_member_id X i, en_share_key = identity_share_key B i, en_endpoint = endpoint\<rparr>"

definition enrollment_new :: "bytes32 \<Rightarrow> bytes32 \<Rightarrow> bytes32 \<Rightarrow> enrollment" where
  "enrollment_new m share_key endpoint = \<lparr>en_member = m, en_share_key = share_key, en_endpoint = endpoint\<rparr>"

definition enrollment_member_id :: "cert_crypto \<Rightarrow> enrollment \<Rightarrow> bytes32 facade_result" where
  "enrollment_member_id X e =
     (if cc_is_point X (en_member e) then Inr (en_member e) else Inl (IdentityFailure ''malformed member id''))"

text \<open>\<open>EndpointId::from_bytes\<close> is the transport's own test for a key.\<close>

definition enrollment_endpoint :: "(bytes32 \<Rightarrow> bool) \<Rightarrow> enrollment \<Rightarrow> bytes32 facade_result" where
  "enrollment_endpoint is_endpoint e =
     (if is_endpoint (en_endpoint e) then Inr (en_endpoint e) else Inl (IdentityFailure ''malformed endpoint id''))"

section \<open>Stored identities\<close>

lemma be_word_Some_iff: "be_word n bs \<noteq> None \<longleftrightarrow> length bs = n"
  by (simp add: be_word_def)

text \<open>A word of 8 * n bits and its n bytes are the same thing.\<close>

lemma foldl_be_bytes:
  fixes w :: "'w::len word" and a :: "'w word"
  shows "foldl (\<lambda>w b. push_bit 8 w OR ucast b) a (be_bytes n w) = push_bit (8 * n) a OR take_bit (8 * n) w"
proof (induction n arbitrary: a)
  case (Suc n)
  have "push_bit (8 * n) (push_bit 8 a OR ucast (ucast (drop_bit (8 * n) w) :: byte)) OR take_bit (8 * n) w
      = push_bit (8 * Suc n) a OR take_bit (8 * Suc n) w"
    by (rule bit_word_eqI)
      (auto simp: bit_simps add.commute intro: ccontr)
  then show ?case by (simp add: Suc)
qed simp

lemma be_word_be_bytes:
  fixes w :: "'w::len word"
  assumes "LENGTH('w) = 8 * n"
  shows "be_word n (be_bytes n w) = Some w"
  by (simp add: be_word_def foldl_be_bytes flip: assms)

lemma be_bytes_cong:
  fixes v w :: "'w::len word"
  assumes "\<And>i. i < 8 * n \<Longrightarrow> bit v i = bit w i"
  shows "be_bytes n v = be_bytes n w"
  using assms
proof (induction n)
  case (Suc n)
  have "(ucast (drop_bit (8 * n) v) :: byte) = ucast (drop_bit (8 * n) w)"
    by (rule bit_word_eqI) (simp add: bit_simps Suc.prems)
  with Suc show ?case by simp
qed simp

lemma be_bytes_foldl:
  fixes a :: "'w::len word"
  assumes "8 * length bs \<le> LENGTH('w)"
  shows "be_bytes (length bs) (foldl (\<lambda>w b. push_bit 8 w OR ucast b) a bs :: 'w word) = bs"
  using assms
proof (induction bs rule: rev_induct)
  case (snoc b bs)
  let ?w = "foldl (\<lambda>w b. push_bit 8 w OR ucast b) a bs"
  have shift: "be_bytes (Suc n) w = be_bytes n (drop_bit 8 w) @ [ucast w]" for n and w :: "'w word"
    by (induction n) (simp_all add: drop_bit_drop_bit add.commute)
  have "ucast (push_bit 8 ?w OR ucast b) = b"
    by (rule bit_word_eqI) (use snoc.prems in \<open>auto simp: bit_simps\<close>)
  moreover have "be_bytes (length bs) (drop_bit 8 (push_bit 8 ?w OR ucast b)) = be_bytes (length bs) ?w"
    by (rule be_bytes_cong) (use snoc.prems in \<open>auto simp: bit_simps dest: bit_imp_le_length\<close>)
  moreover have "be_bytes (length bs) ?w = bs" using snoc by simp
  ultimately have "be_bytes (Suc (length bs)) (push_bit 8 ?w OR ucast b) = bs @ [b]" by (simp only: shift)
  then show ?case by simp
qed simp

lemma be_bytes_of_be_word: "be_word 32 bs = Some w \<Longrightarrow> be_bytes 32 (w :: bytes32) = bs"
  using be_bytes_foldl [where 'w = 256 and bs = bs and a = 0] by (auto simp: be_word_def split: if_splits)

text \<open>
  An identity that was stored is the one that is restored, and only its own 64 bytes restore it; a
  buffer of any other length is refused.
\<close>

theorem identity_round_trip:
  "identity_from_bytes bs = Inr i \<longleftrightarrow> bs = identity_to_bytes i"
proof
  assume "identity_from_bytes bs = Inr i"
  then have "length bs = 64" "be_word 32 (take 32 bs) = Some (id_signer i)"
    "be_word 32 (drop 32 bs) = Some (id_share_secret i)"
    by (auto simp: identity_from_bytes_def IDENTITY_BYTES_def split: if_splits option.splits)
  then show "bs = identity_to_bytes i"
    unfolding identity_to_bytes_def
    by (metis append_take_drop_id be_bytes_of_be_word)
next
  assume "bs = identity_to_bytes i"
  then show "identity_from_bytes bs = Inr i"
    by (simp add: identity_from_bytes_def identity_to_bytes_def IDENTITY_BYTES_def be_word_be_bytes)
qed

theorem identity_refused: "\<not> is_ok (identity_from_bytes bs) \<longleftrightarrow> length bs \<noteq> IDENTITY_BYTES"
  by (auto simp: identity_from_bytes_def IDENTITY_BYTES_def be_word_def)

end
