(* ===== verification/Invite.thy ===== *)
theory Invite
  imports Identity Capability_Store
begin

text \<open>
  Admission tickets (\<open>invite.rs\<close>). A ticket for a replica (\<open>DocTicket\<close>) belongs to \<open>iroh-docs\<close> and is
  a type of its own here, \<open>'t\<close>; signing and verifying the terms belong to \<open>keyhive_crypto\<close>. A reading of
  the wall clock is \<open>None\<close> when it is before the epoch.
\<close>

definition INVITE_LIFETIME_SECS :: u64 where
  "INVITE_LIFETIME_SECS = 60 * 60"

definition INVITE_DOMAIN :: bytes16 where
  "INVITE_DOMAIN = ascii16 ''iroh-beekem/invt''"

record 't invite_terms =
  it_domain :: bytes16
  it_tree_id :: bytes32
  it_invitee :: bytes32
  it_not_after :: u64
  it_nonce :: bytes16
  it_epoch :: u32
  it_doc_ticket :: 't
  it_workspace_secret :: bytes32
  it_log :: "control_op list"
  it_certs :: "certificate list"
  it_inviter :: bytes32

type_synonym 't invite = "'t invite_terms signed"

record 't invite_crypto =
  ic_sign :: "bytes32 \<Rightarrow> 't invite_terms \<Rightarrow> string + 't invite"
  ic_verify :: "'t invite \<Rightarrow> bool"

definition invite_sign :: "'t invite_crypto \<Rightarrow> 't invite_terms \<Rightarrow> bytes32 \<Rightarrow> invite_error + 't invite" where
  "invite_sign Y terms signer = map_err (\<lambda>_. InviteBadSignature) (ic_sign Y signer terms)"

definition unix_now :: "u64 option \<Rightarrow> invite_error + u64" where
  "unix_now clock = (case clock of None \<Rightarrow> Inl InviteNoClock | Some secs \<Rightarrow> Inr secs)"

definition sat_add :: "'w::len word \<Rightarrow> 'w word \<Rightarrow> 'w word" where
  "sat_add x y = (if unat x + unat y < 2 ^ LENGTH('w) then x + y else - 1)"

definition terms_now ::
  "('s \<Rightarrow> 's \<times> bytes16) \<Rightarrow> ('s \<Rightarrow> 's \<times> u64 option) \<Rightarrow> 's \<Rightarrow> 's \<times> (invite_error + bytes16 \<times> u64)" where
  "terms_now fill read_clock s =
     (case fill s of (s, nonce) \<Rightarrow>
        (case read_clock s of (s, clock) \<Rightarrow>
           (s, case unix_now clock of
              Inl e \<Rightarrow> Inl e | Inr secs \<Rightarrow> Inr (nonce, sat_add secs INVITE_LIFETIME_SECS))))"

definition invite_verify :: "'t invite_crypto \<Rightarrow> cert_crypto \<Rightarrow> bytes32 \<Rightarrow> u64 \<Rightarrow> 't invite \<Rightarrow> invite_error + unit" where
  "invite_verify Y X invitee now invite =
     (let terms = sg_payload invite in
      if it_domain terms \<noteq> INVITE_DOMAIN then Inl InviteWrongDomain
      else if \<not> ic_verify Y invite then Inl InviteBadSignature
      else if it_invitee terms \<noteq> invitee then Inl InviteWrongInvitee
      else if \<not> now \<le> it_not_after terms then Inl (InviteExpired (it_not_after terms) now)
      else let closure = fst (store_extend X (it_certs terms) (capability_store_new (it_tree_id terms))) in
           if may_administer closure (sg_issuer invite) then Inr () else Inl InviteNotAnAdmin)"

section \<open>What an accepted ticket proves\<close>

lemma unat_sat_add: "unat (sat_add x y :: 'w::len word) = min (unat x + unat y) (2 ^ LENGTH('w) - 1)"
  by (auto simp: sat_add_def unat_add_lem [THEN iffD1] unsigned_minus_1_eq_mask mask_eq_exp_minus_1)

text \<open>\<open>signatures_hold\<close>: what signing returns carries the signer's key and verifies.\<close>

definition signatures_hold :: "'t invite_crypto \<Rightarrow> cert_crypto \<Rightarrow> bool" where
  "signatures_hold Y X \<longleftrightarrow> (\<forall>signer terms invite. ic_sign Y signer terms = Inr invite \<longrightarrow>
     ic_verify Y invite \<and> sg_payload invite = terms \<and> sg_issuer invite = cc_verifying_key X signer)"

definition closure_of_terms :: "cert_crypto \<Rightarrow> 't invite_terms \<Rightarrow> capability_store" where
  "closure_of_terms X terms = fst (store_extend X (it_certs terms) (capability_store_new (it_tree_id terms)))"

lemma invite_verify_iff:
  "invite_verify Y X invitee now invite = Inr () \<longleftrightarrow>
     it_domain (sg_payload invite) = INVITE_DOMAIN \<and> ic_verify Y invite \<and> it_invitee (sg_payload invite) = invitee
     \<and> now \<le> it_not_after (sg_payload invite) \<and> may_administer (closure_of_terms X (sg_payload invite)) (sg_issuer invite)"
  by (simp add: invite_verify_def closure_of_terms_def Let_def)

lemma closure_of_terms_wf:
  assumes "inj_on (cc_digest X) (set (it_certs terms))"
  shows "store_wf X (closure_of_terms X terms)"
    and "cs_founder (closure_of_terms X terms) = it_tree_id terms"
    and "set (certificates (closure_of_terms X terms)) = {c \<in> set (it_certs terms). cert_valid X c}"
proof -
  note new = reaches_new [OF assms, of "it_tree_id terms"]
  have none: "set (certificates (capability_store_new (it_tree_id terms))) = {}"
    by (simp add: capability_store_new_def certificates_def)
  show "store_wf X (closure_of_terms X terms)" "cs_founder (closure_of_terms X terms) = it_tree_id terms"
    "set (certificates (closure_of_terms X terms)) = {c \<in> set (it_certs terms). cert_valid X c}"
    using store_extend_spec(1,2) [OF new subset_refl] none
    unfolding closure_of_terms_def reaches_def by simp_all
qed

lemma admin_is_bound:
  assumes "settled S" and "may_administer S d"
  shows "\<exists>u r. bound S (cs_threshold S) d u \<and> role_of S u = Some r \<and> can_administer r"
proof -
  obtain r where r: "role_of_member S d = Some r" "can_administer r"
    using assms(2) by (auto simp: may_administer_def split: option.splits)
  then obtain u where u: "user_of S d = Some u" "role_of S u = Some r"
    by (auto simp: role_of_member_def split: option.splits bind_splits)
  with closure_of_justified [of S] settled_fields [OF assms(1)] have "bound S (cs_threshold S) d u"
    by (simp add: justified_def user_of_def)
  with u r show ?thesis by blast
qed


end
