(* ===== verification/Store.thy ===== *)
theory Store
  imports Identity Manifest_Properties "HOL-Library.AList"
begin

text \<open>
  The files of a persistent node (\<open>store.rs\<close>). A file system is what the code sees of \<open>std::fs\<close> below the
  node's root: files by directory and name, with their bytes and permission bits. The environment decides
  which calls fail: \<open>fs_fault\<close> gives the error of a call on a path, and \<open>fs_torn\<close> what a failing write leaves
  there. A process that is killed is one whose next call fails. \<open>postcard\<close> is the record
  \<open>store_codec\<close>.
\<close>

section \<open>Files\<close>

text \<open>A path is the subdirectory of the root (empty for the root itself) and the file's name.\<close>

type_synonym path = "string \<times> string"

record disk_file =
  f_data :: bytes
  f_mode :: nat

datatype fs_call = FsCreateDir | FsRead | FsWrite | FsSetPermissions | FsRename | FsRemove | FsReadDir

record fs =
  fs_files :: "(path \<times> disk_file) list"
  fs_fault :: "fs_call \<Rightarrow> path \<Rightarrow> string option"
  fs_torn :: "path \<Rightarrow> bytes \<Rightarrow> bytes option"
  fs_new_mode :: nat

abbreviation file_at :: "fs \<Rightarrow> path \<Rightarrow> disk_file option" where
  "file_at F p \<equiv> map_of (fs_files F) p"

text \<open>\<open>io::ErrorKind::NotFound\<close>, and every other kind with its message\<close>

datatype io_error = NotFound | IoError string

definition fs_read :: "path \<Rightarrow> fs \<Rightarrow> io_error + bytes" where
  "fs_read p F = (case fs_fault F FsRead p of
       Some e \<Rightarrow> Inl (IoError e)
     | None \<Rightarrow> (case file_at F p of None \<Rightarrow> Inl NotFound | Some f \<Rightarrow> Inr (f_data f)))"

text \<open>Writing keeps the permission bits of a file that is there already.\<close>

definition fs_put :: "path \<Rightarrow> bytes \<Rightarrow> fs \<Rightarrow> fs" where
  "fs_put p bs F = F\<lparr>fs_files := AList.update p
     \<lparr>f_data = bs, f_mode = (case file_at F p of Some f \<Rightarrow> f_mode f | None \<Rightarrow> fs_new_mode F)\<rparr> (fs_files F)\<rparr>"

definition fs_write :: "path \<Rightarrow> bytes \<Rightarrow> fs \<Rightarrow> (fs, string, unit) step" where
  "fs_write p bs F = (case fs_fault F FsWrite p of
       Some e \<Rightarrow> ((case fs_torn F p bs of None \<Rightarrow> F | Some part \<Rightarrow> fs_put p part F), Inl e)
     | None \<Rightarrow> (fs_put p bs F, Inr ()))"

definition fs_set_permissions :: "path \<Rightarrow> nat \<Rightarrow> fs \<Rightarrow> (fs, string, unit) step" where
  "fs_set_permissions p mode F = (case (fs_fault F FsSetPermissions p, file_at F p) of
       (Some e, _) \<Rightarrow> (F, Inl e)
     | (None, None) \<Rightarrow> (F, Inl ''not found'')
     | (None, Some f) \<Rightarrow> (F\<lparr>fs_files := AList.update p (f\<lparr>f_mode := mode\<rparr>) (fs_files F)\<rparr>, Inr ()))"

definition fs_rename :: "path \<Rightarrow> path \<Rightarrow> fs \<Rightarrow> (fs, string, unit) step" where
  "fs_rename p q F = (case (fs_fault F FsRename q, file_at F p) of
       (Some e, _) \<Rightarrow> (F, Inl e)
     | (None, None) \<Rightarrow> (F, Inl ''not found'')
     | (None, Some f) \<Rightarrow> (F\<lparr>fs_files := AList.update q f (AList.delete p (fs_files F))\<rparr>, Inr ()))"

definition fs_remove :: "path \<Rightarrow> fs \<Rightarrow> (fs, io_error, unit) step" where
  "fs_remove p F = (case fs_fault F FsRemove p of
       Some e \<Rightarrow> (F, Inl (IoError e))
     | None \<Rightarrow> if file_at F p = None then (F, Inl NotFound)
               else (F\<lparr>fs_files := AList.delete p (fs_files F)\<rparr>, Inr ()))"

section \<open>Names\<close>

definition WORKSPACES_DIR :: string where
  "WORKSPACES_DIR = ''workspaces''"

definition ENDPOINT_KEY :: string where
  "ENDPOINT_KEY = ''endpoint.key''"

definition REDEEMED :: string where
  "REDEEMED = ''redeemed''"

definition PENDING_ASSETS :: string where
  "PENDING_ASSETS = ''pending-assets''"

definition SNAPSHOT_EXT :: string where
  "SNAPSHOT_EXT = ''snapshot''"

definition BLOBS_DIR :: string where
  "BLOBS_DIR = ''blobs''"

definition DOCS_DIR :: string where
  "DOCS_DIR = ''docs''"

text \<open>
  \<open>file_stem\<close> and \<open>extension\<close>: a name is cut at its last dot, unless that is its first character.
\<close>

definition split_name :: "string \<Rightarrow> string \<times> string option" where
  "split_name name =
     (let ext = rev (takeWhile (\<lambda>c. c \<noteq> CHR ''.'') (rev name)); stem = rev (tl (dropWhile (\<lambda>c. c \<noteq> CHR ''.'') (rev name)))
      in if CHR ''.'' \<notin> set name \<or> stem = [] then (name, None) else (stem, Some ext))"

definition with_extension :: "string \<Rightarrow> path \<Rightarrow> path" where
  "with_extension ext p = (fst p, fst (split_name (snd p)) @ CHR ''.'' # ext)"

definition write_private :: "path \<Rightarrow> bytes \<Rightarrow> fs \<Rightarrow> (fs, workspace_error, unit) step" where
  "write_private p bs F =
     (let tmp = with_extension ''tmp'' p; failed = (\<lambda>(F, r). (F, map_err StorageFailure r)) in
      and_then (failed (fs_write tmp bs F)) (\<lambda>_ F.
      and_then (failed (fs_set_permissions tmp 0x180 F)) (\<lambda>_ F.
      failed (fs_rename tmp p F))))"

text \<open>\<open>hex\<close> and \<open>unhex\<close> of \<open>store.rs\<close>; the latter reads 32 pairs of a text of 64 bytes.\<close>

definition store_hex :: "bytes32 \<Rightarrow> string" where
  "store_hex b = hex (be_bytes 32 b)"

definition store_unhex :: "string \<Rightarrow> bytes32 option" where
  "store_unhex s = (if length s \<noteq> 64 then None else Option.bind (unhex_pairs s) (be_word 32))"

section \<open>The store\<close>

type_synonym spent_nonces = "(bytes32 \<times> bytes16) set"
type_synonym pending_assets = "(bytes32 \<times> bytes16) set"

record workspace_record =
  wr_core :: bytes
  wr_namespace :: bytes32

record store_codec =
  sc_encode_pairs :: "(bytes32 \<times> bytes16) set \<Rightarrow> bytes option"
  sc_decode_pairs :: "bytes \<Rightarrow> (bytes32 \<times> bytes16) set option"
  sc_encode_record :: "workspace_record \<Rightarrow> bytes option"
  sc_decode_record :: "bytes \<Rightarrow> workspace_record option"

definition store_open :: "fs \<Rightarrow> unit facade_result" where
  "store_open F = (case List.map_filter (\<lambda>d. fs_fault F FsCreateDir (d, [])) [[], WORKSPACES_DIR, BLOBS_DIR, DOCS_DIR] of
     [] \<Rightarrow> Inr () | e # _ \<Rightarrow> Inl (StorageFailure e))"

text \<open>\<open>fresh\<close> is the key that \<open>SecretKey::generate\<close> would draw.\<close>

definition endpoint_key :: "bytes32 \<Rightarrow> fs \<Rightarrow> (fs, workspace_error, bytes32) step" where
  "endpoint_key fresh F =
     (let p = ([], ENDPOINT_KEY) in
      case fs_read p F of
        Inr bs \<Rightarrow> (F, case be_word 32 bs of None \<Rightarrow> Inl (StorageFailure ''not a 32-byte secret key'') | Some key \<Rightarrow> Inr key)
      | Inl NotFound \<Rightarrow> and_then (write_private p (be_bytes 32 fresh) F) (\<lambda>_ F. (F, Inr fresh))
      | Inl (IoError e) \<Rightarrow> (F, Inl (StorageFailure e)))"

definition load_pairs :: "store_codec \<Rightarrow> string \<Rightarrow> fs \<Rightarrow> (bytes32 \<times> bytes16) set facade_result" where
  "load_pairs P name F = (case fs_read ([], name) F of
       Inr bs \<Rightarrow> Inr (case sc_decode_pairs P bs of Some s \<Rightarrow> s | None \<Rightarrow> {})
     | Inl NotFound \<Rightarrow> Inr {}
     | Inl (IoError e) \<Rightarrow> Inl (StorageFailure e))"

definition store_pairs :: "store_codec \<Rightarrow> string \<Rightarrow> (bytes32 \<times> bytes16) set \<Rightarrow> fs \<Rightarrow> (fs, workspace_error, unit) step" where
  "store_pairs P name s F = (case sc_encode_pairs P s of
       None \<Rightarrow> (F, Inl (StorageFailure ''encoding''))
     | Some bs \<Rightarrow> write_private ([], name) bs F)"

definition load_redeemed :: "store_codec \<Rightarrow> fs \<Rightarrow> spent_nonces facade_result" where
  "load_redeemed P = load_pairs P REDEEMED"

definition store_redeemed :: "store_codec \<Rightarrow> spent_nonces \<Rightarrow> fs \<Rightarrow> (fs, workspace_error, unit) step" where
  "store_redeemed P = store_pairs P REDEEMED"

definition load_pending_assets :: "store_codec \<Rightarrow> fs \<Rightarrow> pending_assets facade_result" where
  "load_pending_assets P = load_pairs P PENDING_ASSETS"

definition store_pending_assets :: "store_codec \<Rightarrow> pending_assets \<Rightarrow> fs \<Rightarrow> (fs, workspace_error, unit) step" where
  "store_pending_assets P = store_pairs P PENDING_ASSETS"

definition workspace_path :: "bytes32 \<Rightarrow> path" where
  "workspace_path tree = (WORKSPACES_DIR, store_hex tree @ CHR ''.'' # SNAPSHOT_EXT)"

definition store_workspace :: "store_codec \<Rightarrow> bytes32 \<Rightarrow> workspace_record \<Rightarrow> fs \<Rightarrow> (fs, workspace_error, unit) step" where
  "store_workspace P tree rec F = (case sc_encode_record P rec of
       None \<Rightarrow> (F, Inl (StorageFailure ''encoding a workspace snapshot''))
     | Some bs \<Rightarrow> write_private (workspace_path tree) bs F)"

definition load_workspace :: "store_codec \<Rightarrow> bytes32 \<Rightarrow> fs \<Rightarrow> workspace_record option facade_result" where
  "load_workspace P tree F = (case fs_read (workspace_path tree) F of
       Inr bs \<Rightarrow> (case sc_decode_record P bs of None \<Rightarrow> Inl (StorageFailure ''decoding'') | Some rec \<Rightarrow> Inr (Some rec))
     | Inl NotFound \<Rightarrow> Inr None
     | Inl (IoError e) \<Rightarrow> Inl (StorageFailure e))"

definition snapshot_tree :: "path \<times> disk_file \<Rightarrow> bytes32 option" where
  "snapshot_tree = (\<lambda>((dir, name), _).
     if dir \<noteq> WORKSPACES_DIR then None
     else case split_name name of (stem, ext) \<Rightarrow> if ext \<noteq> Some SNAPSHOT_EXT then None else store_unhex stem)"

definition list_workspaces :: "fs \<Rightarrow> bytes32 list facade_result" where
  "list_workspaces F = (case fs_fault F FsReadDir (WORKSPACES_DIR, []) of
       Some e \<Rightarrow> Inl (StorageFailure e)
     | None \<Rightarrow> Inr (sort (List.map_filter snapshot_tree (fs_files F))))"

definition remove_workspace :: "bytes32 \<Rightarrow> fs \<Rightarrow> (fs, workspace_error, unit) step" where
  "remove_workspace tree F = (case fs_remove (workspace_path tree) F of
       (F, Inr _) \<Rightarrow> (F, Inr ())
     | (F, Inl NotFound) \<Rightarrow> (F, Inr ())
     | (F, Inl (IoError e)) \<Rightarrow> (F, Inl (StorageFailure e)))"

section \<open>Durable slots\<close>

text \<open>
  Places that hold one value each, written so that a failed write changes none of them: the contract that
  the rest of the crate relies on.
\<close>

locale durable_slots =
  fixes put :: "'k \<Rightarrow> 'v \<Rightarrow> 's \<Rightarrow> 's \<times> bool" and get :: "'k \<Rightarrow> 's \<Rightarrow> 'v option"
  assumes get_put: "get k' (fst (put k v s)) = (if snd (put k v s) \<and> k' = k then Some v else get k' s)"
begin

text \<open>The state after a sequence of writes, and the writes that succeeded, latest first.\<close>

definition puts :: "('k \<times> 'v) list \<Rightarrow> 's \<times> ('k \<times> 'v) list \<Rightarrow> 's \<times> ('k \<times> 'v) list" where
  "puts = fold (\<lambda>(k, v) (s, log). case put k v s of (s, ok) \<Rightarrow> (s, if ok then (k, v) # log else log))"

text \<open>Every slot holds the value of its last successful write.\<close>

lemma get_puts:
  "get k (fst (puts kvs (s, log))) = (case map_of (snd (puts kvs (s, log))) k of Some v \<Rightarrow> Some v | None \<Rightarrow> get k s0)"
  if "get k s = (case map_of log k of Some v \<Rightarrow> Some v | None \<Rightarrow> get k s0)"
  using that
proof (induction kvs arbitrary: s log)
  case (Cons kv kvs)
  obtain k' v where kv: "kv = (k', v)" by fastforce
  obtain s' ok where put: "put k' v s = (s', ok)" by fastforce
  have "get k s' = (case map_of (if ok then (k', v) # log else log) k of Some v \<Rightarrow> Some v | None \<Rightarrow> get k s0)"
    using get_put [of k k' v s] Cons.prems by (auto simp: put)
  from Cons.IH [OF this] show ?case by (simp add: puts_def kv put)
qed (simp add: puts_def)

end

datatype slot = EndpointSlot | RedeemedSlot | PendingSlot | SnapshotSlot bytes32

fun slot_path :: "slot \<Rightarrow> path" where
  "slot_path EndpointSlot = ([], ENDPOINT_KEY)"
| "slot_path RedeemedSlot = ([], REDEEMED)"
| "slot_path PendingSlot = ([], PENDING_ASSETS)"
| "slot_path (SnapshotSlot tree) = workspace_path tree"

definition slot_put :: "slot \<Rightarrow> bytes \<Rightarrow> fs \<Rightarrow> fs \<times> bool" where
  "slot_put k bs F = map_prod (\<lambda>F. F) is_ok (write_private (slot_path k) bs F)"

definition slot_get :: "slot \<Rightarrow> fs \<Rightarrow> bytes option" where
  "slot_get k F = map_option f_data (file_at F (slot_path k))"

subsection \<open>Paths\<close>

lemma split_name_dot:
  assumes "CHR ''.'' \<notin> set ext" and "stem \<noteq> []"
  shows "split_name (stem @ CHR ''.'' # ext) = (stem, Some ext)"
proof -
  have "takeWhile (\<lambda>c. c \<noteq> CHR ''.'') (rev ext @ CHR ''.'' # rev stem) = rev ext"
    "dropWhile (\<lambda>c. c \<noteq> CHR ''.'') (rev ext @ CHR ''.'' # rev stem) = CHR ''.'' # rev stem"
    using assms(1) by (subst takeWhile_append2 dropWhile_append2; auto)+
  with assms(2) show ?thesis by (simp add: split_name_def)
qed

lemma store_unhex_hex [simp]: "store_unhex (store_hex b) = Some b"
  by (simp add: store_unhex_def store_hex_def length_hex unhex_pairs_hex be_word_be_bytes)

lemma store_hex_inj [simp]: "store_hex a = store_hex b \<longleftrightarrow> a = b"
  by (metis option.inject store_unhex_hex)

lemma store_hex_nonempty [simp]: "store_hex b \<noteq> []"
  by (metis length_0_conv length_be_bytes length_hex mult_is_0 store_hex_def zero_neq_numeral)

lemma snapshot_ext: "CHR ''.'' \<notin> set SNAPSHOT_EXT"
  by (simp add: SNAPSHOT_EXT_def)

lemma tmp_path:
  "with_extension ''tmp'' (slot_path EndpointSlot) = ([], ''endpoint.tmp'')"
  "with_extension ''tmp'' (slot_path RedeemedSlot) = ([], ''redeemed.tmp'')"
  "with_extension ''tmp'' (slot_path PendingSlot) = ([], ''pending-assets.tmp'')"
  "with_extension ''tmp'' (slot_path (SnapshotSlot tree)) = (WORKSPACES_DIR, store_hex tree @ ''.tmp'')"
  by (code_simp, code_simp, code_simp)
    (simp add: with_extension_def workspace_path_def split_name_dot snapshot_ext)

lemma slot_path_inj: "slot_path k = slot_path k' \<longleftrightarrow> k = k'"
  by (cases k; cases k')
    (simp_all add: workspace_path_def WORKSPACES_DIR_def ENDPOINT_KEY_def REDEEMED_def PENDING_ASSETS_def)

lemma tmp_is_no_slot: "with_extension ''tmp'' (slot_path k) \<noteq> slot_path k'"
proof -
  have "store_hex t @ ''.tmp'' \<noteq> store_hex t' @ CHR ''.'' # SNAPSHOT_EXT" for t t'
    using split_name_dot [of "''tmp''" "store_hex t"] split_name_dot [OF snapshot_ext, of "store_hex t'"]
    by (auto simp: SNAPSHOT_EXT_def)
  then show ?thesis
    by (cases k; simp only: tmp_path; cases k')
      (simp_all add: workspace_path_def WORKSPACES_DIR_def ENDPOINT_KEY_def REDEEMED_def PENDING_ASSETS_def)
qed

subsection \<open>Writing\<close>

lemma fs_simps:
  "file_at (fs_put p bs F) q = (if q = p
     then Some \<lparr>f_data = bs, f_mode = (case file_at F p of Some f \<Rightarrow> f_mode f | None \<Rightarrow> fs_new_mode F)\<rparr> else file_at F q)"
  "fs_fault (fs_put p bs F) = fs_fault F"
  by (simp_all add: fs_put_def update_conv')

lemma map_of_rename: "map_of (AList.update q f (AList.delete p xs)) = (map_of xs)(p := None, q \<mapsto> f)"
  by (simp add: update_conv' delete_conv')

text \<open>
  Whatever call fails, the file itself is either the old one or the new one, never part of one, and the new
  one is private from the first moment it has its name. No other file changes but the temporary one.
\<close>

lemma write_private_atomic:
  assumes "with_extension ''tmp'' p \<noteq> p"
  shows "write_private p bs F = (F', r) \<Longrightarrow>
      file_at F' p = (if is_ok r then Some \<lparr>f_data = bs, f_mode = 0x180\<rparr> else file_at F p)
      \<and> (\<forall>q. q \<noteq> p \<longrightarrow> q \<noteq> with_extension ''tmp'' p \<longrightarrow> file_at F' q = file_at F q)
      \<and> fs_fault F' = fs_fault F"
  using assms
  by (auto simp: write_private_def Let_def fs_write_def fs_set_permissions_def fs_rename_def fs_simps
      update_conv' map_of_rename is_ok_def split: option.splits if_splits)

interpretation slots: durable_slots slot_put slot_get
proof unfold_locales
  fix k k' bs F
  obtain F' r where w: "write_private (slot_path k) bs F = (F', r)" by fastforce
  note atomic = write_private_atomic [OF tmp_is_no_slot w]
  have "file_at F' (slot_path k') = file_at F (slot_path k')" if "k' \<noteq> k"
  proof -
    have "slot_path k' \<noteq> slot_path k" "slot_path k' \<noteq> with_extension ''tmp'' (slot_path k)"
      using that tmp_is_no_slot [of k k'] by (auto simp: slot_path_inj)
    with atomic show ?thesis by blast
  qed
  moreover have "file_at F' (slot_path k) = (if is_ok r then Some \<lparr>f_data = bs, f_mode = 0x180\<rparr> else file_at F (slot_path k))"
    using atomic by blast
  ultimately show "slot_get k' (fst (slot_put k bs F)) = (if snd (slot_put k bs F) \<and> k' = k then Some bs else slot_get k' F)"
    by (cases "k' = k") (auto simp: slot_put_def slot_get_def w)
qed

lemma slot_put_write: "write_private (slot_path k) bs F = (F', r) \<Longrightarrow> slot_put k bs F = (F', is_ok r)"
  by (simp add: slot_put_def)

lemma slot_get_file: "slot_get k F = Some bs \<longleftrightarrow> (\<exists>f. file_at F (slot_path k) = Some f \<and> f_data f = bs)"
  by (auto simp: slot_get_def)

lemma fs_read_slot:
  "fs_fault F FsRead (slot_path k) = None \<Longrightarrow>
     fs_read (slot_path k) F = (case slot_get k F of None \<Rightarrow> Inl NotFound | Some bs \<Rightarrow> Inr bs)"
  by (simp add: fs_read_def slot_get_def split: option.splits)

section \<open>What a restart finds\<close>

text \<open>\<open>postcard\<close> reads back what it wrote.\<close>

definition codec_faithful :: "store_codec \<Rightarrow> bool" where
  "codec_faithful P \<longleftrightarrow> (\<forall>s bs. sc_encode_pairs P s = Some bs \<longrightarrow> sc_decode_pairs P bs = Some s)
     \<and> (\<forall>r bs. sc_encode_record P r = Some bs \<longrightarrow> sc_decode_record P bs = Some r)"

text \<open>
  A snapshot that was stored is the one that is loaded, other workspaces keep theirs, and a store that
  failed at whatever point leaves every snapshot as it was.
\<close>

theorem snapshot_survives:
  assumes "codec_faithful P" and "store_workspace P tree rec F = (F', r)"
    and "fs_fault F FsRead (workspace_path other) = None"
  shows "load_workspace P other F' = (if is_ok r \<and> other = tree then Inr (Some rec) else load_workspace P other F)"
proof (cases "sc_encode_record P rec")
  case (Some bs)
  with assms(2) have w: "write_private (slot_path (SnapshotSlot tree)) bs F = (F', r)"
    by (simp add: store_workspace_def)
  have get: "slot_get (SnapshotSlot other) F' = (if is_ok r \<and> other = tree then Some bs else slot_get (SnapshotSlot other) F)"
    using slots.get_put [of "SnapshotSlot other" "SnapshotSlot tree" bs F] by (simp add: slot_put_write [OF w])
  have "fs_fault F' = fs_fault F" using write_private_atomic [OF tmp_is_no_slot w] by blast
  with assms(3) have "fs_read (workspace_path other) F' = (if is_ok r \<and> other = tree then Inr bs else fs_read (workspace_path other) F)"
    using fs_read_slot [of F "SnapshotSlot other"] fs_read_slot [of F' "SnapshotSlot other"] get by simp
  with assms(1) Some show ?thesis by (auto simp: load_workspace_def codec_faithful_def)
qed (use assms in \<open>auto simp: store_workspace_def\<close>)

text \<open>
  The list of workspaces depends on the files alone and not on the order a directory enumerates them in,
  and it names every workspace whose snapshot is there.
\<close>

theorem list_workspaces_complete:
  assumes "mset (fs_files F) = mset (fs_files G)" and "fs_fault F = fs_fault G"
    and "fs_fault F FsReadDir (WORKSPACES_DIR, []) = None"
  shows "list_workspaces F = list_workspaces G
    \<and> (\<exists>found. list_workspaces F = Inr found \<and> sorted found
        \<and> (\<forall>tree. file_at F (workspace_path tree) \<noteq> None \<longrightarrow> tree \<in> set found))"
proof -
  have "mset (List.map_filter snapshot_tree (fs_files F)) = mset (List.map_filter snapshot_tree (fs_files G))"
    using assms(1) by (rule mset_map_filter)
  then have "sort (List.map_filter snapshot_tree (fs_files F)) = sort (List.map_filter snapshot_tree (fs_files G))"
    by (intro properties_for_sort) simp_all
  then have "list_workspaces F = list_workspaces G" using assms(2,3) by (simp add: list_workspaces_def)
  moreover have "tree \<in> set (List.map_filter snapshot_tree (fs_files F))" if "file_at F (workspace_path tree) = Some f" for tree f
  proof -
    have "snapshot_tree (workspace_path tree, f) = Some tree"
      by (simp add: snapshot_tree_def workspace_path_def split_name_dot snapshot_ext)
    with map_of_SomeD [OF that] show ?thesis unfolding set_map_filter by blast
  qed
  moreover have "list_workspaces F = Inr (sort (List.map_filter snapshot_tree (fs_files F)))"
    using assms(3) by (simp add: list_workspaces_def)
  ultimately show ?thesis by (intro conjI exI [of _ "sort (List.map_filter snapshot_tree (fs_files F))"]) auto
qed

text \<open>A workspace that was removed is gone, and removing it again succeeds.\<close>

theorem removed_workspace_gone:
  assumes "remove_workspace tree F = (F', Inr ())" and "fs_fault F FsRead (workspace_path tree) = None"
  shows "load_workspace P tree F' = Inr None \<and> remove_workspace tree F' = (F', Inr ())"
  using assms
  by (auto simp: remove_workspace_def fs_remove_def load_workspace_def fs_read_def delete_conv'
      split: option.splits if_splits)

end
