(* ===== verification/Roster.thy ===== *)
theory Roster
  imports Prelude
begin

text \<open>
  Admission control (\<open>roster.rs\<close>): the endpoints a node accepts connections from, one entry per
  workspace, and the guard in front of every protocol. A lock is poisoned when a holder panicked; then
  nothing is changed and nobody is admitted. \<open>is_endpoint\<close> is the transport's \<open>EndpointId::from_bytes\<close>.
\<close>

record allowed =
  al_derived :: "bytes32 set"
  al_bootstrap :: "bytes32 set"

definition allowed_default :: allowed where
  "allowed_default = \<lparr>al_derived = {}, al_bootstrap = {}\<rparr>"

record roster =
  ro_workspaces :: "(bytes32, allowed) btree_map"
  ro_poisoned :: bool

definition roster_default :: roster where
  "roster_default = \<lparr>ro_workspaces = [], ro_poisoned = False\<rparr>"

text \<open>\<open>entry(workspace).or_default()\<close>, changed by \<open>f\<close>\<close>

definition update_entry :: "bytes32 \<Rightarrow> (allowed \<Rightarrow> allowed) \<Rightarrow> roster \<Rightarrow> roster" where
  "update_entry workspace f R =
     (if ro_poisoned R then R
      else R\<lparr>ro_workspaces := bm_insert workspace
               (f (case bm_get (ro_workspaces R) workspace of Some a \<Rightarrow> a | None \<Rightarrow> allowed_default))
               (ro_workspaces R)\<rparr>)"

definition set_derived :: "(bytes32 \<Rightarrow> bool) \<Rightarrow> bytes32 \<Rightarrow> bytes32 list \<Rightarrow> roster \<Rightarrow> roster" where
  "set_derived is_endpoint workspace endpoints =
     update_entry workspace (al_derived_update (\<lambda>_. set (filter is_endpoint endpoints)))"

definition add_bootstrap :: "bytes32 \<Rightarrow> bytes32 \<Rightarrow> roster \<Rightarrow> roster" where
  "add_bootstrap workspace endpoint = update_entry workspace (al_bootstrap_update (insert endpoint))"

definition forget :: "bytes32 \<Rightarrow> roster \<Rightarrow> roster" where
  "forget workspace R =
     (if ro_poisoned R then R
      else R\<lparr>ro_workspaces := filter (\<lambda>(w, _). w \<noteq> workspace) (ro_workspaces R)\<rparr>)"

definition admits :: "bytes32 \<Rightarrow> roster \<Rightarrow> bool" where
  "admits peer R \<longleftrightarrow> \<not> ro_poisoned R
     \<and> list_ex (\<lambda>(_, a). peer \<in> al_derived a \<or> peer \<in> al_bootstrap a) (ro_workspaces R)"

text \<open>
  The guard: the inner handler completes the handshake, which tells the peer's identity, and then the
  roster decides. A refused connection is closed with a code of its own.
\<close>

definition REFUSED_CODE :: u32 where
  "REFUSED_CODE = 0x1EE1"

datatype accept_error = InnerAccept string | NotOnRoster bytes32

definition on_accepting :: "string + bytes32 \<Rightarrow> roster \<Rightarrow> (u32 \<times> bytes32) list \<times> (accept_error + bytes32)" where
  "on_accepting handshake R =
     (case handshake of
        Inl e \<Rightarrow> ([], Inl (InnerAccept e))
      | Inr peer \<Rightarrow> if admits peer R then ([], Inr peer) else ([(REFUSED_CODE, peer)], Inl (NotOnRoster peer)))"

section \<open>The contract of a registry\<close>

text \<open>
  Entries that operations change one at a time and that are read together: what the workspaces on one
  node rely on.
\<close>

locale registry =
  fixes entry :: "'s \<Rightarrow> 'w \<Rightarrow> 'a" and perform :: "'o \<Rightarrow> 's \<Rightarrow> 's" and usable :: "'s \<Rightarrow> bool"
    and owner :: "'o \<Rightarrow> 'w" and act :: "'o \<Rightarrow> 'a \<Rightarrow> 'a"
  assumes usable_perform: "usable s \<Longrightarrow> usable (perform op s)"
    and entry_perform: "usable s \<Longrightarrow> entry (perform op s) w = (if w = owner op then act op (entry s w) else entry s w)"
begin

lemma usable_run: "usable s \<Longrightarrow> usable (fold perform ops s)"
  by (induction ops arbitrary: s) (auto simp: usable_perform)

text \<open>A sequence of operations acts on each entry as its own operations alone do, in their order.\<close>

lemma entry_run:
  assumes "usable s"
  shows "entry (fold perform ops s) w = fold act (filter (\<lambda>op. owner op = w) ops) (entry s w)"
  using assms by (induction ops arbitrary: s) (auto simp: usable_perform entry_perform)

end

definition roster_entry :: "roster \<Rightarrow> bytes32 \<Rightarrow> allowed" where
  "roster_entry R w = (case bm_get (ro_workspaces R) w of Some a \<Rightarrow> a | None \<Rightarrow> allowed_default)"

definition roster_usable :: "roster \<Rightarrow> bool" where
  "roster_usable R \<longleftrightarrow> bm_ok (ro_workspaces R) \<and> \<not> ro_poisoned R"

text \<open>Each operation of the roster as a change of one entry.\<close>

datatype roster_op = SetDerived bytes32 "bytes32 list" | AddBootstrap bytes32 bytes32 | Forget bytes32

fun roster_apply :: "(bytes32 \<Rightarrow> bool) \<Rightarrow> roster_op \<Rightarrow> roster \<Rightarrow> roster" where
  "roster_apply is_endpoint (SetDerived w es) = set_derived is_endpoint w es"
| "roster_apply is_endpoint (AddBootstrap w e) = add_bootstrap w e"
| "roster_apply is_endpoint (Forget w) = forget w"

fun op_workspace :: "roster_op \<Rightarrow> bytes32" where
  "op_workspace (SetDerived w es) = w"
| "op_workspace (AddBootstrap w e) = w"
| "op_workspace (Forget w) = w"

fun op_change :: "(bytes32 \<Rightarrow> bool) \<Rightarrow> roster_op \<Rightarrow> allowed \<Rightarrow> allowed" where
  "op_change is_endpoint (SetDerived w es) a = a\<lparr>al_derived := set (filter is_endpoint es)\<rparr>"
| "op_change is_endpoint (AddBootstrap w e) a = a\<lparr>al_bootstrap := insert e (al_bootstrap a)\<rparr>"
| "op_change is_endpoint (Forget w) a = allowed_default"

lemma map_of_filter_key: "map_of (filter (\<lambda>(w, _). w \<noteq> v) m) w = (if w = v then None else map_of m w)"
  by (induction m) auto

lemma bm_ok_filter: "bm_ok m \<Longrightarrow> bm_ok (filter P m)"
  by (induction m) (auto simp: bm_ok_Cons)

interpretation rosters: registry roster_entry "roster_apply ep" roster_usable op_workspace "op_change ep" for ep
proof unfold_locales
  fix R op w assume "roster_usable R"
  then show "roster_usable (roster_apply ep op R)"
    "roster_entry (roster_apply ep op R) w
      = (if w = op_workspace op then op_change ep op (roster_entry R w) else roster_entry R w)"
    by (cases op; auto simp: set_derived_def add_bootstrap_def forget_def update_entry_def roster_usable_def
        roster_entry_def map_of_filter_key bm_ok_filter)+
qed

lemma admits_entry:
  assumes "roster_usable R"
  shows "admits e R \<longleftrightarrow> (\<exists>w. e \<in> al_derived (roster_entry R w) \<union> al_bootstrap (roster_entry R w))"
proof
  assume "admits e R"
  then obtain w a where a: "(w, a) \<in> set (ro_workspaces R)" "e \<in> al_derived a \<union> al_bootstrap a"
    by (auto simp: admits_def list_ex_iff)
  with assms have "roster_entry R w = a"
    by (simp add: roster_entry_def roster_usable_def flip: bm_get_in_set)
  with a show "\<exists>w. e \<in> al_derived (roster_entry R w) \<union> al_bootstrap (roster_entry R w)" by blast
next
  assume "\<exists>w. e \<in> al_derived (roster_entry R w) \<union> al_bootstrap (roster_entry R w)"
  then obtain w a where "bm_get (ro_workspaces R) w = Some a" "e \<in> al_derived a \<union> al_bootstrap a"
    by (auto simp: roster_entry_def allowed_default_def split: option.splits)
  then show "admits e R"
    using assms by (auto simp: admits_def roster_usable_def list_ex_iff dest!: map_of_SomeD)
qed

section \<open>Who is admitted\<close>

text \<open>
  \<open>granted ep e ops\<close>: of the operations of one workspace, one after the last \<open>forget\<close> admits \<open>e\<close>: as a
  bootstrap peer, or as a valid endpoint of the last derived set.
\<close>

fun forgets :: "roster_op \<Rightarrow> bool" where
  "forgets (Forget w) = True"
| "forgets _ = False"

fun derives :: "roster_op \<Rightarrow> bool" where
  "derives (SetDerived w es) = True"
| "derives _ = False"

definition seeded :: "bytes32 \<Rightarrow> roster_op list \<Rightarrow> bool" where
  "seeded e ops \<longleftrightarrow> (\<exists>before op after. ops = before @ op # after
     \<and> (\<exists>w. op = AddBootstrap w e) \<and> \<not> list_ex forgets after)"

definition listed :: "(bytes32 \<Rightarrow> bool) \<Rightarrow> bytes32 \<Rightarrow> roster_op list \<Rightarrow> bool" where
  "listed ep e ops \<longleftrightarrow> (\<exists>before op after. ops = before @ op # after
     \<and> (\<exists>w es. op = SetDerived w es \<and> e \<in> set es) \<and> ep e \<and> \<not> list_ex forgets after \<and> \<not> list_ex derives after)"

definition granted :: "(bytes32 \<Rightarrow> bool) \<Rightarrow> bytes32 \<Rightarrow> roster_op list \<Rightarrow> bool" where
  "granted ep e ops \<longleftrightarrow> seeded e ops \<or> listed ep e ops"

lemma last_op_cases:
  "(\<exists>before op after. xs @ [x] = before @ op # after \<and> P op after)
     \<longleftrightarrow> P x [] \<or> (\<exists>before op after. xs = before @ op # after \<and> P op (after @ [x]))"
  (is "?l \<longleftrightarrow> ?r")
proof
  assume ?l
  then obtain before op after where eq: "xs @ [x] = before @ op # after" "P op after" by blast
  then show ?r by (cases after rule: rev_cases) auto
qed (auto, metis append_Cons append_assoc)

lemma seeded_iff: "e \<in> al_bootstrap (fold (op_change ep) ops allowed_default) \<longleftrightarrow> seeded e ops"
proof (induction ops rule: rev_induct)
  case (snoc op ops)
  then show ?case unfolding seeded_def last_op_cases by (cases op) (auto simp: allowed_default_def)
qed (simp add: seeded_def allowed_default_def)

lemma listed_iff: "e \<in> al_derived (fold (op_change ep) ops allowed_default) \<longleftrightarrow> listed ep e ops"
proof (induction ops rule: rev_induct)
  case (snoc op ops)
  then show ?case unfolding listed_def last_op_cases by (cases op) (auto simp: allowed_default_def)
qed (simp add: listed_def allowed_default_def)

text \<open>
  C40. A node admits a peer exactly when some workspace does: the peer was seeded as a bootstrap peer of it, or
  is a valid endpoint of the last list derived for it, and the workspace was not forgotten since. What one
  workspace does to its own entry changes nothing for the others.
\<close>

theorem roster_admits_iff:
  "admits e (fold (roster_apply ep) ops roster_default)
     \<longleftrightarrow> (\<exists>w. granted ep e (filter (\<lambda>op. op_workspace op = w) ops))"
proof -
  have new: "roster_usable roster_default" "roster_entry roster_default w = allowed_default" for w
    by (simp_all add: roster_usable_def roster_default_def roster_entry_def)
  show ?thesis
    using admits_entry [OF rosters.usable_run [OF new(1)]]
    by (simp add: rosters.entry_run [OF new(1)] new(2) granted_def seeded_iff listed_iff disj_commute)
qed

text \<open>
  Only admitted peers pass the guard; a peer that is refused has its connection closed with
  \<open>REFUSED_CODE\<close>, and a failed handshake is reported as it is.
\<close>

theorem guard_passes_members:
  "(snd (on_accepting handshake R) = Inr peer \<longleftrightarrow> handshake = Inr peer \<and> admits peer R)
   \<and> (fst (on_accepting handshake R) \<noteq> [] \<longleftrightarrow> (\<exists>p. handshake = Inr p \<and> \<not> admits p R))"
  by (auto simp: on_accepting_def split: sum.splits)

end
