(* ===== verification/Node.thy ===== *)
theory Node
  imports Store Roster
begin

text \<open>
  A node (\<open>node.rs\<close>): its endpoint, the roster its guards share, the invitations it has redeemed and, when
  it is persistent, its files. Binding an endpoint to a key and starting the three protocols belong to the
  transport: \<open>bind_key\<close> gives the endpoint id of a key or an error, \<open>start\<close> the error of a protocol that
  does not come up.
\<close>

record node =
  nd_endpoint :: bytes32
  nd_roster :: roster
  nd_redeemed :: spent_nonces
  nd_redeemed_poisoned :: bool
  nd_store :: "fs option"

definition DEFAULT_GC_INTERVAL :: nat where
  "DEFAULT_GC_INTERVAL = 300"

definition spawn :: "(bytes32 \<Rightarrow> string + bytes32) \<Rightarrow> string option \<Rightarrow> bytes32 \<Rightarrow> node facade_result" where
  "spawn bind_key start fresh =
     (case bind_key fresh of
        Inl e \<Rightarrow> Inl (BindFailure e)
      | Inr endpoint \<Rightarrow> (case start of
            Some e \<Rightarrow> Inl (StorageFailure e)
          | None \<Rightarrow> Inr \<lparr>nd_endpoint = endpoint, nd_roster = roster_default, nd_redeemed = {},
                         nd_redeemed_poisoned = False, nd_store = None\<rparr>))"

definition spawn_persistent ::
  "store_codec \<Rightarrow> (bytes32 \<Rightarrow> string + bytes32) \<Rightarrow> string option \<Rightarrow> bytes32 \<Rightarrow> fs \<Rightarrow> (fs, workspace_error, node) step" where
  "spawn_persistent P bind_key start fresh F =
     and_then (F, store_open F) (\<lambda>_ F.
     and_then (endpoint_key fresh F) (\<lambda>key F.
     and_then (F, map_err BindFailure (bind_key key)) (\<lambda>endpoint F.
     and_then (F, case start of Some e \<Rightarrow> Inl (StorageFailure e) | None \<Rightarrow> Inr ()) (\<lambda>_ F.
     and_then (F, load_redeemed P F) (\<lambda>redeemed F.
       (F, Inr \<lparr>nd_endpoint = endpoint, nd_roster = roster_default, nd_redeemed = redeemed,
                nd_redeemed_poisoned = False, nd_store = Some F\<rparr>))))))"

definition claim_invite :: "store_codec \<Rightarrow> bytes32 \<Rightarrow> bytes16 \<Rightarrow> node \<Rightarrow> node \<times> bool" where
  "claim_invite P tree nonce N =
     (if nd_redeemed_poisoned N then (N, False)
      else if (tree, nonce) \<in> nd_redeemed N then (N, False)
      else let redeemed = insert (tree, nonce) (nd_redeemed N); N = N\<lparr>nd_redeemed := redeemed\<rparr> in
           case nd_store N of
             None \<Rightarrow> (N, True)
           | Some F \<Rightarrow> (N\<lparr>nd_store := Some (fst (store_redeemed P redeemed F))\<rparr>, True))"

text \<open>The answers to a sequence of claims.\<close>

fun invite_claims :: "store_codec \<Rightarrow> (bytes32 \<times> bytes16) list \<Rightarrow> node \<Rightarrow> node \<times> bool list" where
  "invite_claims P [] N = (N, [])"
| "invite_claims P ((tree, nonce) # cs) N =
     (case claim_invite P tree nonce N of (N, ok) \<Rightarrow>
        (case invite_claims P cs N of (N, oks) \<Rightarrow> (N, ok # oks)))"

lemma claim_invite_redeemed:
  "\<not> nd_redeemed_poisoned N \<Longrightarrow> snd (claim_invite P tree nonce N) \<longleftrightarrow> (tree, nonce) \<notin> nd_redeemed N"
  "\<not> nd_redeemed_poisoned N \<Longrightarrow> nd_redeemed (fst (claim_invite P tree nonce N)) = insert (tree, nonce) (nd_redeemed N)"
  "nd_redeemed_poisoned (fst (claim_invite P tree nonce N)) = nd_redeemed_poisoned N"
  by (auto simp: claim_invite_def Let_def split: option.splits)

text \<open>
  A ticket is redeemed once on a node: of the claims of one pair the first is accepted, if the pair was not
  redeemed before, and no other.
\<close>

theorem invite_single_use:
  assumes "\<not> nd_redeemed_poisoned N" and "i < length cs"
  shows "snd (invite_claims P cs N) ! i \<longleftrightarrow> cs ! i \<notin> nd_redeemed N \<union> set (take i cs)"
  using assms
proof (induction cs arbitrary: N i)
  case (Cons c cs)
  obtain tree nonce where c: "c = (tree, nonce)" by fastforce
  obtain N' ok where claim: "claim_invite P tree nonce N = (N', ok)" by fastforce
  note step = claim_invite_redeemed [where N = N and P = P and tree = tree and nonce = nonce, unfolded claim fst_conv snd_conv]
  show ?case
  proof (cases i)
    case 0
    with Cons.prems step(1) show ?thesis by (simp add: c claim split: prod.splits)
  next
    case (Suc j)
    with Cons.prems step have "snd (invite_claims P cs N') ! j \<longleftrightarrow> cs ! j \<notin> nd_redeemed N' \<union> set (take j cs)"
      by (intro Cons.IH) simp_all
    moreover have "nd_redeemed N' = insert c (nd_redeemed N)" using step(2) Cons.prems by (simp add: c)
    moreover have "snd (invite_claims P (c # cs) N) ! i = snd (invite_claims P cs N') ! j"
      by (simp add: c claim Suc split: prod.split)
    ultimately show ?thesis by (simp add: Suc)
  qed
qed simp

lemma load_after_store:
  assumes "codec_faithful P" and "store_redeemed P s F = (F', Inr ())" and "fs_fault F FsRead ([], REDEEMED) = None"
  shows "load_redeemed P F' = Inr s \<and> slot_get EndpointSlot F' = slot_get EndpointSlot F \<and> fs_fault F' = fs_fault F"
proof -
  obtain bs where bs: "sc_encode_pairs P s = Some bs" "write_private (slot_path RedeemedSlot) bs F = (F', Inr ())"
    using assms(2) by (auto simp: store_redeemed_def store_pairs_def split: option.splits)
  note put = slot_put_write [OF bs(2)]
  have fault: "fs_fault F' = fs_fault F" using write_private_atomic [OF tmp_is_no_slot bs(2)] by blast
  have "slot_get RedeemedSlot F' = Some bs" "slot_get EndpointSlot F' = slot_get EndpointSlot F"
    using slots.get_put [of RedeemedSlot RedeemedSlot bs F] slots.get_put [of EndpointSlot RedeemedSlot bs F]
    by (simp_all add: put)
  with fault assms(1,3) fs_read_slot [of F' RedeemedSlot] bs(1) show ?thesis
    by (simp add: load_redeemed_def load_pairs_def codec_faithful_def)
qed

lemma endpoint_key_again:
  assumes "endpoint_key fresh F = (F1, Inr key)" and "fs_fault F FsRead ([], ENDPOINT_KEY) = None"
    and "slot_get EndpointSlot F2 = slot_get EndpointSlot F1" and "fs_fault F2 = fs_fault F"
  shows "endpoint_key fresh' F2 = (F2, Inr key)"
proof -
  have "slot_get EndpointSlot F1 \<noteq> None \<and> be_word 32 (the (slot_get EndpointSlot F1)) = Some key"
  proof (cases "slot_get EndpointSlot F")
    case (Some bs)
    with assms(1,2) fs_read_slot [of F EndpointSlot] show ?thesis
      by (auto simp: endpoint_key_def Let_def split: option.splits)
  next
    case None
    with assms(1,2) fs_read_slot [of F EndpointSlot] obtain r
      where w: "write_private (slot_path EndpointSlot) (be_bytes 32 fresh) F = (F1, Inr r)" and key: "key = fresh"
      by (auto simp: endpoint_key_def Let_def elim!: and_then_InrE)
    show ?thesis
      using slots.get_put [of EndpointSlot EndpointSlot "be_bytes 32 fresh" F]
      by (simp add: slot_put_write [OF w] key be_word_be_bytes)
  qed
  with assms(2-4) fs_read_slot [of F2 EndpointSlot] show ?thesis
    by (auto simp: endpoint_key_def Let_def)
qed

lemma endpoint_key_fault: "endpoint_key fresh F = (F', Inr key) \<Longrightarrow> fs_fault F' = fs_fault F"
  using write_private_atomic [OF tmp_is_no_slot, of EndpointSlot]
  by (auto simp: endpoint_key_def Let_def split: sum.splits io_error.splits elim!: and_then_InrE)

text \<open>
  C39. A persistent node that is started again on its files has its old endpoint, whatever key it would have
  drawn, and an invitation whose redemption was written down stays spent.
\<close>

theorem restart_keeps_identity:
  assumes "codec_faithful P" and "spawn_persistent P bind_key start fresh F0 = (F1, Inr N)"
    and "claim_invite P tree nonce N = (N', True)" and "store_redeemed P (nd_redeemed N') F1 = (F2, Inr ())"
    and "fs_fault F0 FsRead ([], ENDPOINT_KEY) = None" and "fs_fault F0 FsRead ([], REDEEMED) = None"
  shows "nd_store N' = Some F2 \<and> (\<exists>M. spawn_persistent P bind_key start fresh' F2 = (F2, Inr M)
    \<and> nd_endpoint M = nd_endpoint N \<and> nd_redeemed M = nd_redeemed N' \<and> \<not> snd (claim_invite P tree nonce M))"
proof -
  obtain key where sp: "store_open F0 = Inr ()" "endpoint_key fresh F0 = (F1, Inr key)"
      "bind_key key = Inr (nd_endpoint N)" "start = None" "nd_store N = Some F1" "\<not> nd_redeemed_poisoned N"
    using assms(2) by (auto simp: spawn_persistent_def elim!: and_then_InrE split: option.splits)
  have f1: "fs_fault F1 = fs_fault F0" by (rule endpoint_key_fault [OF sp(2)])
  have after: "load_redeemed P F2 = Inr (nd_redeemed N')" "slot_get EndpointSlot F2 = slot_get EndpointSlot F1"
    "fs_fault F2 = fs_fault F0"
    using load_after_store [OF assms(1,4)] assms(6) f1 by auto
  have key: "endpoint_key fresh' F2 = (F2, Inr key)"
    using endpoint_key_again [OF sp(2) assms(5) after(2,3)] .
  have "store_open F2 = Inr ()" using sp(1) after(3) by (simp add: store_open_def)
  with key sp after(1) have "spawn_persistent P bind_key start fresh' F2 = (F2, Inr
      \<lparr>nd_endpoint = nd_endpoint N, nd_roster = roster_default, nd_redeemed = nd_redeemed N',
       nd_redeemed_poisoned = False, nd_store = Some F2\<rparr>)"
    by (simp add: spawn_persistent_def)
  moreover have "(tree, nonce) \<in> nd_redeemed N'" "nd_store N' = Some F2"
    using assms(3,4) sp(5,6) by (auto simp: claim_invite_def Let_def split: if_splits)
  ultimately show ?thesis by (simp add: claim_invite_def)
qed

end
