(* ===== verification/Driver.thy ===== *)
theory Driver
  imports Handlers Invite Node Cooldown Asset "HOL-Library.Monad_Syntax"
begin

text \<open>
  The effect pump of the networked workspace (\<open>workspace.rs\<close>): the state behind the loops, and what is done
  for each effect the core asks for. The transport (gossip, replicated index, blobs, clocks) is not part of
  this repository: it is a record of functions over a type \<open>'s\<close> of states of the outside world, each of which
  may answer as it likes; so are the random numbers the crate draws itself. Replicas are named by their namespace id, tickets are of type \<open>'t\<close>. The code that
  holds the state lock does so for one call of the core; the loops are modelled one at a time.
\<close>

section \<open>The transport\<close>

record index_entry =
  ie_author :: bytes32
  ie_hash :: bytes32
  ie_len :: u64

datatype share_mode = ShareWrite | ShareRead

text \<open>\<open>NamespaceCapability\<close> of \<open>wire.rs\<close>: the two tickets of one replica. Its codec is \<open>postcard\<close>.\<close>

record 't namespace_capability =
  nc_write :: 't
  nc_read :: 't

text \<open>
  \<open>tr_get_many\<close> gives the entries of the stream up to its first error. \<open>tr_add_bytes\<close> gives the hash under a
  temporary tag, \<open>tr_drop_tag\<close> gives the tag back.
\<close>

record ('s, 't) transport =
  tr_create :: "'s \<Rightarrow> 's \<times> (string + bytes32)"
  tr_open :: "bytes32 \<Rightarrow> 's \<Rightarrow> 's \<times> (string + bytes32 option)"
  tr_import :: "'t \<Rightarrow> 's \<Rightarrow> 's \<times> (string + bytes32)"
  tr_drop_doc :: "bytes32 \<Rightarrow> 's \<Rightarrow> 's \<times> (string + unit)"
  tr_leave :: "bytes32 \<Rightarrow> 's \<Rightarrow> 's \<times> (string + unit)"
  tr_subscribe :: "bytes32 \<Rightarrow> 's \<Rightarrow> 's \<times> (string + unit)"
  tr_start_sync :: "bytes32 \<Rightarrow> bytes32 \<Rightarrow> 's \<Rightarrow> 's \<times> (string + unit)"
  tr_share :: "share_mode \<Rightarrow> bytes32 \<Rightarrow> 's \<Rightarrow> 's \<times> (string + 't)"
  tr_set_hash :: "bytes32 \<Rightarrow> bytes32 \<Rightarrow> bytes32 \<Rightarrow> bytes32 \<Rightarrow> u64 \<Rightarrow> 's \<Rightarrow> 's \<times> (string + unit)"
  tr_del :: "bytes32 \<Rightarrow> bytes32 \<Rightarrow> bytes \<Rightarrow> 's \<Rightarrow> 's \<times> (string + unit)"
  tr_get_many :: "bytes32 \<Rightarrow> bytes32 \<Rightarrow> 's \<Rightarrow> 's \<times> (string + index_entry list)"
  tr_get_one :: "bytes32 \<Rightarrow> bytes32 \<Rightarrow> 's \<Rightarrow> 's \<times> (string + index_entry option)"
  tr_set_download_policy :: "bytes32 \<Rightarrow> bytes24 list \<Rightarrow> 's \<Rightarrow> 's \<times> (string + unit)"
  tr_author_import :: "bytes32 \<Rightarrow> 's \<Rightarrow> 's \<times> (string + unit)"
  tr_add_bytes :: "bytes \<Rightarrow> 's \<Rightarrow> 's \<times> (string + bytes32)"
  tr_drop_tag :: "bytes32 \<Rightarrow> 's \<Rightarrow> 's \<times> unit"
  tr_get_bytes :: "bytes32 \<Rightarrow> 's \<Rightarrow> 's \<times> (string + bytes)"
  tr_download :: "bytes32 \<Rightarrow> bytes32 list \<Rightarrow> 's \<Rightarrow> 's \<times> (string + unit)"
  tr_broadcast :: "bytes \<Rightarrow> 's \<Rightarrow> 's \<times> (string + unit)"
  tr_subscribe_topic :: "bytes32 \<Rightarrow> bytes32 list \<Rightarrow> 's \<Rightarrow> 's \<times> (string + unit)"
  tr_instant :: "'s \<Rightarrow> 's \<times> nat"
  tr_unix :: "'s \<Rightarrow> 's \<times> u64 option"
  tr_random16 :: "'s \<Rightarrow> 's \<times> bytes16"
  tr_author_id :: "bytes32 \<Rightarrow> bytes32"
  tr_ticket_id :: "'t \<Rightarrow> bytes32"
  tr_encode_capability :: "'t namespace_capability \<Rightarrow> bytes option"
  tr_decode_capability :: "bytes \<Rightarrow> 't namespace_capability option"
  tr_is_endpoint :: "bytes32 \<Rightarrow> bool"

text \<open>
  Everything the crate is built on. \<open>dv_encode_snapshot\<close> and \<open>dv_decode_snapshot\<close> are \<open>postcard\<close> at the core's
  snapshot.
\<close>

record ('c, 'r, 'd, 's, 't, 'h) driver =
  dv_env :: "('c, 'r, 'd) env"
  dv_transport :: "('s, 't) transport"
  dv_wire :: wire_codec
  dv_store :: store_codec
  dv_invites :: "'t invite_crypto"
  dv_aead :: aead_lib
  dv_hasher :: "'h hasher"
  dv_encode_snapshot :: "'c workspace_snapshot \<Rightarrow> bytes option"
  dv_decode_snapshot :: "bytes \<Rightarrow> 'c workspace_snapshot option"

section \<open>The state behind the loops\<close>

text \<open>
  \<open>in_data_task\<close> is the replica that the data pump listens to, \<open>in_republish_wanted\<close> the permit stored in the
  \<open>Notify\<close>; the roster is the node's.
\<close>

record ('c, 'r, 'd, 's) inner =
  in_state :: "('c, 'r, 'd) workspace"
  in_doc :: bytes32
  in_data_task :: "bytes32 option"
  in_author :: bytes32
  in_secret :: workspace_secret
  in_signer :: bytes32
  in_seen :: "bytes32 \<times> bytes32 \<rightharpoonup> bytes32"
  in_neighbor_cooldown :: "bytes32 cooldown"
  in_repair_cooldown :: "(repair_target \<times> epoch_id) cooldown"
  in_repair_answer_cooldown :: "bytes32 cooldown"
  in_eviction_cooldown :: "bytes32 cooldown"
  in_republish_wanted :: bool
  in_workspace_key :: bytes32
  in_node :: node
  in_world :: 's

definition EVICTION_COOLDOWN :: nat where
  "EVICTION_COOLDOWN = 30 * 10 ^ 9"

definition NEIGHBOR_COOLDOWN :: nat where
  "NEIGHBOR_COOLDOWN = 10 * 10 ^ 9"

definition REPUBLISH_MIN_INTERVAL :: nat where
  "REPUBLISH_MIN_INTERVAL = 5 * 10 ^ 9"

definition REPAIR_COOLDOWN :: nat where
  "REPAIR_COOLDOWN = 2 * 10 ^ 9"

text \<open>A call of the transport, and a call of the core under its lock.\<close>

definition io :: "('s \<Rightarrow> 's \<times> 'a) \<Rightarrow> ('c, 'r, 'd, 's) inner \<Rightarrow> ('c, 'r, 'd, 's) inner \<times> 'a" where
  "io f I = (case f (in_world I) of (s, x) \<Rightarrow> (I\<lparr>in_world := s\<rparr>, x))"

definition with_state :: "(('c, 'r, 'd) workspace \<Rightarrow> ('c, 'r, 'd) workspace \<times> 'a)
     \<Rightarrow> ('c, 'r, 'd, 's) inner \<Rightarrow> ('c, 'r, 'd, 's) inner \<times> 'a" where
  "with_state f I = (case f (in_state I) of (W, x) \<Rightarrow> (I\<lparr>in_state := W\<rparr>, x))"

definition storage_io :: "('s \<Rightarrow> 's \<times> (string + 'a)) \<Rightarrow> ('c, 'r, 'd, 's) inner
     \<Rightarrow> (('c, 'r, 'd, 's) inner, workspace_error, 'a) step" where
  "storage_io f I = (case io f I of (I, r) \<Rightarrow> (I, map_err StorageFailure r))"

text \<open>\<open>now()\<close>: a clock before the epoch reports the epoch, one past \<open>i64::MAX\<close> that.\<close>

definition clock_now :: "u64 option \<Rightarrow> unix_seconds" where
  "clock_now clock = (case unix_now clock of Inl _ \<Rightarrow> 0 | Inr secs \<Rightarrow> min (int (unat secs)) (2 ^ 63 - 1))"

definition feed :: "('c, 'r, 'd, 's, 't, 'h) driver \<Rightarrow> event \<Rightarrow> ('c, 'r, 'd, 's) inner
     \<Rightarrow> (('c, 'r, 'd, 's) inner, core_error, effect list) step" where
  "feed D ev I = (case io (tr_unix (dv_transport D)) I of (I, clock) \<Rightarrow>
     with_state (handle (dv_env D) (clock_now clock) ev) I)"

definition report_rejection :: "effect list core_result \<Rightarrow> effect list" where
  "report_rejection r = (case r of Inr effects \<Rightarrow> effects | Inl _ \<Rightarrow> [])"

definition send :: "('c, 'r, 'd, 's, 't, 'h) driver \<Rightarrow> control_msg \<Rightarrow> ('c, 'r, 'd, 's) inner \<Rightarrow> ('c, 'r, 'd, 's) inner" where
  "send D msg I = (case msg_encode (dv_wire D) msg of
     Inl _ \<Rightarrow> I | Inr bs \<Rightarrow> fst (io (tr_broadcast (dv_transport D) bs) I))"

section \<open>Files and rosters\<close>

definition with_store :: "(fs \<Rightarrow> fs \<times> 'a) \<Rightarrow> ('c, 'r, 'd, 's) inner \<Rightarrow> ('c, 'r, 'd, 's) inner" where
  "with_store f I = (case nd_store (in_node I) of
     None \<Rightarrow> I | Some F \<Rightarrow> I\<lparr>in_node := (in_node I)\<lparr>nd_store := Some (fst (f F))\<rparr>\<rparr>)"

text \<open>\<open>WorkspaceState::export\<close>; the documents it commits are shared cells.\<close>

definition export_state :: "('c, 'r, 'd, 's, 't, 'h) driver \<Rightarrow> ('c, 'r, 'd) workspace \<Rightarrow> ('c, 'r, 'd, bytes) wstep" where
  "export_state D W = and_then (workspace_snapshot_of (dv_env D) W) (\<lambda>ss W. (W, serialized (dv_encode_snapshot D ss)))"

definition persist :: "('c, 'r, 'd, 's, 't, 'h) driver \<Rightarrow> ('c, 'r, 'd, 's) inner \<Rightarrow> ('c, 'r, 'd, 's) inner" where
  "persist D I =
     (if nd_store (in_node I) = None then I
      else case with_state (export_state D) I of
          (I, Inl _) \<Rightarrow> I
        | (I, Inr core) \<Rightarrow> with_store (store_workspace (dv_store D) (in_workspace_key I)
              \<lparr>wr_core = core, wr_namespace = in_doc I\<rparr>) I)"

definition refresh_roster :: "('c, 'r, 'd, 's, 't, 'h) driver \<Rightarrow> ('c, 'r, 'd, 's) inner \<Rightarrow> ('c, 'r, 'd, 's) inner" where
  "refresh_roster D I = I\<lparr>in_node := (in_node I)\<lparr>nd_roster :=
     set_derived (tr_is_endpoint (dv_transport D)) (in_workspace_key I) (workspace_roster (e_loro (dv_env D)) (in_state I))
       (nd_roster (in_node I))\<rparr>\<rparr>"

definition refresh_download_policy :: "('c, 'r, 'd, 's, 't, 'h) driver \<Rightarrow> ('c, 'r, 'd, 's) inner \<Rightarrow> ('c, 'r, 'd, 's) inner" where
  "refresh_download_policy D I =
     fst (io (tr_set_download_policy (dv_transport D) (in_doc I) (asset_prefixes (dv_env D) (in_state I))) I)"

definition pending_or_empty :: "('c, 'r, 'd, 's, 't, 'h) driver \<Rightarrow> fs \<Rightarrow> pending_assets" where
  "pending_or_empty D F = (case load_pending_assets (dv_store D) F of Inl _ \<Rightarrow> {} | Inr s \<Rightarrow> s)"

definition note_pending_asset ::
  "('c, 'r, 'd, 's, 't, 'h) driver \<Rightarrow> document_uuid \<Rightarrow> ('c, 'r, 'd, 's) inner \<Rightarrow> ('c, 'r, 'd, 's) inner" where
  "note_pending_asset D asset I =
     with_store (\<lambda>F. store_pending_assets (dv_store D) (insert (in_workspace_key I, asset) (pending_or_empty D F)) F) I"

definition clear_pending_assets ::
  "('c, 'r, 'd, 's, 't, 'h) driver \<Rightarrow> document_uuid list \<Rightarrow> ('c, 'r, 'd, 's) inner \<Rightarrow> ('c, 'r, 'd, 's) inner" where
  "clear_pending_assets D assets I =
     with_store (\<lambda>F. store_pending_assets (dv_store D)
       (pending_or_empty D F - (\<lambda>u. (in_workspace_key I, u)) ` set assets) F) I"

section \<open>Chunks and segments\<close>

text \<open>Storing bytes and indexing them: the temporary tag is given back once the index refers to them.\<close>

definition store_bytes ::
  "('c, 'r, 'd, 's, 't, 'h) driver \<Rightarrow> bytes32 \<Rightarrow> bytes \<Rightarrow> ('c, 'r, 'd, 's) inner
     \<Rightarrow> (('c, 'r, 'd, 's) inner, workspace_error, unit) step" where
  "store_bytes D key bs I =
     (let T = dv_transport D in
      and_then (storage_io (tr_add_bytes T bs) I) (\<lambda>h I.
      and_then (storage_io (tr_set_hash T (in_doc I) (in_author I) key h (of_nat (length bs))) I) (\<lambda>_ I.
        (fst (io (tr_drop_tag T h) I), Inr ()))))"

definition store_chunk ::
  "('c, 'r, 'd, 's, 't, 'h) driver \<Rightarrow> bytes32 \<Rightarrow> chunk \<Rightarrow> ('c, 'r, 'd, 's) inner
     \<Rightarrow> (('c, 'r, 'd, 's) inner, workspace_error, unit) step" where
  "store_chunk D key ch I =
     and_then (I, map_err CoreFailure (encode_chunk (dv_wire D) ch)) (\<lambda>bs I.
     and_then (store_bytes D key bs I) (\<lambda>_ I. (send D (MsgAnnounce key) I, Inr ())))"

definition store_segment ::
  "('c, 'r, 'd, 's, 't, 'h) driver \<Rightarrow> bytes32 \<Rightarrow> bytes \<Rightarrow> ('c, 'r, 'd, 's) inner
     \<Rightarrow> (('c, 'r, 'd, 's) inner, workspace_error, unit) step" where
  "store_segment D key ciphertext I = store_bytes D key ciphertext I"

definition local_bytes ::
  "('c, 'r, 'd, 's, 't, 'h) driver \<Rightarrow> bytes32 \<Rightarrow> ('c, 'r, 'd, 's) inner \<Rightarrow> ('c, 'r, 'd, 's) inner \<times> bytes option" where
  "local_bytes D h I = (case io (tr_get_bytes (dv_transport D) h) I of (I, Inl _) \<Rightarrow> (I, None) | (I, Inr bs) \<Rightarrow> (I, Some bs))"

definition fetch_indexed_bytes ::
  "('c, 'r, 'd, 's, 't, 'h) driver \<Rightarrow> bytes32 \<Rightarrow> ('c, 'r, 'd, 's) inner \<Rightarrow> ('c, 'r, 'd, 's) inner \<times> bytes option" where
  "fetch_indexed_bytes D key I =
     (let T = dv_transport D in
      case io (tr_get_one T (in_doc I) key) I of
        (I, Inr (Some entry)) \<Rightarrow>
          (case local_bytes D (ie_hash entry) I of
             (I, Some _) \<Rightarrow> local_bytes D (ie_hash entry) I
           | (I, None) \<Rightarrow>
               let peers = filter (\<lambda>p. p \<noteq> nd_endpoint (in_node I))
                     (filter (tr_is_endpoint T) (workspace_roster (e_loro (dv_env D)) (in_state I)))
               in if peers = [] then (I, None)
                  else local_bytes D (ie_hash entry) (fst (io (tr_download T (ie_hash entry) peers) I)))
      | (I, _) \<Rightarrow> (I, None))"

section \<open>The pump\<close>

text \<open>
  \<open>apply_effects\<close> comes back to itself: evicting, minting, adopting and answering a repair feed the core
  another event and pump what it returns. Those functions take the pump as an argument, and the depth of the
  nesting is the fuel of \<open>apply_effects\<close>: \<open>None\<close> when it runs out.
\<close>

type_synonym ('c, 'r, 'd, 's) pump = "effect list \<Rightarrow> ('c, 'r, 'd, 's) inner \<Rightarrow> ('c, 'r, 'd, 's) inner option"

definition claim_slot ::
  "('c, 'r, 'd, 's, 't, 'h) driver \<Rightarrow> (('c, 'r, 'd, 's) inner \<Rightarrow> 'k cooldown)
     \<Rightarrow> ('k cooldown \<Rightarrow> ('c, 'r, 'd, 's) inner \<Rightarrow> ('c, 'r, 'd, 's) inner) \<Rightarrow> 'k \<Rightarrow> ('c, 'r, 'd, 's) inner
     \<Rightarrow> ('c, 'r, 'd, 's) inner \<times> bool" where
  "claim_slot D get_slot set_slot key I =
     (case io (tr_instant (dv_transport D)) I of (I, at) \<Rightarrow>
        (case claim key at (get_slot I) of (c, allowed) \<Rightarrow> (set_slot c I, allowed)))"

definition request_repair ::
  "('c, 'r, 'd, 's, 't, 'h) driver \<Rightarrow> repair_target \<Rightarrow> epoch_id \<Rightarrow> ('c, 'r, 'd, 's) inner \<Rightarrow> ('c, 'r, 'd, 's) inner" where
  "request_repair D target epoch I =
     (case claim_slot D in_repair_cooldown (\<lambda>c. in_repair_cooldown_update (\<lambda>_. c)) (target, epoch) I of
        (I, False) \<Rightarrow> I
      | (I, True) \<Rightarrow> send D (MsgRepair (me (in_state I)) target epoch) I)"

definition evict_uncertified ::
  "('c, 'r, 'd, 's, 't, 'h) driver \<Rightarrow> ('c, 'r, 'd, 's) pump \<Rightarrow> bytes32 \<Rightarrow> ('c, 'r, 'd, 's) inner \<Rightarrow> ('c, 'r, 'd, 's) inner option" where
  "evict_uncertified D pump m I =
     (case claim_slot D in_eviction_cooldown (\<lambda>c. in_eviction_cooldown_update (\<lambda>_. c)) m I of
        (I, False) \<Rightarrow> Some I
      | (I, True) \<Rightarrow> (case feed D (EvRemoveMember m) I of (I, r) \<Rightarrow> pump (report_rejection r) I))"

definition answer_asset_key_repair ::
  "('c, 'r, 'd, 's, 't, 'h) driver \<Rightarrow> ('c, 'r, 'd, 's) pump \<Rightarrow> bytes32 \<Rightarrow> document_uuid \<Rightarrow> ('c, 'r, 'd, 's) inner
     \<Rightarrow> ('c, 'r, 'd, 's) inner option" where
  "answer_asset_key_repair D pump requester asset I =
     (case fetch_indexed_bytes D (asset_key_key (e_hash (dv_env D)) (in_secret I) asset) I of
        (I, None) \<Rightarrow> Some I
      | (I, Some bs) \<Rightarrow> (case decode_chunk (dv_wire D) bs of
            Inl _ \<Rightarrow> Some I
          | Inr ch \<Rightarrow> (case with_state (reseal_asset_key (dv_env D) requester asset ch) I of
                (I, r) \<Rightarrow> pump (report_rejection r) I)))"

fun feed_all ::
  "('c, 'r, 'd, 's, 't, 'h) driver \<Rightarrow> ('c, 'r, 'd, 's) pump \<Rightarrow> event list \<Rightarrow> ('c, 'r, 'd, 's) inner \<Rightarrow> ('c, 'r, 'd, 's) inner option" where
  "feed_all D pump [] I = Some I"
| "feed_all D pump (ev # evs) I = (case feed D ev I of (I, r) \<Rightarrow>
     do { I \<leftarrow> pump (report_rejection r) I; feed_all D pump evs I })"

definition republish ::
  "('c, 'r, 'd, 's, 't, 'h) driver \<Rightarrow> ('c, 'r, 'd, 's) pump \<Rightarrow> ('c, 'r, 'd, 's) inner \<Rightarrow> ('c, 'r, 'd, 's) inner option" where
  "republish D pump I =
     (let docs = map fe_uuid (files (e_loro (dv_env D)) (e_codec (dv_env D)) (w_manifest (in_state I))) in
      map_option (persist D) (feed_all D pump (map EvResync docs @ ANNOUNCED_ONCE) I))"

definition spawn_data_loop ::
  "('c, 'r, 'd, 's, 't, 'h) driver \<Rightarrow> ('c, 'r, 'd, 's) inner \<Rightarrow> (('c, 'r, 'd, 's) inner, workspace_error, unit) step" where
  "spawn_data_loop D I =
     and_then (storage_io (tr_subscribe (dv_transport D) (in_doc I)) I) (\<lambda>_ I.
       (I\<lparr>in_data_task := Some (in_doc I)\<rparr>, Inr ()))"

fun reindex_keys ::
  "('c, 'r, 'd, 's, 't, 'h) driver \<Rightarrow> bytes32 \<Rightarrow> bytes32 list \<Rightarrow> ('c, 'r, 'd, 's) inner \<Rightarrow> ('c, 'r, 'd, 's) inner" where
  "reindex_keys D previous [] I = I"
| "reindex_keys D previous (key # ks) I =
     (case io (tr_get_one (dv_transport D) previous key) I of
        (I, Inr (Some entry)) \<Rightarrow>
          (case local_bytes D (ie_hash entry) I of
             (I, None) \<Rightarrow> reindex_keys D previous ks I
           | (I, Some _) \<Rightarrow> reindex_keys D previous ks
               (fst (io (tr_set_hash (dv_transport D) (in_doc I) (in_author I) key (ie_hash entry) (ie_len entry)) I)))
      | (I, _) \<Rightarrow> reindex_keys D previous ks I)"

definition reindex_assets ::
  "('c, 'r, 'd, 's, 't, 'h) driver \<Rightarrow> bytes32 \<Rightarrow> ('c, 'r, 'd, 's) inner \<Rightarrow> ('c, 'r, 'd, 's) inner" where
  "reindex_assets D previous I = reindex_keys D previous (asset_index_keys (dv_env D) (in_state I)) I"

definition local_role_may_write :: "('c, 'r, 'd, 's) inner \<Rightarrow> bool" where
  "local_role_may_write I =
     (case role_of_member (capabilities (in_state I)) (me (in_state I)) of None \<Rightarrow> True | Some r \<Rightarrow> can_write r)"

definition adopt_namespace ::
  "('c, 'r, 'd, 's, 't, 'h) driver \<Rightarrow> ('c, 'r, 'd, 's) pump \<Rightarrow> bytes \<Rightarrow> bool \<Rightarrow> ('c, 'r, 'd, 's) inner
     \<Rightarrow> ('c, 'r, 'd, 's) inner option" where
  "adopt_namespace D pump ticket may_write I =
     (let T = dv_transport D in
      case tr_decode_capability T ticket of
        None \<Rightarrow> Some I
      | Some capability \<Rightarrow>
          let chosen = (if may_write then nc_write capability else nc_read capability);
              opened = (case io (tr_open T (tr_ticket_id T chosen)) I of
                  (I, Inr (Some existing)) \<Rightarrow> (I, Inr existing)
                | (I, _) \<Rightarrow> io (tr_import T chosen) I)
          in case opened of
               (I, Inl _) \<Rightarrow> Some I
             | (I, Inr replacement) \<Rightarrow>
                 let previous = in_doc I;
                     I = reindex_assets D previous (I\<lparr>in_doc := replacement\<rparr>);
                     I = (fst (io (tr_leave T previous) I))\<lparr>in_seen := Map.empty\<rparr>;
                     I = fst (spawn_data_loop D I)
                 in republish D pump (refresh_download_policy D I))"

definition mint_namespace ::
  "('c, 'r, 'd, 's, 't, 'h) driver \<Rightarrow> ('c, 'r, 'd, 's) pump \<Rightarrow> u32 \<Rightarrow> ('c, 'r, 'd, 's) inner \<Rightarrow> ('c, 'r, 'd, 's) inner option" where
  "mint_namespace D pump epoch I =
     (let T = dv_transport D in
      case io (tr_create T) I of
        (I, Inl _) \<Rightarrow> Some I
      | (I, Inr fresh) \<Rightarrow>
          (case io (tr_share T ShareWrite fresh) I of (I, write_ticket) \<Rightarrow>
           case io (tr_share T ShareRead fresh) I of (I, read_ticket) \<Rightarrow>
             (case (write_ticket, read_ticket) of
                (Inr w, Inr r) \<Rightarrow>
                  (case tr_encode_capability T \<lparr>nc_write = w, nc_read = r\<rparr> of
                     None \<Rightarrow> Some I
                   | Some ticket \<Rightarrow>
                       (case feed D (EvNamespaceMinted epoch ticket) I of (I, r) \<Rightarrow>
                          if report_rejection r = [] then Some I else pump (report_rejection r) I))
              | _ \<Rightarrow> Some I)))"

text \<open>\<open>Doc::del\<close> withdraws the author's entries under a prefix; the cached hashes under it are forgotten.\<close>

definition withdraw ::
  "('c, 'r, 'd, 's, 't, 'h) driver \<Rightarrow> bytes \<Rightarrow> ('c, 'r, 'd, 's) inner \<Rightarrow> ('c, 'r, 'd, 's) inner" where
  "withdraw D prefix I =
     fst (io (tr_del (dv_transport D) (in_doc I) (in_author I) prefix)
       (I\<lparr>in_seen := retain (\<lambda>(k, _) _. take (length prefix) (be_bytes 32 k) \<noteq> prefix) (in_seen I)\<rparr>))"

fun apply_effect ::
  "('c, 'r, 'd, 's, 't, 'h) driver \<Rightarrow> ('c, 'r, 'd, 's) pump \<Rightarrow> effect \<Rightarrow> ('c, 'r, 'd, 's) inner \<Rightarrow> ('c, 'r, 'd, 's) inner option" where
  "apply_effect D pump (BroadcastOp op prf) I = Some (send D (MsgOp op prf) I)"
| "apply_effect D pump (BroadcastCerts certs) I = Some (send D (MsgCerts certs) I)"
| "apply_effect D pump (EvictUncertified m) I = evict_uncertified D pump m I"
| "apply_effect D pump (StoreChunk key _ ch) I = Some (fst (store_chunk D key ch I))"
| "apply_effect D pump (StoreManifest key ch) I = Some (fst (store_chunk D key ch I))"
| "apply_effect D pump (DeleteEntry key _) I = Some (withdraw D (be_bytes 32 key) I)"
| "apply_effect D pump (DeleteAssetSegments prefix _) I = Some (withdraw D (be_bytes 24 prefix) I)"
| "apply_effect D pump ManifestUpdated I = Some (refresh_download_policy D (refresh_roster D I))"
| "apply_effect D pump (RequestRepair target epoch) I = Some (request_repair D target epoch I)"
| "apply_effect D pump (ResealAssetKey requester asset) I = answer_asset_key_repair D pump requester asset I"
| "apply_effect D pump (RotateNamespace epoch) I = mint_namespace D pump epoch I"
| "apply_effect D pump (PublishNamespace epoch ch) I = Some (send D (MsgNamespace epoch ch) I)"
| "apply_effect D pump (AdoptNamespace _ ticket) I = adopt_namespace D pump ticket (local_role_may_write I) I"
| "apply_effect D pump (AppliedDoc _) I = Some I"

fun apply_each ::
  "(effect \<Rightarrow> ('c, 'r, 'd, 's) inner \<Rightarrow> ('c, 'r, 'd, 's) inner option) \<Rightarrow> ('c, 'r, 'd, 's) pump" where
  "apply_each f [] I = Some I"
| "apply_each f (e # effects) I = do { I \<leftarrow> f e I; apply_each f effects I }"

primrec apply_effects :: "('c, 'r, 'd, 's, 't, 'h) driver \<Rightarrow> nat \<Rightarrow> ('c, 'r, 'd, 's) pump" where
  "apply_effects D 0 = (\<lambda>effects I. if effects = [] then Some I else None)"
| "apply_effects D (Suc depth) = apply_each (apply_effect D (apply_effects D depth))"

end
