(* ===== verification/Networked.thy ===== *)
theory Networked
  imports Driver
begin

text \<open>
  The loops and the operations of the networked workspace (\<open>workspace.rs\<close>): what arrives over gossip and from
  the replicated index, the calls of the application, founding, joining and reopening, invitations and binary
  assets. Randomness that the crate draws itself comes from the outside world.
\<close>

section \<open>Pumping\<close>

text \<open>\<open>perform\<close> runs the pump with the nesting it needs; it never runs out.\<close>

definition PUMP_DEPTH :: nat where
  "PUMP_DEPTH = 4"

definition perform :: "('c, 'r, 'd, 's, 't, 'h) driver \<Rightarrow> effect list \<Rightarrow> ('c, 'r, 'd, 's) inner \<Rightarrow> ('c, 'r, 'd, 's) inner" where
  "perform D effects I = (case apply_effects D PUMP_DEPTH effects I of Some I' \<Rightarrow> I' | None \<Rightarrow> I)"

definition accepts_author :: "('c, 'r, 'd, 's, 't, 'h) driver \<Rightarrow> bool \<Rightarrow> bytes32 \<Rightarrow> ('c, 'r, 'd, 's) inner \<Rightarrow> bool" where
  "accepts_author D check_author author I \<longleftrightarrow>
     \<not> check_author \<or> author = in_author I \<or> author_may_write (e_loro (dv_env D)) author (in_state I)"

fun fetch_entries ::
  "('c, 'r, 'd, 's, 't, 'h) driver \<Rightarrow> bytes32 \<Rightarrow> bool \<Rightarrow> index_entry list \<Rightarrow> ('c, 'r, 'd, 's) inner
     \<Rightarrow> ('c, 'r, 'd, 's) inner \<times> chunk list" where
  "fetch_entries D key check_author [] I = (I, [])"
| "fetch_entries D key check_author (entry # es) I =
     (if \<not> accepts_author D check_author (ie_author entry) I \<or> in_seen I (key, ie_author entry) = Some (ie_hash entry)
      then fetch_entries D key check_author es I
      else case local_bytes D (ie_hash entry) I of
          (I, None) \<Rightarrow> fetch_entries D key check_author es I
        | (I, Some bs) \<Rightarrow> (case decode_chunk (dv_wire D) bs of
              Inl _ \<Rightarrow> fetch_entries D key check_author es I
            | Inr ch \<Rightarrow> (case fetch_entries D key check_author es
                  (I\<lparr>in_seen := (in_seen I)((key, ie_author entry) \<mapsto> ie_hash entry)\<rparr>) of
                (I, chunks) \<Rightarrow> (I, ch # chunks))))"

definition fetch_chunks ::
  "('c, 'r, 'd, 's, 't, 'h) driver \<Rightarrow> bytes32 \<Rightarrow> bool \<Rightarrow> ('c, 'r, 'd, 's) inner \<Rightarrow> ('c, 'r, 'd, 's) inner \<times> chunk list" where
  "fetch_chunks D key check_author I =
     (case io (tr_get_many (dv_transport D) (in_doc I) key) I of
        (I, Inl _) \<Rightarrow> (I, [])
      | (I, Inr entries) \<Rightarrow> fetch_entries D key check_author entries I)"

fun feed_each ::
  "('c, 'r, 'd, 's, 't, 'h) driver \<Rightarrow> event list \<Rightarrow> ('c, 'r, 'd, 's) inner \<Rightarrow> ('c, 'r, 'd, 's) inner" where
  "feed_each D [] I = I"
| "feed_each D (ev # evs) I = (case feed D ev I of (I, r) \<Rightarrow> feed_each D evs (perform D (report_rejection r) I))"

fun ingest_docs ::
  "('c, 'r, 'd, 's, 't, 'h) driver \<Rightarrow> document_uuid list \<Rightarrow> ('c, 'r, 'd, 's) inner \<Rightarrow> ('c, 'r, 'd, 's) inner" where
  "ingest_docs D [] I = I"
| "ingest_docs D (doc # docs) I =
     (case fetch_chunks D (storage_key (e_hash (dv_env D)) (in_secret I) doc) True I of
        (I, chunks) \<Rightarrow> ingest_docs D docs (feed_each D (map (EvChunkArrived doc) chunks) I))"

definition file_uuids :: "('c, 'r, 'd, 's, 't, 'h) driver \<Rightarrow> ('c, 'r, 'd, 's) inner \<Rightarrow> document_uuid list" where
  "file_uuids D I = map fe_uuid (files (e_loro (dv_env D)) (e_codec (dv_env D)) (w_manifest (in_state I)))"

text \<open>What the core could not apply is forgotten, so that it is offered again.\<close>

definition forget_stuck :: "('c, 'r, 'd, 's, 't, 'h) driver \<Rightarrow> ('c, 'r, 'd, 's) inner \<Rightarrow> ('c, 'r, 'd, 's) inner" where
  "forget_stuck D I =
     (let stuck = pending_docs (in_state I);
          ks = map (storage_key (e_hash (dv_env D)) (in_secret I)) stuck
      in if stuck = [] then I else I\<lparr>in_seen := retain (\<lambda>(key, _) _. key \<notin> set ks) (in_seen I)\<rparr>)"

definition ingest_all :: "('c, 'r, 'd, 's, 't, 'h) driver \<Rightarrow> ('c, 'r, 'd, 's) inner \<Rightarrow> ('c, 'r, 'd, 's) inner" where
  "ingest_all D I =
     (case fetch_chunks D (manifest_key (e_hash (dv_env D)) (in_secret I)) False I of
        (I, chunks) \<Rightarrow>
          let I = feed_each D (map EvManifestArrived chunks) I
          in persist D (forget_stuck D (ingest_docs D (file_uuids D I) I)))"

section \<open>The loops\<close>

definition handle_control_msg ::
  "('c, 'r, 'd, 's, 't, 'h) driver \<Rightarrow> control_msg \<Rightarrow> ('c, 'r, 'd, 's) inner \<Rightarrow> ('c, 'r, 'd, 's) inner" where
  "handle_control_msg D decoded I =
     (case (case answer_cooldown_key decoded of
          None \<Rightarrow> (I, True)
        | Some key \<Rightarrow> claim_slot D in_repair_answer_cooldown (\<lambda>c. in_repair_answer_cooldown_update (\<lambda>_. c)) key I) of
        (I, False) \<Rightarrow> I
      | (I, True) \<Rightarrow>
          (case io (tr_unix (dv_transport D)) I of (I, clock) \<Rightarrow>
           case with_state (on_control (dv_env D) (clock_now clock) decoded) I of (I, r) \<Rightarrow>
             ingest_all D (perform D (report_rejection r) I)))"

definition send_log :: "('c, 'r, 'd, 's, 't, 'h) driver \<Rightarrow> ('c, 'r, 'd, 's) inner \<Rightarrow> ('c, 'r, 'd, 's) inner" where
  "send_log D I = (case op_log (e_beekem (dv_env D)) (w_cgka (in_state I)) of
     Inl _ \<Rightarrow> I | Inr ops \<Rightarrow> send D (MsgLog ops (certificates (capabilities (in_state I)))) I)"

datatype gossip_event = Received bytes | NeighborUp bytes32 | OtherGossip

fun control_event ::
  "('c, 'r, 'd, 's, 't, 'h) driver \<Rightarrow> gossip_event \<Rightarrow> ('c, 'r, 'd, 's) inner \<Rightarrow> ('c, 'r, 'd, 's) inner" where
  "control_event D (Received bs) I = (case msg_decode (dv_wire D) bs of Inl _ \<Rightarrow> I | Inr m \<Rightarrow> handle_control_msg D m I)"
| "control_event D (NeighborUp peer) I =
     (case claim_slot D in_neighbor_cooldown (\<lambda>c. in_neighbor_cooldown_update (\<lambda>_. c)) peer I of
        (I, False) \<Rightarrow> I
      | (I, True) \<Rightarrow> (send_log D I)\<lparr>in_republish_wanted := True\<rparr>)"
| "control_event D OtherGossip I = I"

datatype live_event = InsertRemote | ContentReady | OtherLive

fun data_event :: "('c, 'r, 'd, 's, 't, 'h) driver \<Rightarrow> live_event \<Rightarrow> ('c, 'r, 'd, 's) inner \<Rightarrow> ('c, 'r, 'd, 's) inner" where
  "data_event D InsertRemote I = ingest_all D I"
| "data_event D ContentReady I = ingest_all D I"
| "data_event D OtherLive I = I"

text \<open>One turn of \<open>republish_loop\<close>: it waits for the permit, takes it and republishes.\<close>

definition republish_turn :: "('c, 'r, 'd, 's, 't, 'h) driver \<Rightarrow> ('c, 'r, 'd, 's) inner \<Rightarrow> ('c, 'r, 'd, 's) inner" where
  "republish_turn D I =
     (if \<not> in_republish_wanted I then I
      else case republish D (apply_effects D PUMP_DEPTH) (I\<lparr>in_republish_wanted := False\<rparr>) of
          Some I' \<Rightarrow> I' | None \<Rightarrow> I)"

section \<open>Calls of the application\<close>

type_synonym ('c, 'r, 'd, 's, 'a) fstep = "(('c, 'r, 'd, 's) inner, workspace_error, 'a) step"

fun moves_membership :: "event \<Rightarrow> bool" where
  "moves_membership (EvAddUser _ _ _ _ _) = True"
| "moves_membership (EvAddDevice _ _ _ _ _) = True"
| "moves_membership (EvRemoveMember _) = True"
| "moves_membership (EvAnnounceEndpoint _) = True"
| "moves_membership _ = False"

definition drive :: "('c, 'r, 'd, 's, 't, 'h) driver \<Rightarrow> event \<Rightarrow> ('c, 'r, 'd, 's) inner \<Rightarrow> ('c, 'r, 'd, 's, unit) fstep" where
  "drive D ev I =
     (case feed D ev I of
        (I, Inl e) \<Rightarrow> (I, Inl (CoreFailure e))
      | (I, Inr effects) \<Rightarrow>
          let I = perform D effects I; I = (if moves_membership ev then refresh_roster D I else I)
          in (persist D I, Inr ()))"

definition remove_device :: "('c, 'r, 'd, 's, 't, 'h) driver \<Rightarrow> bytes32 \<Rightarrow> ('c, 'r, 'd, 's) inner \<Rightarrow> ('c, 'r, 'd, 's, unit) fstep" where
  "remove_device D m = drive D (EvRemoveMember m)"

text \<open>Every device is attempted; the first error is the answer.\<close>

fun remove_devices ::
  "('c, 'r, 'd, 's, 't, 'h) driver \<Rightarrow> bytes32 list \<Rightarrow> workspace_error option \<Rightarrow> ('c, 'r, 'd, 's) inner \<Rightarrow> ('c, 'r, 'd, 's, unit) fstep" where
  "remove_devices D [] first_error I = (I, case first_error of None \<Rightarrow> Inr () | Some e \<Rightarrow> Inl e)"
| "remove_devices D (m # ms) first_error I =
     (case remove_device D m I of
        (I, Inr _) \<Rightarrow> remove_devices D ms first_error I
      | (I, Inl e) \<Rightarrow> remove_devices D ms (case first_error of None \<Rightarrow> Some e | some \<Rightarrow> some) I)"

definition remove_user :: "('c, 'r, 'd, 's, 't, 'h) driver \<Rightarrow> bytes32 \<Rightarrow> ('c, 'r, 'd, 's) inner \<Rightarrow> ('c, 'r, 'd, 's, unit) fstep" where
  "remove_user D user I =
     remove_devices D (filter (cc_is_point (e_crypto (dv_env D)))
       (map dr_member (workspace_devices_of (e_loro (dv_env D)) user (in_state I)))) None I"

fun drive_all :: "('c, 'r, 'd, 's, 't, 'h) driver \<Rightarrow> event list \<Rightarrow> ('c, 'r, 'd, 's) inner \<Rightarrow> ('c, 'r, 'd, 's, unit) fstep" where
  "drive_all D [] I = (I, Inr ())"
| "drive_all D (ev # evs) I = and_then (drive D ev I) (\<lambda>_ I. drive_all D evs I)"

definition resync :: "('c, 'r, 'd, 's, 't, 'h) driver \<Rightarrow> ('c, 'r, 'd, 's) inner \<Rightarrow> ('c, 'r, 'd, 's, unit) fstep" where
  "resync D I = drive_all D (map EvResync (file_uuids D I) @ ANNOUNCED_ONCE) I"

definition leave :: "('c, 'r, 'd, 's, 't, 'h) driver \<Rightarrow> ('c, 'r, 'd, 's) inner \<Rightarrow> ('c, 'r, 'd, 's, unit) fstep" where
  "leave D I = and_then (drive D EvLeave I) (\<lambda>_ I. (fst (io (tr_leave (dv_transport D) (in_doc I)) I), Inr ()))"

definition propose ::
  "('c, 'r, 'd, 's, 't, 'h) driver \<Rightarrow> admin_action \<Rightarrow> u64 option \<Rightarrow> ('c, 'r, 'd, 's) inner \<Rightarrow> ('c, 'r, 'd, 's, bytes32) fstep" where
  "propose D action expires I =
     (let before = ps_digest ` set (proposals (capabilities (in_state I))) in
      and_then (drive D (EvPropose action expires) I) (\<lambda>_ I.
        (I, case find (\<lambda>s. ps_digest s \<notin> before) (proposals (capabilities (in_state I))) of
              Some s \<Rightarrow> Inr (ps_digest s) | None \<Rightarrow> Inl (StorageFailure ''the proposal was not recorded''))))"

definition create_file ::
  "('c, 'r, 'd, 's, 't, 'h) driver \<Rightarrow> string \<Rightarrow> string \<Rightarrow> ('c, 'r, 'd, 's) inner \<Rightarrow> ('c, 'r, 'd, 's, document_uuid) fstep" where
  "create_file D path mime_type I =
     (case io (tr_random16 (dv_transport D)) I of (I, uuid) \<Rightarrow>
        and_then (drive D (EvUpsertFile \<lparr>fe_uuid = uuid, fe_logical_path = path, fe_mime_type = mime_type, fe_asset = None\<rparr>) I)
          (\<lambda>_ I. (I, Inr uuid)))"

definition read_path :: "('c, 'r, 'd, 's, 't, 'h) driver \<Rightarrow> string \<Rightarrow> ('c, 'r, 'd, 's) inner \<Rightarrow> string facade_result" where
  "read_path D path I =
     (case resolve_path (e_loro (dv_env D)) (e_codec (dv_env D)) path (w_manifest (in_state I)) of
        None \<Rightarrow> Inl (NoSuchPath path)
      | Some doc \<Rightarrow> Inr (document_text (e_loro (dv_env D)) doc (in_state I)))"

text \<open>The calls of the core that are not events: what they return is pumped and the snapshot written.\<close>

definition core_call ::
  "('c, 'r, 'd, 's, 't, 'h) driver \<Rightarrow> (unix_seconds \<Rightarrow> ('c, 'r, 'd) workspace \<Rightarrow> ('c, 'r, 'd, 'a) wstep) \<Rightarrow> ('a \<Rightarrow> effect list)
     \<Rightarrow> ('c, 'r, 'd, 's) inner \<Rightarrow> ('c, 'r, 'd, 's, 'a) fstep" where
  "core_call D f effects_of I =
     (case io (tr_unix (dv_transport D)) I of (I, clock) \<Rightarrow>
      and_then (map_prod (\<lambda>I. I) (map_err CoreFailure) (with_state (f (clock_now clock)) I)) (\<lambda>x I.
        (persist D (perform D (effects_of x) I), Inr x)))"

definition checkpoint ::
  "('c, 'r, 'd, 's, 't, 'h) driver \<Rightarrow> string \<Rightarrow> string \<Rightarrow> ('c, 'r, 'd, 's) inner \<Rightarrow> ('c, 'r, 'd, 's, bytes32) fstep" where
  "checkpoint D name message I =
     and_then (core_call D (take_checkpoint (dv_env D) name message) fst I) (\<lambda>(_, digest) I. (I, Inr digest))"

definition facade_restore_checkpoint ::
  "('c, 'r, 'd, 's, 't, 'h) driver \<Rightarrow> bytes32 \<Rightarrow> ('c, 'r, 'd, 's) inner \<Rightarrow> ('c, 'r, 'd, 's, restore_outcome list) fstep" where
  "facade_restore_checkpoint D digest I =
     and_then (core_call D (restore_checkpoint (dv_env D) digest) fst I) (\<lambda>(_, outcomes) I. (I, Inr outcomes))"

definition facade_revert_asset ::
  "('c, 'r, 'd, 's, 't, 'h) driver \<Rightarrow> document_uuid \<Rightarrow> document_uuid \<Rightarrow> ('c, 'r, 'd, 's) inner \<Rightarrow> ('c, 'r, 'd, 's, unit) fstep" where
  "facade_revert_asset D asset content I =
     and_then (core_call D (revert_asset (dv_env D) asset content) (\<lambda>effects. effects) I) (\<lambda>_ I.
       (refresh_download_policy D I, Inr ()))"

section \<open>Invitations\<close>

definition build_invite ::
  "('c, 'r, 'd, 's, 't, 'h) driver \<Rightarrow> bytes32 \<Rightarrow> role \<Rightarrow> ('c, 'r, 'd, 's) inner \<Rightarrow> ('c, 'r, 'd, 's, 't invite) fstep" where
  "build_invite D invitee r I =
     (let T = dv_transport D; W = in_state I in
      and_then (I, map_err CoreFailure (op_log (e_beekem (dv_env D)) (w_cgka W))) (\<lambda>ops I.
      and_then (storage_io (tr_share T (if can_write r then ShareWrite else ShareRead) (in_doc I)) I) (\<lambda>doc_ticket I.
      and_then (map_prod (\<lambda>I. I) (map_err InviteFailure) (io (terms_now (tr_random16 T) (tr_unix T)) I)) (\<lambda>(nonce, not_after) I.
        (I, map_err InviteFailure (invite_sign (dv_invites D)
           \<lparr>it_domain = INVITE_DOMAIN, it_tree_id = in_workspace_key I, it_invitee = invitee, it_not_after = not_after,
            it_nonce = nonce, it_epoch = ns_epoch (w_namespace W), it_doc_ticket = doc_ticket,
            it_workspace_secret = in_secret I, it_log = ops, it_certs = certificates (capabilities W),
            it_inviter = nd_endpoint (in_node I)\<rparr> (in_signer I)))))))"

definition add_user ::
  "('c, 'r, 'd, 's, 't, 'h) driver \<Rightarrow> enrollment \<Rightarrow> role \<Rightarrow> string \<Rightarrow> ('c, 'r, 'd, 's) inner \<Rightarrow> ('c, 'r, 'd, 's, 't invite) fstep" where
  "add_user D enr r display_name I =
     and_then (I, enrollment_member_id (e_crypto (dv_env D)) enr) (\<lambda>m I.
     and_then (I, enrollment_endpoint (tr_is_endpoint (dv_transport D)) enr) (\<lambda>endpoint I.
     and_then (drive D (EvAddUser m (en_share_key enr) r display_name (Some endpoint)) I) (\<lambda>_ I.
       build_invite D (en_member enr) r I)))"

definition add_device ::
  "('c, 'r, 'd, 's, 't, 'h) driver \<Rightarrow> enrollment \<Rightarrow> bytes32 \<Rightarrow> string \<Rightarrow> ('c, 'r, 'd, 's) inner \<Rightarrow> ('c, 'r, 'd, 's, 't invite) fstep" where
  "add_device D enr user label I =
     and_then (I, enrollment_member_id (e_crypto (dv_env D)) enr) (\<lambda>m I.
     and_then (I, enrollment_endpoint (tr_is_endpoint (dv_transport D)) enr) (\<lambda>endpoint I.
     and_then (drive D (EvAddDevice m (en_share_key enr) user label (Some endpoint)) I) (\<lambda>_ I.
       let r = (case role_of (capabilities (in_state I)) user of Some r \<Rightarrow> r | None \<Rightarrow> Viewer)
       in build_invite D (en_member enr) r I)))"

end
