(* ===== verification/Attachments.thy ===== *)
theory Attachments
  imports Networked
begin

text \<open>
  Binary assets of the networked workspace (\<open>workspace.rs\<close>): attaching a local file segment by segment,
  writing one out again, and the sweep that withdraws what an interrupted attachment left. A local file is its
  reported length and its bytes; \<open>read_exact\<close> fails when the bytes end first. What is written to the target is
  returned, also when the export fails half way.
\<close>

section \<open>Attaching\<close>

text \<open>What \<open>tokio::fs\<close> answers about the local file: its reported length, and its bytes once it is opened.\<close>

record local_file =
  lf_size :: "string + u64"
  lf_bytes :: "string + bytes"

text \<open>
  The loop over the segments: \<open>want\<close> is what is left of the size, at most a segment, and the digest and the
  bytes not read yet go along.
\<close>

fun write_segments_from ::
  "('c, 'r, 'd, 's, 't, 'h) driver \<Rightarrow> document_uuid \<Rightarrow> bytes32 \<Rightarrow> u64 \<Rightarrow> u32 \<Rightarrow> u64 list \<Rightarrow> u64 \<Rightarrow> bytes
     \<Rightarrow> 'h content_digest \<Rightarrow> ('c, 'r, 'd, 's) inner \<Rightarrow> ('c, 'r, 'd, 's, 'h content_digest) fstep" where
  "write_segments_from D uuid key segments width [] remaining data digest I = (I, Inr digest)"
| "write_segments_from D uuid key segments width (index # is) remaining data digest I =
     (let want = min remaining (ucast width); n = unat want; buffer = take n data; H = e_hash (dv_env D)
      in if length data < n then (I, Inl (AssetIo ''unexpected end of file''))
         else and_then (I, map_err CoreFailure (seal_segment H (dv_aead D) key uuid index segments width buffer)) (\<lambda>sealed I.
              and_then (store_segment D (asset_part_key H (in_secret I) uuid index) sealed I) (\<lambda>_ I.
                write_segments_from D uuid key segments width is (remaining - want) (drop n data)
                  (content_digest_update (dv_hasher D) buffer digest) I)))"

definition segment_indices :: "u64 \<Rightarrow> u64 list" where
  "segment_indices segments = map of_nat [0..<unat segments]"

definition write_segments ::
  "('c, 'r, 'd, 's, 't, 'h) driver \<Rightarrow> document_uuid \<Rightarrow> bytes32 \<Rightarrow> u64 \<Rightarrow> u64 \<Rightarrow> u32 \<Rightarrow> local_file
     \<Rightarrow> ('c, 'r, 'd, 's) inner \<Rightarrow> ('c, 'r, 'd, 's, bytes32) fstep" where
  "write_segments D uuid key sz segments segment_bytes file I =
     and_then (I, map_err AssetIo (lf_bytes file)) (\<lambda>data I.
     and_then (write_segments_from D uuid key segments segment_bytes (segment_indices segments) sz data
         (content_digest_new (dv_hasher D)) I) (\<lambda>digest I.
       (I, Inr (content_digest_finish (dv_hasher D) digest))))"

definition discard_partial_asset ::
  "('c, 'r, 'd, 's, 't, 'h) driver \<Rightarrow> document_uuid \<Rightarrow> ('c, 'r, 'd, 's) inner \<Rightarrow> ('c, 'r, 'd, 's) inner" where
  "discard_partial_asset D uuid I =
     (let T = dv_transport D; H = e_hash (dv_env D);
          I = fst (io (tr_del T (in_doc I) (in_author I) (be_bytes 32 (asset_key_key H (in_secret I) uuid))) I)
      in fst (io (tr_del T (in_doc I) (in_author I) (be_bytes 24 (asset_prefix H (in_secret I) uuid))) I))"

text \<open>
  When the core refuses to record the version, the question mark returns before the two lines that clean up:
  the segments stay indexed and the intent stays noted.
\<close>

definition attach_version ::
  "('c, 'r, 'd, 's, 't, 'h) driver \<Rightarrow> document_uuid \<Rightarrow> local_file \<Rightarrow> ('c, 'r, 'd, 's) inner \<Rightarrow> ('c, 'r, 'd, 's, unit) fstep" where
  "attach_version D entry file I =
     (let E = dv_env D; segment_bytes = of_nat ASSET_SEGMENT_BYTES :: u32 in
      and_then (I, map_err AssetIo (lf_size file)) (\<lambda>sz I.
        let segments = segments_for sz segment_bytes in
        case io (tr_random16 (dv_transport D)) I of (I, content) \<Rightarrow>
        and_then (map_prod (\<lambda>I. I) (map_err CoreFailure) (with_state (seal_asset_key E content) I)) (\<lambda>(key, effects) I.
          let I = note_pending_asset D content (perform D effects I) in
          case write_segments D content key sz segments segment_bytes file I of
            (I, Inr content_hash) \<Rightarrow>
              (case io (tr_unix (dv_transport D)) I of (I, clock) \<Rightarrow>
               and_then (map_prod (\<lambda>I. I) (map_err CoreFailure) (with_state (workspace_add_asset_version E entry content
                   \<lparr>am_size = sz, am_segments = segments, am_segment_bytes = segment_bytes, am_content_hash = content_hash\<rparr>
                   (clock_now clock)) I)) (\<lambda>effects I.
                 (clear_pending_assets D [content] (refresh_download_policy D (persist D (perform D effects I))), Inr ())))
          | (I, Inl err) \<Rightarrow> (clear_pending_assets D [content] (discard_partial_asset D content I), Inl err))))"

definition attach_file ::
  "('c, 'r, 'd, 's, 't, 'h) driver \<Rightarrow> local_file \<Rightarrow> string \<Rightarrow> string \<Rightarrow> ('c, 'r, 'd, 's) inner
     \<Rightarrow> ('c, 'r, 'd, 's, document_uuid) fstep" where
  "attach_file D file logical_path mime_type I =
     (case io (tr_random16 (dv_transport D)) I of (I, uuid) \<Rightarrow>
      and_then (drive D (EvUpsertFile \<lparr>fe_uuid = uuid, fe_logical_path = logical_path, fe_mime_type = mime_type,
          fe_asset = None\<rparr>) I) (\<lambda>_ I.
        case attach_version D uuid file I of
          (I, Inr _) \<Rightarrow> (I, Inr uuid)
        | (I, Inl err) \<Rightarrow> (fst (drive D (EvDeleteFile uuid) I), Inl err)))"

section \<open>Exporting\<close>

definition facade_open_asset_key ::
  "('c, 'r, 'd, 's, 't, 'h) driver \<Rightarrow> document_uuid \<Rightarrow> ('c, 'r, 'd, 's) inner \<Rightarrow> ('c, 'r, 'd, 's, bytes32) fstep" where
  "facade_open_asset_key D asset I =
     (case fetch_indexed_bytes D (asset_key_key (e_hash (dv_env D)) (in_secret I) asset) I of
        (I, None) \<Rightarrow> (I, Inl AssetKeyUnavailable)
      | (I, Some bs) \<Rightarrow>
          and_then (I, map_err CoreFailure (decode_chunk (dv_wire D) bs)) (\<lambda>ch I.
            case with_state (open_asset_key (dv_env D) ch) I of
              (I, AkReady key) \<Rightarrow> (I, Inr key)
            | (I, AkUnreachable) \<Rightarrow> (request_repair D (RepairAssetKey asset) (epoch_of ch) I, Inl AssetKeyUnavailable)
            | (I, AkAwaitingKey) \<Rightarrow> (I, Inl AssetKeyUnavailable)
            | (I, AkCorrupt) \<Rightarrow> (I, Inl CorruptAsset)))"

text \<open>The errors of creating, writing (call by call) and flushing the target.\<close>

record target_file =
  tg_create :: "string option"
  tg_write :: "u64 \<Rightarrow> string option"
  tg_flush :: "string option"

definition io_result :: "string option \<Rightarrow> unit facade_result" where
  "io_result r = (case r of None \<Rightarrow> Inr () | Some e \<Rightarrow> Inl (AssetIo e))"

fun export_segments ::
  "('c, 'r, 'd, 's, 't, 'h) driver \<Rightarrow> target_file \<Rightarrow> document_uuid \<Rightarrow> bytes32 \<Rightarrow> asset_meta \<Rightarrow> u64 list
     \<Rightarrow> 'h content_digest \<Rightarrow> ('c, 'r, 'd, 's) inner \<times> bytes
     \<Rightarrow> (('c, 'r, 'd, 's) inner \<times> bytes, workspace_error, 'h content_digest) step" where
  "export_segments D target content key meta [] digest S = (S, Inr digest)"
| "export_segments D target content key meta (index # is) digest (I, out) =
     (case fetch_indexed_bytes D (asset_part_key (e_hash (dv_env D)) (in_secret I) content index) I of
        (I, None) \<Rightarrow> ((I, out), Inl (MissingSegment index))
      | (I, Some sealed) \<Rightarrow>
          and_then ((I, out), map_err (\<lambda>_. CorruptAsset) (open_segment (e_hash (dv_env D)) (dv_aead D) key content index
              (am_segments meta) (am_segment_bytes meta) (payload_len meta index) sealed)) (\<lambda>plaintext S.
          and_then (S, io_result (tg_write target index)) (\<lambda>_ (I, out).
            export_segments D target content key meta is (content_digest_update (dv_hasher D) plaintext digest)
              (I, out @ plaintext))))"

definition export_asset_version ::
  "('c, 'r, 'd, 's, 't, 'h) driver \<Rightarrow> asset_version \<Rightarrow> target_file \<Rightarrow> ('c, 'r, 'd, 's) inner
     \<Rightarrow> (('c, 'r, 'd, 's) inner \<times> bytes, workspace_error, unit) step" where
  "export_asset_version D version target I =
     (let meta = av_meta version; content = av_content version in
      case facade_open_asset_key D content I of
        (I, Inl e) \<Rightarrow> ((I, []), Inl e)
      | (I, Inr key) \<Rightarrow>
          and_then ((I, []), io_result (tg_create target)) (\<lambda>_ S.
          and_then (export_segments D target content key meta (segment_indices (am_segments meta))
              (content_digest_new (dv_hasher D)) S) (\<lambda>digest S.
          and_then (S, io_result (tg_flush target)) (\<lambda>_ S.
            (S, if content_digest_finish (dv_hasher D) digest = am_content_hash meta then Inr () else Inl CorruptAsset)))))"

definition export_asset ::
  "('c, 'r, 'd, 's, 't, 'h) driver \<Rightarrow> document_uuid \<Rightarrow> target_file \<Rightarrow> ('c, 'r, 'd, 's) inner
     \<Rightarrow> (('c, 'r, 'd, 's) inner \<times> bytes, workspace_error, unit) step" where
  "export_asset D asset target I =
     (case max_by_key precedence (manifest_asset_versions (e_loro (dv_env D)) (e_codec (dv_env D)) asset (w_manifest (in_state I))) of
        None \<Rightarrow> ((I, []), Inl NotAnAsset)
      | Some current \<Rightarrow> export_asset_version D current target I)"

section \<open>The sweep at startup\<close>

definition sweep_orphaned_assets :: "('c, 'r, 'd, 's, 't, 'h) driver \<Rightarrow> ('c, 'r, 'd, 's) inner \<Rightarrow> ('c, 'r, 'd, 's) inner" where
  "sweep_orphaned_assets D I =
     (case nd_store (in_node I) of
        None \<Rightarrow> I
      | Some F \<Rightarrow> (case load_pending_assets (dv_store D) F of
            Inl _ \<Rightarrow> I
          | Inr pending \<Rightarrow>
              let mine = sorted_list_of_set (snd ` {p \<in> pending. fst p = in_workspace_key I})
              in if mine = [] then I else clear_pending_assets D mine (fold (discard_partial_asset D) mine I)))"

end
