(* ===== verification/Lifecycle.thy ===== *)
theory Lifecycle
  imports Attachments
begin

text \<open>
  How a networked workspace comes to be and goes (\<open>workspace.rs\<close>): founding, joining by invitation, reopening
  from a snapshot, listing and deleting. Before there is a workspace the state is the node and the outside
  world; what a failed attempt changed of them stays changed.
\<close>

type_synonym ('s, 'a) outside = "(node \<times> 's, workspace_error, 'a) step"

definition outside_io :: "(string \<Rightarrow> workspace_error) \<Rightarrow> ('s \<Rightarrow> 's \<times> (string + 'a)) \<Rightarrow> node \<times> 's \<Rightarrow> ('s, 'a) outside" where
  "outside_io wrap f = (\<lambda>(N, s). case f s of (s, r) \<Rightarrow> ((N, s), map_err wrap r))"

text \<open>The node and the world of a running workspace.\<close>

definition outside_of :: "('c, 'r, 'd, 's) inner \<Rightarrow> node \<times> 's" where
  "outside_of I = (in_node I, in_world I)"

text \<open>The \<open>Inner\<close> that \<open>assemble\<close> builds.\<close>

definition new_inner ::
  "('c, 'r, 'd) workspace \<Rightarrow> bytes32 \<Rightarrow> bytes32 \<Rightarrow> workspace_secret \<Rightarrow> bytes32 \<Rightarrow> bytes32 \<Rightarrow> node \<Rightarrow> 's \<Rightarrow> ('c, 'r, 'd, 's) inner" where
  "new_inner W doc author secret signer tree N s =
     \<lparr>in_state = W, in_doc = doc, in_data_task = None, in_author = author, in_secret = secret,
      in_signer = signer, in_seen = Map.empty, in_neighbor_cooldown = cooldown_new NEIGHBOR_COOLDOWN,
      in_repair_cooldown = cooldown_new REPAIR_COOLDOWN, in_repair_answer_cooldown = cooldown_new REPAIR_COOLDOWN,
      in_eviction_cooldown = cooldown_new EVICTION_COOLDOWN, in_republish_wanted = False,
      in_workspace_key = tree, in_node = N, in_world = s\<rparr>"

definition assemble ::
  "('c, 'r, 'd, 's, 't, 'h) driver \<Rightarrow> ('c, 'r, 'd) workspace \<Rightarrow> workspace_secret \<Rightarrow> bytes32 \<Rightarrow> bytes32 \<Rightarrow> bytes32 \<Rightarrow> bytes32 list
     \<Rightarrow> node \<times> 's \<Rightarrow> ('s, ('c, 'r, 'd, 's) inner) outside" where
  "assemble D W secret doc tree signer bootstrap S =
     (let T = dv_transport D; seed = author_seed (e_hash (dv_env D)) secret (me W); author = tr_author_id T seed in
      and_then (outside_io StorageFailure (tr_author_import T seed) S) (\<lambda>_ (N, s).
        let N = N\<lparr>nd_roster := fold (add_bootstrap tree) bootstrap (nd_roster N)\<rparr> in
        and_then (outside_io GossipFailure (tr_subscribe_topic T tree bootstrap) (N, s)) (\<lambda>_ (N, s).
          let I = new_inner W doc author secret signer tree N s
          in case feed D (EvAnnounceAuthor author) I of (I, claimed) \<Rightarrow>
             case feed D (EvAnnounceEndpoint (nd_endpoint N)) I of (I, announced) \<Rightarrow>
               let I = perform D (report_rejection claimed @ report_rejection announced) I;
                   I = sweep_orphaned_assets D (refresh_download_policy D (refresh_roster D I))
               in case spawn_data_loop D I of
                    (I, Inl e) \<Rightarrow> (outside_of I, Inl e)
                  | (I, Inr _) \<Rightarrow> let I = persist D I in (outside_of I, Inr I))))"

text \<open>An operation on a workspace that exists by now.\<close>

definition inside :: "('c, 'r, 'd, 's, 'a) fstep \<Rightarrow> ('s, ('c, 'r, 'd, 's) inner) outside" where
  "inside r = (case r of (I, Inl e) \<Rightarrow> (outside_of I, Inl e) | (I, Inr _) \<Rightarrow> (outside_of I, Inr I))"

definition create_with_quorum ::
  "('c, 'r, 'd, 's, 't, 'h) driver \<Rightarrow> identity \<Rightarrow> workspace_info \<Rightarrow> u32 \<Rightarrow> 'r \<Rightarrow> node \<times> 's
     \<Rightarrow> ('s, ('c, 'r, 'd, 's) inner) outside" where
  "create_with_quorum D who info threshold csprng S =
     (let E = dv_env D; signer = id_signer who; tree = cc_verifying_key (e_crypto E) signer in
      and_then (S, map_err CoreFailure (controller_create (e_beekem E) (e_crypto E) tree signer csprng)) (\<lambda>K S.
        case e_fill32 E (k_rng K) of (csprng, secret) \<Rightarrow>
        and_then (outside_io StorageFailure (tr_create (dv_transport D)) S) (\<lambda>doc S.
        and_then (S, map_err CoreFailure (found E (K\<lparr>k_rng := csprng\<rparr>) secret threshold)) (\<lambda>W S.
        and_then (assemble D W secret doc tree signer [] S) (\<lambda>I _. inside (drive D (EvSetInfo info) I))))))"

definition create ::
  "('c, 'r, 'd, 's, 't, 'h) driver \<Rightarrow> identity \<Rightarrow> workspace_info \<Rightarrow> 'r \<Rightarrow> node \<times> 's
     \<Rightarrow> ('s, ('c, 'r, 'd, 's) inner) outside" where
  "create D who info = create_with_quorum D who info DEFAULT_THRESHOLD"

definition sync_with :: "('c, 'r, 'd, 's, 't, 'h) driver \<Rightarrow> bytes32 \<Rightarrow> ('c, 'r, 'd, 's) inner \<Rightarrow> ('c, 'r, 'd, 's, unit) fstep" where
  "sync_with D peer I = storage_io (tr_start_sync (dv_transport D) (in_doc I) peer) I"

definition join ::
  "('c, 'r, 'd, 's, 't, 'h) driver \<Rightarrow> 't invite \<Rightarrow> identity \<Rightarrow> 'r \<Rightarrow> node \<times> 's
     \<Rightarrow> ('s, ('c, 'r, 'd, 's) inner) outside" where
  "join D invite who csprng S =
     (let E = dv_env D; T = dv_transport D; terms = sg_payload invite; tree = it_tree_id terms in
      case S of (N, s) \<Rightarrow> (case tr_unix T s of (s, clock) \<Rightarrow>
      and_then ((N, s), map_err InviteFailure (unix_now clock)) (\<lambda>now S.
      and_then (S, map_err InviteFailure (invite_verify (dv_invites D) (e_crypto E)
          (identity_member_id (e_crypto E) who) now invite)) (\<lambda>_ (N, s).
        case claim_invite (dv_store D) tree (it_nonce terms) N of
          (N, False) \<Rightarrow> ((N, s), Inl (InviteFailure InviteReplayed))
        | (N, True) \<Rightarrow>
            if \<not> cc_is_point (e_crypto E) tree then ((N, s), Inl (InviteFailure InviteMalformedTreeId))
            else and_then ((N, s), map_err NotAdmitted (controller_join (e_beekem E) (e_crypto E) tree (id_signer who)
                (id_share_secret who) (it_log terms) (it_certs terms) csprng)) (\<lambda>K S.
              and_then (outside_io StorageFailure (tr_import T (it_doc_ticket terms)) S) (\<lambda>doc S.
              and_then (assemble D (joined (e_loro E) K (it_workspace_secret terms) (it_epoch terms))
                  (it_workspace_secret terms) doc tree (id_signer who) [it_inviter terms] S) (\<lambda>I _.
                inside (sync_with D (it_inviter terms) I))))))))"

text \<open>\<open>WorkspaceState::import\<close>, with the generator the restored controller will draw from.\<close>

definition import_state :: "('c, 'r, 'd, 's, 't, 'h) driver \<Rightarrow> bytes \<Rightarrow> 'r \<Rightarrow> ('c, 'r, 'd) workspace core_result" where
  "import_state D bs csprng = (case serialized (dv_decode_snapshot D bs) of
     Inl e \<Rightarrow> Inl e | Inr ss \<Rightarrow> workspace_from_snapshot (dv_env D) ss csprng)"

definition open_workspace ::
  "('c, 'r, 'd, 's, 't, 'h) driver \<Rightarrow> bytes32 \<Rightarrow> identity \<Rightarrow> 'r \<Rightarrow> node \<times> 's
     \<Rightarrow> ('s, ('c, 'r, 'd, 's) inner) outside" where
  "open_workspace D tree who csprng S =
     (let E = dv_env D; T = dv_transport D in
      case nd_store (fst S) of
        None \<Rightarrow> (S, Inl NotPersistent)
      | Some F \<Rightarrow>
          and_then (S, load_workspace (dv_store D) tree F) (\<lambda>loaded S.
          and_then (S, case loaded of None \<Rightarrow> Inl (NoSuchWorkspace tree) | Some rec \<Rightarrow> Inr rec) (\<lambda>rec S.
          and_then (S, map_err CoreFailure (import_state D (wr_core rec) csprng)) (\<lambda>W S.
            if me W \<noteq> identity_member_id (e_crypto E) who then (S, Inl IdentityMismatch)
            else if tree_id (e_beekem E) (w_cgka W) \<noteq> tree then (S, Inl (NoSuchWorkspace tree))
            else and_then (outside_io StorageFailure (tr_open T (wr_namespace rec)) S) (\<lambda>opened S.
              and_then (S, case opened of None \<Rightarrow> Inl (StorageFailure ''the docs store does not hold it'') | Some doc \<Rightarrow> Inr doc) (\<lambda>doc S.
                let peers = filter (tr_is_endpoint T) (filter (\<lambda>e. e \<noteq> nd_endpoint (fst S)) (workspace_roster (e_loro E) W)) in
                and_then (assemble D W (w_secret W) doc tree (id_signer who) peers S) (\<lambda>I _.
                  let I = fold (\<lambda>peer I. fst (sync_with D peer I)) peers I in (outside_of I, Inr I))))))))"

definition delete ::
  "('c, 'r, 'd, 's, 't, 'h) driver \<Rightarrow> ('c, 'r, 'd, 's) inner \<Rightarrow> ('c, 'r, 'd, 's, unit) fstep" where
  "delete D I =
     and_then (storage_io (tr_drop_doc (dv_transport D) (in_doc I)) I) (\<lambda>_ I.
       let N = (in_node I)\<lparr>nd_roster := forget (in_workspace_key I) (nd_roster (in_node I))\<rparr> in
       case nd_store N of
         None \<Rightarrow> (I\<lparr>in_node := N\<rparr>, Inr ())
       | Some F \<Rightarrow> (case remove_workspace (in_workspace_key I) F of
             (F, r) \<Rightarrow> (I\<lparr>in_node := N\<lparr>nd_store := Some F\<rparr>\<rparr>, r)))"

record workspace_summary =
  sm_tree_id :: bytes32
  sm_info :: workspace_info
  sm_namespace :: bytes32

definition summary_of :: "('c, 'r, 'd, 's, 't, 'h) driver \<Rightarrow> 'r \<Rightarrow> fs \<Rightarrow> bytes32 \<Rightarrow> workspace_summary option" where
  "summary_of D csprng F key =
     (case load_workspace (dv_store D) key F of
        Inr (Some rec) \<Rightarrow> (case import_state D (wr_core rec) csprng of
            Inr W \<Rightarrow> Some \<lparr>sm_tree_id = tree_id (e_beekem (dv_env D)) (w_cgka W),
                           sm_info = manifest_info (e_loro (dv_env D)) (w_manifest W), sm_namespace = wr_namespace rec\<rparr>
          | Inl _ \<Rightarrow> None)
      | _ \<Rightarrow> None)"

definition list_stored :: "('c, 'r, 'd, 's, 't, 'h) driver \<Rightarrow> 'r \<Rightarrow> node \<Rightarrow> workspace_summary list facade_result" where
  "list_stored D csprng N =
     (case nd_store N of
        None \<Rightarrow> Inl NotPersistent
      | Some F \<Rightarrow> (case list_workspaces F of
            Inl e \<Rightarrow> Inl e | Inr trees \<Rightarrow> Inr (List.map_filter (summary_of D csprng F) trees)))"

end
