(* ===== verification/Application.thy ===== *)
theory Application
  imports Lifecycle
begin

text \<open>
  The rest of what \<open>workspace.rs\<close> offers an application: the calls that are one event each, and the views of
  people, documents and the index.
\<close>

section \<open>Calls that are one event\<close>

definition approve :: "('c, 'r, 'd, 's, 't, 'h) driver \<Rightarrow> bytes32 \<Rightarrow> ('c, 'r, 'd, 's) inner \<Rightarrow> ('c, 'r, 'd, 's, unit) fstep" where
  "approve D proposal = drive D (EvApprove proposal)"

definition facade_set_role :: "('c, 'r, 'd, 's, 't, 'h) driver \<Rightarrow> bytes32 \<Rightarrow> role \<Rightarrow> ('c, 'r, 'd, 's) inner \<Rightarrow> ('c, 'r, 'd, 's, unit) fstep" where
  "facade_set_role D user r = drive D (EvSetRole user r)"

definition set_display_name :: "('c, 'r, 'd, 's, 't, 'h) driver \<Rightarrow> string \<Rightarrow> ('c, 'r, 'd, 's) inner \<Rightarrow> ('c, 'r, 'd, 's, unit) fstep" where
  "set_display_name D name = drive D (EvSetDisplayName name)"

definition facade_set_info :: "('c, 'r, 'd, 's, 't, 'h) driver \<Rightarrow> workspace_info \<Rightarrow> ('c, 'r, 'd, 's) inner \<Rightarrow> ('c, 'r, 'd, 's, unit) fstep" where
  "facade_set_info D info = drive D (EvSetInfo info)"

definition facade_upsert_file :: "('c, 'r, 'd, 's, 't, 'h) driver \<Rightarrow> file_entry \<Rightarrow> ('c, 'r, 'd, 's) inner \<Rightarrow> ('c, 'r, 'd, 's, unit) fstep" where
  "facade_upsert_file D entry = drive D (EvUpsertFile entry)"

definition facade_revert :: "('c, 'r, 'd, 's, 't, 'h) driver \<Rightarrow> document_uuid \<Rightarrow> version_id \<Rightarrow> ('c, 'r, 'd, 's) inner \<Rightarrow> ('c, 'r, 'd, 's, unit) fstep" where
  "facade_revert D doc version = drive D (EvRevertDocument doc version)"

definition facade_append :: "('c, 'r, 'd, 's, 't, 'h) driver \<Rightarrow> document_uuid \<Rightarrow> string \<Rightarrow> ('c, 'r, 'd, 's) inner \<Rightarrow> ('c, 'r, 'd, 's, unit) fstep" where
  "facade_append D doc txt = drive D (EvLocalEdit doc txt)"

definition facade_write :: "('c, 'r, 'd, 's, 't, 'h) driver \<Rightarrow> document_uuid \<Rightarrow> string \<Rightarrow> ('c, 'r, 'd, 's) inner \<Rightarrow> ('c, 'r, 'd, 's, unit) fstep" where
  "facade_write D doc txt = drive D (EvWriteFile doc txt)"

definition facade_insert :: "('c, 'r, 'd, 's, 't, 'h) driver \<Rightarrow> document_uuid \<Rightarrow> nat \<Rightarrow> string \<Rightarrow> ('c, 'r, 'd, 's) inner \<Rightarrow> ('c, 'r, 'd, 's, unit) fstep" where
  "facade_insert D doc pos txt = drive D (EvInsertText doc pos txt)"

definition facade_remove :: "('c, 'r, 'd, 's, 't, 'h) driver \<Rightarrow> document_uuid \<Rightarrow> nat \<Rightarrow> nat \<Rightarrow> ('c, 'r, 'd, 's) inner \<Rightarrow> ('c, 'r, 'd, 's, unit) fstep" where
  "facade_remove D doc pos len = drive D (EvRemoveText doc pos len)"

definition facade_rename :: "('c, 'r, 'd, 's, 't, 'h) driver \<Rightarrow> document_uuid \<Rightarrow> string \<Rightarrow> ('c, 'r, 'd, 's) inner \<Rightarrow> ('c, 'r, 'd, 's, unit) fstep" where
  "facade_rename D doc path = drive D (EvRenameFile doc path)"

definition facade_delete_file :: "('c, 'r, 'd, 's, 't, 'h) driver \<Rightarrow> document_uuid \<Rightarrow> ('c, 'r, 'd, 's) inner \<Rightarrow> ('c, 'r, 'd, 's, unit) fstep" where
  "facade_delete_file D doc = drive D (EvDeleteFile doc)"

definition facade_rotate :: "('c, 'r, 'd, 's, 't, 'h) driver \<Rightarrow> ('c, 'r, 'd, 's) inner \<Rightarrow> ('c, 'r, 'd, 's, unit) fstep" where
  "facade_rotate D = drive D EvRotate"

definition ingest :: "('c, 'r, 'd, 's, 't, 'h) driver \<Rightarrow> ('c, 'r, 'd, 's) inner \<Rightarrow> ('c, 'r, 'd, 's) inner" where
  "ingest D = ingest_all D"

section \<open>Views\<close>

text \<open>Names come from the manifest, roles and devices from the certificates.\<close>

record facade_user =
  us_id :: bytes32
  us_display_name :: string
  us_devices :: "device_record list"
  us_role :: "role option"

definition facade_users :: "('c, 'r, 'd, 's, 't, 'h) driver \<Rightarrow> ('c, 'r, 'd, 's) inner \<Rightarrow> facade_user list" where
  "facade_users D I = map (\<lambda>record.
       \<lparr>us_id = ur_id record, us_display_name = ur_display_name record,
        us_devices = workspace_devices_of (e_loro (dv_env D)) (ur_id record) (in_state I),
        us_role = role_of (capabilities (in_state I)) (ur_id record)\<rparr>)
     (users (e_loro (dv_env D)) (w_manifest (in_state I)))"

definition facade_user_named :: "('c, 'r, 'd, 's, 't, 'h) driver \<Rightarrow> bytes32 \<Rightarrow> ('c, 'r, 'd, 's) inner \<Rightarrow> facade_user option" where
  "facade_user_named D user I = find (\<lambda>u. us_id u = user) (facade_users D I)"

definition facade_me :: "('c, 'r, 'd, 's, 't, 'h) driver \<Rightarrow> ('c, 'r, 'd, 's) inner \<Rightarrow> facade_user option" where
  "facade_me D I = Option.bind (user_of (capabilities (in_state I)) (me (in_state I))) (\<lambda>user. facade_user_named D user I)"

definition read_at :: "('c, 'r, 'd, 's, 't, 'h) driver \<Rightarrow> document_uuid \<Rightarrow> version_id \<Rightarrow> ('c, 'r, 'd, 's) inner \<Rightarrow> string facade_result" where
  "read_at D doc version I = map_err CoreFailure (document_text_at (e_loro (dv_env D)) doc version (in_state I))"

text \<open>How many entries the index has for the documents and the manifest, and how many of them are here.\<close>

fun count_local :: "('c, 'r, 'd, 's, 't, 'h) driver \<Rightarrow> index_entry list \<Rightarrow> nat \<times> nat \<Rightarrow> ('c, 'r, 'd, 's) inner \<Rightarrow> ('c, 'r, 'd, 's) inner \<times> nat \<times> nat" where
  "count_local D [] counts I = (I, counts)"
| "count_local D (entry # es) (seen, here) I =
     (case local_bytes D (ie_hash entry) I of (I, bs) \<Rightarrow>
        count_local D es (seen + 1, if bs = None then here else here + 1) I)"

fun count_keys :: "('c, 'r, 'd, 's, 't, 'h) driver \<Rightarrow> bytes32 list \<Rightarrow> nat \<times> nat \<Rightarrow> ('c, 'r, 'd, 's) inner \<Rightarrow> ('c, 'r, 'd, 's) inner \<times> nat \<times> nat" where
  "count_keys D [] counts I = (I, counts)"
| "count_keys D (key # ks) counts I =
     (case io (tr_get_many (dv_transport D) (in_doc I) key) I of
        (I, Inl _) \<Rightarrow> count_keys D ks counts I
      | (I, Inr entries) \<Rightarrow> (case count_local D entries counts I of (I, counts) \<Rightarrow> count_keys D ks counts I))"

definition index_status :: "('c, 'r, 'd, 's, 't, 'h) driver \<Rightarrow> ('c, 'r, 'd, 's) inner \<Rightarrow> ('c, 'r, 'd, 's) inner \<times> nat \<times> nat" where
  "index_status D I =
     count_keys D (map (storage_key (e_hash (dv_env D)) (in_secret I)) (file_uuids D I)
       @ [manifest_key (e_hash (dv_env D)) (in_secret I)]) (0, 0) I"

end
