(* ===== verification/Driver_Depth.thy ===== *)
theory Driver_Depth
  imports Networked Workspace_Effects
begin

text \<open>
  The nesting of the effect pump. Every effect has a rank, and what is pumped while it is performed has a lower
  one: an eviction rotates the namespace, a rotation adopts it, an adoption republishes, and republishing and
  answering a repair only store and broadcast. So four levels are enough, whatever the transport answers.
\<close>

fun effect_rank :: "effect \<Rightarrow> nat" where
  "effect_rank (EvictUncertified _) = 3"
| "effect_rank (RotateNamespace _) = 2"
| "effect_rank (AdoptNamespace _ _) = 1"
| "effect_rank (ResealAssetKey _ _) = 1"
| "effect_rank ManifestUpdated = 1"
| "effect_rank _ = 0"

definition ranked :: "nat \<Rightarrow> effect list \<Rightarrow> bool" where
  "ranked n effects \<longleftrightarrow> (\<forall>e \<in> set effects. effect_rank e < n)"

lemma ranked_simps [simp]:
  "ranked n []" "ranked n (e # effects) = (effect_rank e < n \<and> ranked n effects)"
  "ranked n (effects @ effects') = (ranked n effects \<and> ranked n effects')"
  by (auto simp: ranked_def)

lemma ranked_mono: "ranked n effects \<Longrightarrow> n \<le> m \<Longrightarrow> ranked m effects"
  by (auto simp: ranked_def)

lemma ranked_ops: "ranked (Suc n) (ops_then ops e) = (effect_rank e < Suc n)"
  by (auto simp: ranked_def ops_then_def broadcast_def)

section \<open>The ranks of what events return\<close>

lemma rank_removal: "emits (ranked 3) (handle E now (EvRemoveMember m) W)"
  unfolding handle.simps on_remove_member_def perform_removal_def Let_def
  by (intro emits_bind) (simp split: option.split)

lemma rank_minted: "emits (ranked 2) (handle E now (EvNamespaceMinted n ticket) W)"
  unfolding handle.simps on_namespace_minted_def
  by (auto intro!: emits_bind simp: ranked_ops [of 1, unfolded Suc_1])

lemma rank_shapes:
  "stores_manifest effects \<Longrightarrow> ranked (Suc 0) effects" "stores_chunk effects \<Longrightarrow> ranked (Suc 0) effects"
  "publishes_namespace effects \<Longrightarrow> ranked (Suc 0) effects"
  by (auto simp: stores_manifest_def stores_chunk_def publishes_namespace_def ranked_ops)

lemma rank_published:
  "emits (ranked (Suc 0)) (publish_keyed E doc keying extent W)"
  "emits (ranked (Suc 0)) (publish_manifest E keying W)"
  "emits (ranked (Suc 0)) (republish_namespace E keying W)"
  by (rule emits_mono [OF publish_keyed_shape], erule rank_shapes, rule emits_mono [OF publish_manifest_shape],
      erule rank_shapes, rule emits_mono [OF republish_namespace_shape], erule rank_shapes)

lemma rank_resync: "emits (ranked (Suc 0)) (handle E now (EvResync doc) W)"
  unfolding handle.simps on_resync_def
  by (auto intro!: emits_bind rank_published split: prod.split bool.split)

lemma rank_announced: "ev \<in> set ANNOUNCED_ONCE \<Longrightarrow> emits (ranked (Suc 0)) (handle E now ev W)"
  by (auto simp: ANNOUNCED_ONCE_def rank_published)

lemma rank_asset_key: "emits (ranked (Suc 0)) (publish_asset_key E asset key keying W)"
  unfolding publish_asset_key_def by (auto intro!: emits_bind simp: ranked_ops)

lemma rank_reseal: "emits (ranked (Suc 0)) (reseal_asset_key E requester asset ch W)"
proof -
  have "emits (ranked (Suc 0)) (and_then (publish_asset_key E asset key Fresh V) (\<lambda>effects W. (f effects W, Inr effects)))" for key V f
    by (rule emits_bind_effects [OF rank_asset_key]) simp
  then show ?thesis
    unfolding reseal_asset_key_def by (auto intro!: emits_bind split: prod.split asset_key_verdict.split)
qed

lemma rank_arrived: "emits (ranked (Suc 0)) (handle E now (EvChunkArrived doc ch) W)"
  using drain_emits_each [of "\<lambda>e. effect_rank e < Suc 0" E]
  by (simp add: on_chunk_arrived_def ranked_def [abs_def])

lemma emits_report: "emits (ranked n) r \<Longrightarrow> ranked n (report_rejection (snd r))"
  by (cases r; cases "snd r") (auto simp: report_rejection_def)

lemma feed_report: "(\<And>now W. emits (ranked n) (handle (dv_env D) now ev W)) \<Longrightarrow> ranked n (report_rejection (snd (feed D ev I)))"
  unfolding feed_def with_state_def
  by (auto split: prod.split) (metis emits_report snd_conv)

section \<open>Enough nesting\<close>

text \<open>Two computations that both answer, and answer the same.\<close>

definition both :: "'a option \<Rightarrow> 'a option \<Rightarrow> bool" where
  "both x y \<longleftrightarrow> (\<exists>z. x = Some z \<and> y = Some z)"

lemma both_Some [simp]: "both (Some x) (Some y) \<longleftrightarrow> x = y"
  by (auto simp: both_def)

lemma both_bind: "both x y \<Longrightarrow> (\<And>z. both (f z) (g z)) \<Longrightarrow> both (Option.bind x f) (Option.bind y g)"
  by (auto simp: both_def)

lemma both_map: "both x y \<Longrightarrow> both (map_option f x) (map_option f y)"
  by (auto simp: both_def)

text \<open>Two pumps that do so on lists below a rank.\<close>

definition agree :: "nat \<Rightarrow> ('c, 'r, 'd, 's) pump \<Rightarrow> ('c, 'r, 'd, 's) pump \<Rightarrow> bool" where
  "agree n p q \<longleftrightarrow> (\<forall>effects I. ranked n effects \<longrightarrow> both (p effects I) (q effects I))"

lemma agreeD: "agree n p q \<Longrightarrow> ranked n effects \<Longrightarrow> both (p effects I) (q effects I)"
  by (simp add: agree_def)

text \<open>A step of the core whose effects are then pumped.\<close>

lemma pumped_agree:
  assumes "agree n p q" and "ranked n (report_rejection (snd r))"
  shows "both (case r of (I, x) \<Rightarrow> p (report_rejection x) I) (case r of (I, x) \<Rightarrow> q (report_rejection x) I)"
  using agreeD [OF assms, of "fst r"] by (cases r) simp

lemma feed_all_agree:
  assumes "agree (Suc 0) p q" and "\<And>ev now W. ev \<in> set evs \<Longrightarrow> emits (ranked (Suc 0)) (handle (dv_env D) now ev W)"
  shows "both (feed_all D p evs I) (feed_all D q evs I)"
  using assms(2)
proof (induction evs arbitrary: I)
  case (Cons ev evs)
  have "ranked (Suc 0) (report_rejection (snd (feed D ev I)))" by (intro feed_report Cons.prems) simp
  from agreeD [OF assms(1) this] Cons show ?case by (auto intro!: both_bind split: prod.split)
qed simp

lemma republish_agree: "agree (Suc 0) p q \<Longrightarrow> both (republish D p I) (republish D q I)"
  unfolding republish_def Let_def
  by (intro both_map feed_all_agree) (auto simp del: handle.simps intro: rank_resync rank_announced)

lemma evict_agree:
  assumes "agree 3 p q"
  shows "both (evict_uncertified D p m I) (evict_uncertified D q m I)"
proof -
  note pumped_agree [OF assms feed_report [OF rank_removal], of D m]
  then show ?thesis
    unfolding evict_uncertified_def
    by (cases "claim_slot D in_eviction_cooldown (\<lambda>c. in_eviction_cooldown_update (\<lambda>_. c)) m I") (simp split: bool.split)
qed

lemma mint_agree:
  assumes "agree 2 p q"
  shows "both (mint_namespace D p n I) (mint_namespace D q n I)"
proof -
  have "both (case feed D (EvNamespaceMinted n ticket) I of (I, x) \<Rightarrow> if report_rejection x = [] then Some I else p (report_rejection x) I)
      (case feed D (EvNamespaceMinted n ticket) I of (I, x) \<Rightarrow> if report_rejection x = [] then Some I else q (report_rejection x) I)"
    for I ticket
    using pumped_agree [OF assms feed_report [OF rank_minted], of D n ticket I]
    by (cases "feed D (EvNamespaceMinted n ticket) I") simp
  then show ?thesis
    unfolding mint_namespace_def Let_def by (auto split: prod.split sum.split option.split)
qed

lemma reseal_agree:
  assumes "agree (Suc 0) p q"
  shows "both (answer_asset_key_repair D p requester asset I) (answer_asset_key_repair D q requester asset I)"
proof -
  have "ranked (Suc 0) (report_rejection (snd (with_state (reseal_asset_key (dv_env D) requester asset ch) I)))" for ch I
    using emits_report [OF rank_reseal, of "dv_env D" requester asset ch "in_state I"]
    by (auto simp: with_state_def split: prod.split)
  note pumped_agree [OF assms this]
  then show ?thesis unfolding answer_asset_key_repair_def by (auto split: prod.split option.split sum.split)
qed

lemma adopt_agree: "agree (Suc 0) p q \<Longrightarrow> both (adopt_namespace D p ticket w I) (adopt_namespace D q ticket w I)"
  unfolding adopt_namespace_def Let_def
  by (auto simp: republish_agree split: prod.split sum.split option.split)

lemma apply_effect_agree: "agree (effect_rank e) p q \<Longrightarrow> both (apply_effect D p e I) (apply_effect D q e I)"
  by (cases e) (simp_all add: evict_agree mint_agree adopt_agree reseal_agree)

lemma apply_effects_agree: "k \<le> n \<Longrightarrow> agree k (apply_effects D n) (apply_effects D k)"
proof (induction k arbitrary: n)
  case 0
  show ?case by (cases n) (auto simp: agree_def ranked_def)
next
  case (Suc k)
  then obtain n' where n: "n = Suc n'" "k \<le> n'" by (cases n) auto
  have "both (apply_each (apply_effect D (apply_effects D n')) effects I) (apply_each (apply_effect D (apply_effects D k)) effects I)"
    if "ranked (Suc k) effects" for effects I
    using that
  proof (induction effects arbitrary: I)
    case (Cons e effects)
    from Cons.prems Suc.IH [OF n(2)] have "agree (effect_rank e) (apply_effects D n') (apply_effects D k)"
      using ranked_mono [of "effect_rank e" _ k] by (auto simp: agree_def)
    with Cons show ?case by (auto intro!: both_bind apply_effect_agree)
  qed simp
  then show ?case by (simp add: agree_def n)
qed

lemma ranked_PUMP_DEPTH: "ranked PUMP_DEPTH effects"
proof -
  have "effect_rank e < 4" for e by (cases e) simp_all
  then show ?thesis by (simp add: ranked_def PUMP_DEPTH_def)
qed

lemma perform_enough: "PUMP_DEPTH \<le> n \<Longrightarrow> apply_effects D n effects I = Some (perform D effects I)"
  using agreeD [OF apply_effects_agree [of PUMP_DEPTH n D] ranked_PUMP_DEPTH, of effects I]
  by (auto simp: perform_def both_def)

lemmas perform_total = perform_enough [OF order_refl]

lemma republish_total: "republish D (apply_effects D PUMP_DEPTH) I \<noteq> None"
proof -
  have "agree (Suc 0) (apply_effects D PUMP_DEPTH) (apply_effects D PUMP_DEPTH)"
    by (simp add: agree_def perform_total)
  from republish_agree [OF this, of D I] show ?thesis by (auto simp: both_def)
qed

text \<open>
  C28. The pump ends: however many effects it is given and whatever the transport answers, four levels of nesting
  are enough, and more change nothing.
\<close>

theorem pump_terminates: "apply_effects D (4 + extra) effects I = Some (perform D effects I)"
  using perform_enough [of "4 + extra" D effects I] by (simp add: PUMP_DEPTH_def)

end
