(* ===== verification/Driver_Relations.thy ===== *)
theory Driver_Relations
  imports Application Driver_Depth Workspace_Invariants
begin

text \<open>
  What the networked workspace can do to its state, once and for all: \<open>driver_relation\<close> is the contract of a
  relation between states that allows the elementary changes (a step of the core, a call of the transport, the
  caches, the node's roster and files), and shows that every operation then keeps it.
\<close>

section \<open>Steps\<close>

text \<open>
  Everything that happens to a running workspace: arrivals over gossip and from the index, turns of the
  republish loop, and the calls of the application, successful or not.
\<close>

inductive networked_step :: "('c, 'r, 'd, 's, 't, 'h) driver \<Rightarrow> ('c, 'r, 'd, 's) inner \<Rightarrow> ('c, 'r, 'd, 's) inner \<Rightarrow> bool" for D where
  gossip: "networked_step D I (control_event D ev I)"
| live: "networked_step D I (data_event D lev I)"
| ingest: "networked_step D I (ingest_all D I)"
| republishing: "networked_step D I (republish_turn D I)"
| driven: "networked_step D I (fst (drive D cev I))"
| user_removed: "networked_step D I (fst (remove_user D user I))"
| resynced: "networked_step D I (fst (resync D I))"
| left: "networked_step D I (fst (leave D I))"
| proposed: "networked_step D I (fst (propose D action expires I))"
| file_created: "networked_step D I (fst (create_file D path mime I))"
| checkpointed: "networked_step D I (fst (checkpoint D name message I))"
| restored: "networked_step D I (fst (facade_restore_checkpoint D digest I))"
| asset_reverted: "networked_step D I (fst (facade_revert_asset D asset content I))"
| user_added: "networked_step D I (fst (add_user D enr r name I))"
| device_added: "networked_step D I (fst (add_device D enr user label I))"
| version_attached: "networked_step D I (fst (attach_version D entry file I))"
| file_attached: "networked_step D I (fst (attach_file D file path mime I))"
| exported: "networked_step D I (fst (fst (export_asset D asset target I)))"
| version_exported: "networked_step D I (fst (fst (export_asset_version D version target I)))"
| synced: "networked_step D I (fst (sync_with D peer I))"
| counted: "networked_step D I (fst (index_status D I))"

section \<open>The contract\<close>

lemma export_step: "workspace_step (dv_env D) W (fst (export_state D W))"
proof -
  have "fst (export_state D W) = fst (workspace_snapshot_of (dv_env D) W)"
    by (auto simp: export_state_def and_then_def split: prod.split sum.split)
  then show ?thesis by (simp add: workspace_step.snapshot)
qed

lemma exported_steps: "(workspace_step (dv_env D))\<^sup>*\<^sup>* W (fst (export_state D W))"
  by (rule r_into_rtranclp, rule export_step)

lemma exported_state:
  "with_state (export_state D) I = (J, x) \<Longrightarrow> J = I\<lparr>in_state := fst (export_state D (in_state I))\<rparr> \<and> x = snd (export_state D (in_state I))"
  by (auto simp: with_state_def split: prod.splits)

locale driver_relation =
  fixes D :: "('c, 'r, 'd, 's, 't, 'h) driver" and R :: "('c, 'r, 'd, 's) inner \<Rightarrow> ('c, 'r, 'd, 's) inner \<Rightarrow> bool"
  assumes refl: "R I I"
    and trans: "R I J \<Longrightarrow> R J K \<Longrightarrow> R I K"
    and core: "workspace_step (dv_env D) (in_state I) W \<Longrightarrow> R I (I\<lparr>in_state := W\<rparr>)"
    and world: "R I (I\<lparr>in_world := s\<rparr>)"
    and replica: "R I (I\<lparr>in_doc := doc\<rparr>)"
    and data_task: "R I (I\<lparr>in_data_task := task\<rparr>)"
    and seen: "R I (I\<lparr>in_seen := m\<rparr>)"
    and neighbor: "R I (I\<lparr>in_neighbor_cooldown := c1\<rparr>)"
    and repair: "R I (I\<lparr>in_repair_cooldown := c2\<rparr>)"
    and answer: "R I (I\<lparr>in_repair_answer_cooldown := c3\<rparr>)"
    and eviction: "R I (I\<lparr>in_eviction_cooldown := c4\<rparr>)"
    and permit: "R I (I\<lparr>in_republish_wanted := b\<rparr>)"
    and derived: "R I (I\<lparr>in_node := (in_node I)\<lparr>nd_roster :=
          set_derived ep (in_workspace_key I) es (nd_roster (in_node I))\<rparr>\<rparr>)"
    and snapshot: "with_state (export_state D) I = (J, Inr core) \<Longrightarrow> nd_store (in_node J) = Some F \<Longrightarrow>
          R I (J\<lparr>in_node := (in_node J)\<lparr>nd_store := Some (fst (store_workspace (dv_store D) (in_workspace_key J)
            \<lparr>wr_core = core, wr_namespace = in_doc J\<rparr> F))\<rparr>\<rparr>)"
    and pending: "nd_store (in_node I) = Some F \<Longrightarrow> R I (I\<lparr>in_node := (in_node I)\<lparr>nd_store :=
          Some (fst (store_pending_assets (dv_store D) p F))\<rparr>\<rparr>)"
begin

subsection \<open>Composition\<close>

text \<open>\<open>kept I x\<close>: the state that \<open>x\<close> ends in, if any, is related to \<open>I\<close>.\<close>

definition kept :: "('c, 'r, 'd, 's) inner \<Rightarrow> ('c, 'r, 'd, 's) inner option \<Rightarrow> bool" where
  "kept I x \<longleftrightarrow> (\<forall>J. x = Some J \<longrightarrow> R I J)"

lemma kept_Some [simp]: "kept I (Some J) = R I J"
  by (simp add: kept_def)

lemma kept_trans: "R I J \<Longrightarrow> kept J x \<Longrightarrow> kept I x"
  using trans by (auto simp: kept_def)

lemma kept_case: "R I (fst p) \<Longrightarrow> (\<And>J x. kept J (g J x)) \<Longrightarrow> kept I (case p of (J, x) \<Rightarrow> g J x)"
  by (cases p) (auto intro: kept_trans)

lemma kept_bind: "kept I x \<Longrightarrow> (\<And>J. kept J (f J)) \<Longrightarrow> kept I (Option.bind x f)"
  by (cases x) (auto simp: kept_def [of _ None] intro: kept_trans)

lemma kept_map: "kept I x \<Longrightarrow> (\<And>J. R J (f J)) \<Longrightarrow> kept I (map_option f x)"
  by (cases x) (auto intro: trans)

lemma keeps_fst_case: "R I (fst p) \<Longrightarrow> (\<And>J x. R J (fst (g J x))) \<Longrightarrow> R I (fst (case p of (J, x) \<Rightarrow> g J x))"
  by (cases p) (auto intro: trans)

lemma keeps_case: "R I (fst p) \<Longrightarrow> (\<And>J x. R J (g J x)) \<Longrightarrow> R I (case p of (J, x) \<Rightarrow> g J x)"
  by (cases p) (auto intro: trans)

lemma keeps_then: "R I J \<Longrightarrow> (\<And>J. R J (f J)) \<Longrightarrow> R I (f J)"
  using trans by blast

lemma keeps_fst_then: "R I J \<Longrightarrow> (\<And>J. R J (fst (f J))) \<Longrightarrow> R I (fst (f J))"
  using trans by blast

lemma and_then_keeps: "R I (fst r) \<Longrightarrow> (\<And>x J. R J (fst (k x J))) \<Longrightarrow> R I (fst (and_then r k))"
  by (auto simp: and_then_def split: prod.split sum.split intro: trans)

subsection \<open>Elementary operations\<close>

lemma io_keeps: "R I (fst (io f I))"
  by (auto simp: io_def world split: prod.split)

lemma storage_io_keeps: "R I (fst (storage_io f I))"
  using io_keeps [of I f] by (auto simp: storage_io_def split: prod.splits)

lemma with_state_keeps: "workspace_step (dv_env D) (in_state I) (fst (f (in_state I))) \<Longrightarrow> R I (fst (with_state f I))"
  using core [of I "fst (f (in_state I))"] by (auto simp: with_state_def split: prod.splits)

lemma feed_keeps: "R I (fst (feed D ev I))"
  unfolding feed_def by (intro keeps_fst_case io_keeps with_state_keeps workspace_step.event)

lemma send_keeps: "R I (send D m I)"
  by (auto simp: send_def refl io_keeps split: sum.split)

lemma export_keeps: "R I (fst (with_state (export_state D) I))"
  by (intro with_state_keeps export_step)

lemma persist_keeps: "R I (persist D I)"
proof -
  obtain J x where J: "with_state (export_state D) I = (J, x)" by fastforce
  moreover have "R I J" using export_keeps [of I] by (simp add: J)
  ultimately show ?thesis
    using snapshot [of I J] by (cases x) (auto simp: persist_def with_store_def refl split: option.split)
qed

lemma refresh_keeps: "R I (refresh_roster D I)" "R I (refresh_download_policy D I)"
  by (simp_all add: refresh_roster_def derived refresh_download_policy_def io_keeps)

lemma pending_keeps: "R I (note_pending_asset D a I)" "R I (clear_pending_assets D as I)"
  by (auto simp: note_pending_asset_def clear_pending_assets_def with_store_def refl pending split: option.split)

lemma store_bytes_keeps: "R I (fst (store_bytes D key bs I))"
  unfolding store_bytes_def Let_def by (intro and_then_keeps storage_io_keeps) (simp add: io_keeps)

lemma store_chunk_keeps: "R I (fst (store_chunk D key ch I))"
  unfolding store_chunk_def by (intro and_then_keeps) (simp_all add: refl store_bytes_keeps send_keeps)

lemma local_bytes_keeps: "R I (fst (local_bytes D h I))"
  unfolding local_bytes_def by (rule keeps_fst_case [OF io_keeps]) (simp add: refl split: sum.split)

lemma fetch_indexed_bytes_keeps: "R I (fst (fetch_indexed_bytes D key I))"
proof -
  have found: "R J (fst (case local_bytes D h J of (I, None) \<Rightarrow> if peers I = [] then (I, None)
        else local_bytes D h (fst (io (tr_download (dv_transport D) h (peers I)) I)) | (I, Some _) \<Rightarrow> local_bytes D h I))" for J h peers
    by (rule keeps_fst_case [OF local_bytes_keeps])
      (auto simp: refl local_bytes_keeps intro: keeps_fst_then [OF io_keeps local_bytes_keeps] split: option.split)
  show ?thesis
    unfolding fetch_indexed_bytes_def Let_def
    by (rule keeps_fst_case [OF io_keeps]) (auto simp: refl found simp del: filter_filter split: sum.split option.split)
qed

lemma claim_slot_keeps: "(\<And>c I. R I (set_slot c I)) \<Longrightarrow> R I (fst (claim_slot D get_slot set_slot key I))"
  unfolding claim_slot_def by (rule keeps_fst_case [OF io_keeps]) (simp split: prod.split)

lemma request_repair_keeps: "R I (request_repair D target epoch I)"
  unfolding request_repair_def
  by (rule keeps_case, rule claim_slot_keeps) (auto simp: repair refl send_keeps split: bool.split)

lemma withdraw_keeps: "R I (withdraw D pre I)"
  unfolding withdraw_def using trans [OF seen io_keeps] .

subsection \<open>The pump\<close>

definition pump_keeps :: "('c, 'r, 'd, 's) pump \<Rightarrow> bool" where
  "pump_keeps p \<longleftrightarrow> (\<forall>effects I. kept I (p effects I))"

lemma feed_all_keeps: "pump_keeps p \<Longrightarrow> kept I (feed_all D p evs I)"
  by (induction evs arbitrary: I) (auto simp: refl pump_keeps_def intro!: kept_case [OF feed_keeps] kept_bind)

lemma republish_keeps: "pump_keeps p \<Longrightarrow> kept I (republish D p I)"
  unfolding republish_def Let_def by (intro kept_map feed_all_keeps persist_keeps)

lemma evict_keeps: "pump_keeps p \<Longrightarrow> kept I (evict_uncertified D p m I)"
  unfolding evict_uncertified_def
  by (rule kept_case, rule claim_slot_keeps)
    (auto simp: eviction refl pump_keeps_def intro!: kept_case [OF feed_keeps] split: bool.split)

lemma reseal_keeps: "pump_keeps p \<Longrightarrow> kept I (answer_asset_key_repair D p requester asset I)"
  unfolding answer_asset_key_repair_def
  by (rule kept_case [OF fetch_indexed_bytes_keeps])
    (auto simp: refl pump_keeps_def intro!: kept_case [OF with_state_keeps] workspace_step.reseal
      split: option.split sum.split)

lemma spawn_data_loop_keeps: "R I (fst (spawn_data_loop D I))"
  unfolding spawn_data_loop_def by (intro and_then_keeps storage_io_keeps) (simp add: data_task)

lemma reindex_keeps: "R I (reindex_keys D previous ks I)"
proof (induction ks arbitrary: I)
  case (Cons key ks)
  have "R J (reindex_keys D previous ks (fst (io f J)))" for J and f :: "'s \<Rightarrow> 's \<times> (string + unit)"
    by (rule trans [OF io_keeps Cons])
  then have step: "R J (case local_bytes D (ie_hash e) J of (I, None) \<Rightarrow> reindex_keys D previous ks I
      | (I, Some _) \<Rightarrow> reindex_keys D previous ks (fst (io (tr_set_hash (dv_transport D) (in_doc I) (in_author I) key (ie_hash e) (ie_len e)) I)))" for J e
    by (intro keeps_case [OF local_bytes_keeps]) (simp add: Cons split: option.split)
  show ?case
    unfolding reindex_keys.simps
  proof (rule keeps_case [OF io_keeps])
    fix J and x :: "string + index_entry option"
    show "R J (case x of Inl _ \<Rightarrow> reindex_keys D previous ks J | Inr None \<Rightarrow> reindex_keys D previous ks J
      | Inr (Some entry) \<Rightarrow> (case local_bytes D (ie_hash entry) J of (I, None) \<Rightarrow> reindex_keys D previous ks I
          | (I, Some _) \<Rightarrow> reindex_keys D previous ks (fst (io (tr_set_hash (dv_transport D) (in_doc I) (in_author I) key
              (ie_hash entry) (ie_len entry)) I))))"
      using step by (cases x) (auto simp: Cons split: option.split)
  qed
qed (simp add: refl)

lemma adopt_keeps:
  assumes "pump_keeps p"
  shows "kept I (adopt_namespace D p ticket w I)"
proof -
  have rest: "kept K (republish D p (refresh_download_policy D (fst (spawn_data_loop D
        ((fst (io (tr_leave (dv_transport D) previous) (reindex_assets D previous (K\<lparr>in_doc := doc\<rparr>))))\<lparr>in_seen := Map.empty\<rparr>)))))"
    for K previous doc
    unfolding reindex_assets_def
    by (rule kept_trans [OF _ republish_keeps [OF assms]])
      (rule trans [OF trans [OF trans [OF trans [OF trans [OF replica reindex_keeps] io_keeps] seen] spawn_data_loop_keeps] refresh_keeps(2)])
  have opened: "R I (fst (case io (tr_open (dv_transport D) id) I of (I, Inr (Some existing)) \<Rightarrow> (I, Inr existing)
                | (I, _) \<Rightarrow> io (tr_import (dv_transport D) chosen) I))" for id chosen
    by (rule keeps_fst_case [OF io_keeps]) (auto simp: refl io_keeps split: sum.split option.split)
  show ?thesis
    unfolding adopt_namespace_def Let_def
    by (auto simp: refl rest intro!: kept_case [OF opened] split: option.split sum.split)
qed

lemma mint_keeps:
  assumes "pump_keeps p"
  shows "kept I (mint_namespace D p n I)"
proof -
  have fed: "kept J (case feed D ev J of (I, r) \<Rightarrow> if report_rejection r = [] then Some I else p (report_rejection r) I)" for J ev
    using assms by (intro kept_case [OF feed_keeps]) (simp add: refl pump_keeps_def)
  show ?thesis
    unfolding mint_namespace_def Let_def
    by (auto simp: refl fed intro!: kept_case [OF io_keeps] split: sum.split option.split)
qed

lemma apply_effect_keeps: "pump_keeps p \<Longrightarrow> kept I (apply_effect D p e I)"
  by (cases e) (simp_all add: refl send_keeps store_chunk_keeps withdraw_keeps request_repair_keeps evict_keeps
      reseal_keeps mint_keeps adopt_keeps trans [OF refresh_keeps(1) refresh_keeps(2)])

lemma apply_effects_keeps: "pump_keeps (apply_effects D n)"
proof (induction n)
  case (Suc n)
  have "kept I (apply_each (apply_effect D (apply_effects D n)) effects I)" for effects I
    by (induction effects arbitrary: I) (simp_all add: refl kept_bind apply_effect_keeps Suc)
  then show ?case by (simp add: pump_keeps_def)
qed (simp add: pump_keeps_def kept_def refl)

lemma perform_keeps: "R I (perform D effects I)"
  using apply_effects_keeps [of PUMP_DEPTH] by (simp add: pump_keeps_def perform_total)

subsection \<open>The loops\<close>

lemma fetch_entries_keeps: "R I (fst (fetch_entries D key b entries I))"
proof (induction entries arbitrary: I)
  case (Cons entry es)
  have seen_then: "R J (fst (fetch_entries D key b es (J\<lparr>in_seen := m\<rparr>)))" for J m
    by (rule trans [OF seen Cons])
  have decoded: "R J (fst (case decode_chunk (dv_wire D) bs of Inl _ \<Rightarrow> fetch_entries D key b es J
      | Inr ch \<Rightarrow> (case fetch_entries D key b es (J\<lparr>in_seen := (in_seen J)((key, ie_author entry) \<mapsto> ie_hash entry)\<rparr>) of
                (I, chunks) \<Rightarrow> (I, ch # chunks))))" for J bs
    using seen_then [of J] by (auto simp: Cons split: sum.split prod.split) (metis fst_conv)
  have "R I (fst (case local_bytes D (ie_hash entry) I of (I, None) \<Rightarrow> fetch_entries D key b es I
      | (I, Some bs) \<Rightarrow> (case decode_chunk (dv_wire D) bs of Inl _ \<Rightarrow> fetch_entries D key b es I
          | Inr ch \<Rightarrow> (case fetch_entries D key b es (I\<lparr>in_seen := (in_seen I)((key, ie_author entry) \<mapsto> ie_hash entry)\<rparr>) of
                (I, chunks) \<Rightarrow> (I, ch # chunks)))))"
    by (rule keeps_fst_case [OF local_bytes_keeps]) (auto simp: Cons decoded split: option.split)
  then show ?case by (simp only: fetch_entries.simps Cons if_distrib [of fst] if_cancel split: if_split) (simp add: Cons)
qed (simp add: refl)

lemma fetch_chunks_keeps: "R I (fst (fetch_chunks D key b I))"
  unfolding fetch_chunks_def
  by (rule keeps_fst_case [OF io_keeps]) (simp add: refl fetch_entries_keeps split: sum.split)

lemma feed_each_keeps: "R I (feed_each D evs I)"
proof (induction evs arbitrary: I)
  case (Cons ev evs)
  show ?case unfolding feed_each.simps by (rule keeps_case [OF feed_keeps]) (rule trans [OF perform_keeps Cons])
qed (simp add: refl)

lemma ingest_docs_keeps: "R I (ingest_docs D docs I)"
proof (induction docs arbitrary: I)
  case (Cons doc docs)
  show ?case
    unfolding ingest_docs.simps by (rule keeps_case [OF fetch_chunks_keeps]) (rule trans [OF feed_each_keeps Cons])
qed (simp add: refl)

lemma forget_stuck_keeps: "R I (forget_stuck D I)"
  by (simp add: forget_stuck_def Let_def refl seen)

lemma ingest_all_keeps: "R I (ingest_all D I)"
  unfolding ingest_all_def Let_def
  by (rule keeps_case [OF fetch_chunks_keeps])
    (rule trans [OF feed_each_keeps trans [OF trans [OF ingest_docs_keeps forget_stuck_keeps] persist_keeps]])

lemma handle_control_msg_keeps: "R I (handle_control_msg D m I)"
proof -
  have handled: "R J (case io (tr_unix (dv_transport D)) J of (I, clock) \<Rightarrow>
           case with_state (on_control (dv_env D) (clock_now clock) m) I of (I, r) \<Rightarrow>
             ingest_all D (perform D (report_rejection r) I))" for J
    by (intro keeps_case [OF io_keeps] keeps_case [OF with_state_keeps] workspace_step.message
        trans [OF perform_keeps ingest_all_keeps])
  have "R I (fst (case answer_cooldown_key m of None \<Rightarrow> (I, True)
        | Some key \<Rightarrow> claim_slot D in_repair_answer_cooldown (\<lambda>c. in_repair_answer_cooldown_update (\<lambda>_. c)) key I))"
    by (simp add: refl claim_slot_keeps answer split: option.split)
  then show ?thesis
    unfolding handle_control_msg_def by (rule keeps_case) (auto simp: refl handled split: bool.split)
qed

lemma control_event_keeps: "R I (control_event D ev I)"
proof (cases ev)
  case (Received bs)
  then show ?thesis by (simp add: refl handle_control_msg_keeps split: sum.split)
next
  case (NeighborUp peer)
  have "R J (send_log D J)" for J by (simp add: send_log_def refl send_keeps split: sum.split)
  note sent = trans [OF this permit]
  show ?thesis
    unfolding NeighborUp control_event.simps
    by (rule keeps_case, rule claim_slot_keeps) (auto simp: neighbor refl sent split: bool.split)
qed (simp add: refl)

lemma data_event_keeps: "R I (data_event D ev I)"
  by (cases ev) (simp_all add: refl ingest_all_keeps)

lemma republish_turn_keeps: "R I (republish_turn D I)"
  using kept_trans [OF permit republish_keeps [OF apply_effects_keeps]]
  by (auto simp: republish_turn_def refl kept_def split: option.split)

subsection \<open>Calls\<close>

lemma drive_keeps: "R I (fst (drive D ev I))"
proof -
  have "R J (persist D (if b then refresh_roster D (perform D effects J) else perform D effects J))" for J b effects
    by (rule trans [OF _ persist_keeps]) (simp add: perform_keeps trans [OF perform_keeps refresh_keeps(1)])
  then show ?thesis
    unfolding drive_def Let_def by (intro keeps_fst_case [OF feed_keeps]) (auto simp: refl split: sum.split)
qed

lemma remove_devices_keeps: "R I (fst (remove_devices D ms e I))"
proof (induction ms arbitrary: I e)
  case (Cons m ms)
  show ?case
    unfolding remove_devices.simps remove_device_def
    by (rule keeps_fst_case [OF drive_keeps]) (simp add: Cons split: sum.split)
qed (simp add: refl)

lemma drive_all_keeps: "R I (fst (drive_all D evs I))"
  by (induction evs arbitrary: I) (auto simp: refl intro: and_then_keeps drive_keeps)

lemma map_err_keeps: "R I (fst p) \<Longrightarrow> R I (fst (map_prod (\<lambda>I. I) f p))"
  by (cases p) simp

lemma core_call_keeps:
  assumes "\<And>now W. workspace_step (dv_env D) W (fst (f now W))"
  shows "R I (fst (core_call D f effects_of I))"
  unfolding core_call_def
  by (intro keeps_fst_case [OF io_keeps] and_then_keeps map_err_keeps with_state_keeps assms)
    (simp add: trans [OF perform_keeps persist_keeps])

lemma build_invite_keeps: "R I (fst (build_invite D invitee r I))"
  unfolding build_invite_def Let_def
  by (intro and_then_keeps storage_io_keeps map_err_keeps io_keeps) (auto simp: refl split: prod.split)

lemma admitted_keeps: "R I (fst (add_user D enr r name I))" "R I (fst (add_device D enr user label I))"
  unfolding add_user_def add_device_def Let_def
  by (intro and_then_keeps drive_keeps build_invite_keeps; simp add: refl)+

subsection \<open>Assets\<close>

lemma discard_keeps: "R I (discard_partial_asset D uuid I)"
  unfolding discard_partial_asset_def Let_def by (rule trans [OF io_keeps io_keeps])

lemma write_segments_from_keeps: "R I (fst (write_segments_from D uuid key n width is remaining data digest I))"
  by (induction "is" arbitrary: remaining data digest I)
    (auto simp: Let_def refl store_segment_def intro!: and_then_keeps store_bytes_keeps)

lemma write_segments_keeps: "R I (fst (write_segments D uuid key sz n width file I))"
  unfolding write_segments_def by (intro and_then_keeps write_segments_from_keeps) (simp_all add: refl)

lemma declared_keeps:
  "R I (fst (case io (tr_unix (dv_transport D)) I of (I, clock) \<Rightarrow>
     and_then (map_prod (\<lambda>I. I) (map_err CoreFailure) (with_state (workspace_add_asset_version (dv_env D) entry content
         meta (clock_now clock)) I)) (\<lambda>effects I.
       (clear_pending_assets D [content] (refresh_download_policy D (persist D (perform D effects I))), Inr ()))))"
proof -
  have "R J (clear_pending_assets D [content] (refresh_download_policy D (persist D (perform D effects J))))" for J effects
    by (rule trans [OF trans [OF trans [OF perform_keeps persist_keeps] refresh_keeps(2)] pending_keeps(2)])
  then show ?thesis
    by (intro keeps_fst_case [OF io_keeps] and_then_keeps map_err_keeps with_state_keeps workspace_step.add_version) simp
qed

lemma attach_version_keeps: "R I (fst (attach_version D entry file I))"
proof -
  have failed: "R J (clear_pending_assets D [content] (discard_partial_asset D content J))" for J content
    by (rule trans [OF discard_keeps pending_keeps(2)])
  have written: "R J (fst (case write_segments D content key sz n width file J of
      (I, Inr content_hash) \<Rightarrow>
        (case io (tr_unix (dv_transport D)) I of (I, clock) \<Rightarrow>
          and_then (map_prod (\<lambda>I. I) (map_err CoreFailure) (with_state (workspace_add_asset_version (dv_env D) entry content
              (meta content_hash) (clock_now clock)) I)) (\<lambda>effects I.
            (clear_pending_assets D [content] (refresh_download_policy D (persist D (perform D effects I))), Inr ())))
    | (I, Inl err) \<Rightarrow> (clear_pending_assets D [content] (discard_partial_asset D content I), Inl err)))"
    for J content key sz n width meta
    by (rule keeps_fst_case [OF write_segments_keeps]) (simp add: declared_keeps failed split: sum.split)
  have noted: "R J (note_pending_asset D content (perform D effects J))" for J content effects
    by (rule trans [OF perform_keeps pending_keeps(1)])
  show ?thesis
    unfolding attach_version_def Let_def
    by (intro and_then_keeps keeps_fst_case [OF io_keeps] map_err_keeps with_state_keeps workspace_step.seal)
      (auto simp: refl intro!: trans [OF noted written])
qed

lemma attach_file_keeps: "R I (fst (attach_file D file path mime I))"
  unfolding attach_file_def
  by (intro keeps_fst_case [OF io_keeps] and_then_keeps drive_keeps keeps_fst_case [OF attach_version_keeps])
    (simp add: refl drive_keeps split: sum.split)

lemma open_key_keeps: "R I (fst (facade_open_asset_key D asset I))"
proof -
  have "R J (fst (case with_state (open_asset_key (dv_env D) ch) J of
              (I, AkReady key) \<Rightarrow> (I, Inr key)
            | (I, AkUnreachable) \<Rightarrow> (request_repair D (RepairAssetKey asset) (epoch_of ch) I, Inl AssetKeyUnavailable)
            | (I, AkAwaitingKey) \<Rightarrow> (I, Inl AssetKeyUnavailable)
            | (I, AkCorrupt) \<Rightarrow> (I, Inl CorruptAsset)))" for J ch
    by (intro keeps_fst_case [OF with_state_keeps] workspace_step.open_key)
      (simp add: refl request_repair_keeps split: asset_key_verdict.split)
  then show ?thesis
    unfolding facade_open_asset_key_def
    by (intro keeps_fst_case [OF fetch_indexed_bytes_keeps])
      (auto simp: refl intro!: and_then_keeps split: option.split)
qed

lemma export_segments_keeps: "R (fst S) (fst (fst (export_segments D target content key meta is digest S)))"
proof (induction "is" arbitrary: S digest)
  case (Cons index "is")
  obtain I out where S: "S = (I, out)" by fastforce
  obtain J x where f: "fetch_indexed_bytes D (asset_part_key (e_hash (dv_env D)) (in_secret I) content index) I = (J, x)"
    by fastforce
  have J: "R I J" using fetch_indexed_bytes_keeps [of I "asset_part_key (e_hash (dv_env D)) (in_secret I) content index"] f by simp
  have "R I (fst (fst (export_segments D target content key meta is d (J, o'))))" for d o'
    using trans [OF J] Cons [where S = "(J, o')"] by simp
  with J show ?case by (auto simp: S f and_then_def split: option.split sum.split)
qed (simp add: refl)

lemma export_version_keeps: "R I (fst (fst (export_asset_version D version target I)))"
proof -
  obtain J x where f: "facade_open_asset_key D (av_content version) I = (J, x)" by fastforce
  have J: "R I J" using open_key_keeps [of I "av_content version"] f by simp
  have "R I (fst (fst (export_segments D target c key m is d (J, []))))" for c key m "is" d
    using trans [OF J] export_segments_keeps [where S = "(J, [])"] by simp
  with J show ?thesis
    unfolding export_asset_version_def Let_def f by (auto simp: and_then_def split: prod.split sum.split) (metis fst_conv)+
qed

lemma sweep_keeps: "R I (sweep_orphaned_assets D I)"
proof -
  have "R J (fold (discard_partial_asset D) us J)" for us J
  proof (induction us arbitrary: J)
    case (Cons u us)
    show ?case using trans [OF discard_keeps Cons] by simp
  qed (simp add: refl)
  note swept = trans [OF this pending_keeps(2)]
  show ?thesis
    unfolding sweep_orphaned_assets_def Let_def by (auto simp: refl swept split: option.split sum.split)
qed

lemma count_local_keeps: "R I (fst (count_local D es counts I))"
proof (induction es arbitrary: counts I)
  case (Cons entry es)
  show ?case by (cases counts) (auto intro: keeps_fst_case [OF local_bytes_keeps Cons])
qed (simp add: refl)

lemma count_keys_keeps: "R I (fst (count_keys D ks counts I))"
proof (induction ks arbitrary: counts I)
  case (Cons key ks)
  show ?case
    unfolding count_keys.simps
    by (rule keeps_fst_case [OF io_keeps]) (auto simp: Cons intro: keeps_fst_case [OF count_local_keeps Cons] split: sum.split)
qed (simp add: refl)

lemma step_keeps: "networked_step D I J \<Longrightarrow> R I J"
proof (induction rule: networked_step.induct)
  case (left I)
  show ?case unfolding leave_def by (intro and_then_keeps drive_keeps) (simp add: io_keeps)
next
  case (proposed I action expires)
  show ?case unfolding propose_def Let_def by (intro and_then_keeps drive_keeps) (simp add: refl)
next
  case (file_created I path mime)
  show ?case unfolding create_file_def by (intro keeps_fst_case [OF io_keeps] and_then_keeps drive_keeps) (simp add: refl)
next
  case (checkpointed I name message)
  show ?case
    unfolding checkpoint_def by (intro and_then_keeps core_call_keeps workspace_step.take_cp) (simp add: refl split: prod.split)
next
  case (restored I digest)
  show ?case
    unfolding facade_restore_checkpoint_def
    by (intro and_then_keeps core_call_keeps workspace_step.restore_cp) (simp add: refl split: prod.split)
next
  case (asset_reverted I asset content)
  show ?case
    unfolding facade_revert_asset_def
    by (intro and_then_keeps core_call_keeps workspace_step.revert_version) (simp add: refresh_keeps)
qed (simp_all add: control_event_keeps data_event_keeps ingest_all_keeps republish_turn_keeps drive_keeps remove_user_def
    remove_devices_keeps resync_def drive_all_keeps admitted_keeps attach_version_keeps attach_file_keeps export_asset_def
    export_version_keeps sync_with_def storage_io_keeps index_status_def count_keys_keeps refl split: option.split)

text \<open>
  What assembling does: it fails before there is a state, or it builds one and works on it, also when it
  fails in the end.
\<close>

lemma assembled_keeps:
  assumes "assemble D W secret doc tree signer bootstrap (N, s) = (S', r)"
  shows "(fst S' \<in> {N, N\<lparr>nd_roster := fold (add_bootstrap tree) bootstrap (nd_roster N)\<rparr>} \<and> \<not> is_ok r)
    \<or> (\<exists>s' J. R (new_inner W doc (tr_author_id (dv_transport D) (author_seed (e_hash (dv_env D)) secret (me W)))
          secret signer tree (N\<lparr>nd_roster := fold (add_bootstrap tree) bootstrap (nd_roster N)\<rparr>) s') J
        \<and> S' = outside_of J \<and> (r = Inr J \<or> \<not> is_ok r))"
proof -
  let ?author = "tr_author_id (dv_transport D) (author_seed (e_hash (dv_env D)) secret (me W))"
  let ?N = "N\<lparr>nd_roster := fold (add_bootstrap tree) bootstrap (nd_roster N)\<rparr>"
  let ?I = "new_inner W doc ?author secret signer tree ?N"
  define built where "built I = (case feed D (EvAnnounceAuthor ?author) I of (I, claimed) \<Rightarrow>
      case feed D (EvAnnounceEndpoint (nd_endpoint N)) I of (I, announced) \<Rightarrow>
        spawn_data_loop D (sweep_orphaned_assets D (refresh_download_policy D (refresh_roster D
          (perform D (report_rejection claimed @ report_rejection announced) I)))))" for I
  have settled: "R J (sweep_orphaned_assets D (refresh_download_policy D (refresh_roster D (perform D effects J))))" for J effects
    by (rule trans [OF trans [OF trans [OF perform_keeps refresh_keeps(1)] refresh_keeps(2)] sweep_keeps])
  have built: "R I (fst (built I))" for I
    unfolding built_def
    by (intro keeps_fst_case [OF feed_keeps] keeps_fst_then [OF settled spawn_data_loop_keeps])
  have "(fst S' \<in> {N, ?N} \<and> \<not> is_ok r) \<or> (\<exists>s'. (S', r) = (case built (?I s') of
      (I, Inl e) \<Rightarrow> (outside_of I, Inl e) | (I, Inr _) \<Rightarrow> (outside_of (persist D I), Inr (persist D I))))"
  proof -
    obtain s1 r1 where r1: "tr_author_import (dv_transport D) (author_seed (e_hash (dv_env D)) secret (me W)) s = (s1, r1)"
      by fastforce
    obtain s2 r2 where r2: "tr_subscribe_topic (dv_transport D) tree bootstrap s1 = (s2, r2)" by fastforce
    have "\<exists>s'. (S', r) = (case built (?I s') of
      (I, Inl e) \<Rightarrow> (outside_of I, Inl e) | (I, Inr _) \<Rightarrow> (outside_of (persist D I), Inr (persist D I)))" if "r1 = Inr ()" "r2 = Inr ()"
      using assms unfolding assemble_def built_def Let_def outside_io_def
      by (intro exI [of _ s2]) (simp add: r1 r2 that and_then_def split: prod.splits)
    with assms show ?thesis
      by (cases r1; cases r2) (auto simp: assemble_def Let_def outside_io_def r1 r2 and_then_def)
  qed
  then show ?thesis
  proof
    assume "\<exists>s'. (S', r) = (case built (?I s') of
      (I, Inl e) \<Rightarrow> (outside_of I, Inl e) | (I, Inr _) \<Rightarrow> (outside_of (persist D I), Inr (persist D I)))"
    then obtain s' where s': "(S', r) = (case built (?I s') of
      (I, Inl e) \<Rightarrow> (outside_of I, Inl e) | (I, Inr _) \<Rightarrow> (outside_of (persist D I), Inr (persist D I)))" ..
    obtain J x where J: "built (?I s') = (J, x)" by fastforce
    with s' have "(S', r) = (case x of Inl e \<Rightarrow> (outside_of J, Inl e)
        | Inr _ \<Rightarrow> (outside_of (persist D J), Inr (persist D J)))" by simp
    with J built [of "?I s'"] trans [OF _ persist_keeps] show ?thesis by (cases x) auto
  qed simp
qed

end

section \<open>Three relations\<close>

text \<open>The core's state changes by the core's own steps and in no other way.\<close>

interpretation core_steps: driver_relation D "\<lambda>I J. (workspace_step (dv_env D))\<^sup>*\<^sup>* (in_state I) (in_state J)" for D
  by unfold_locales (auto dest!: exported_state intro: exported_steps)

text \<open>What a running workspace never changes: its author, keys and identity, and what its node redeemed.\<close>

definition same_device :: "('c, 'r, 'd, 's) inner \<Rightarrow> ('c, 'r, 'd, 's) inner \<Rightarrow> bool" where
  "same_device I J \<longleftrightarrow> in_author J = in_author I \<and> in_secret J = in_secret I \<and> in_signer J = in_signer I
     \<and> in_workspace_key J = in_workspace_key I \<and> nd_endpoint (in_node J) = nd_endpoint (in_node I)
     \<and> nd_redeemed (in_node J) = nd_redeemed (in_node I)"

interpretation device: driver_relation D same_device for D
  by unfold_locales (auto simp: same_device_def dest!: exported_state)

text \<open>
  What the workspaces of one node share: the entries of the others in the roster, their snapshots, the key and
  the ledger of redeemed invitations are left alone.
\<close>

definition others_alone :: "('c, 'r, 'd, 's) inner \<Rightarrow> ('c, 'r, 'd, 's) inner \<Rightarrow> bool" where
  "others_alone I J \<longleftrightarrow> in_workspace_key J = in_workspace_key I
     \<and> (roster_usable (nd_roster (in_node I)) \<longrightarrow> roster_usable (nd_roster (in_node J))
         \<and> (\<forall>w. w \<noteq> in_workspace_key I \<longrightarrow> roster_entry (nd_roster (in_node J)) w = roster_entry (nd_roster (in_node I)) w))
     \<and> (case nd_store (in_node I) of
          None \<Rightarrow> nd_store (in_node J) = None
        | Some F \<Rightarrow> (\<exists>G. nd_store (in_node J) = Some G
            \<and> (\<forall>k. k \<noteq> SnapshotSlot (in_workspace_key I) \<longrightarrow> k \<noteq> PendingSlot \<longrightarrow> slot_get k G = slot_get k F)))"

lemma store_leaves_slots:
  "k \<noteq> SnapshotSlot tree \<Longrightarrow> slot_get k (fst (store_workspace P tree rec F)) = slot_get k F"
  "k \<noteq> PendingSlot \<Longrightarrow> slot_get k (fst (store_pending_assets P p F)) = slot_get k F"
  using slots.get_put [of k "SnapshotSlot tree"] slots.get_put [of k PendingSlot]
  by (auto simp: store_workspace_def store_pending_assets_def store_pairs_def slot_put_def split: option.split)

interpretation neighbours: driver_relation D others_alone for D
proof unfold_locales
  fix I and ep es
  show "others_alone I (I\<lparr>in_node := (in_node I)\<lparr>nd_roster := set_derived ep (in_workspace_key I) es (nd_roster (in_node I))\<rparr>\<rparr>)"
    using rosters.usable_perform [of "nd_roster (in_node I)" ep "SetDerived (in_workspace_key I) es"]
      rosters.entry_perform [of "nd_roster (in_node I)" ep "SetDerived (in_workspace_key I) es"]
    by (auto simp: others_alone_def split: option.split)
next
  fix I J K assume "others_alone I J" "others_alone J K"
  then show "others_alone I K" by (auto simp: others_alone_def split: option.splits)
qed (auto simp: others_alone_def store_leaves_slots dest!: exported_state split: option.split)

end
