(* ===== verification/Device_Life.thy ===== *)
theory Device_Life
  imports Driver_Relations
begin

text \<open>
  The life of one device: its node is started and stopped, a workspace is founded, joined, reopened, run and
  deleted on it, and any of these may fail. Whatever happens, the workspace that runs is one the core can
  reach, and what is on disk are snapshots of such workspaces.
\<close>

section \<open>What is on disk\<close>

text \<open>A file holds a snapshot that a reachable state of the core exported.\<close>

definition exported_by :: "('c, 'r, 'd, 's, 't, 'h) driver \<Rightarrow> bytes \<Rightarrow> bool" where
  "exported_by D bs \<longleftrightarrow> (\<exists>W W1 core namespace. workspace_reachable (dv_env D) W \<and> export_state D W = (W1, Inr core)
     \<and> sc_encode_record (dv_store D) \<lparr>wr_core = core, wr_namespace = namespace\<rparr> = Some bs)"

definition files_ok :: "('c, 'r, 'd, 's, 't, 'h) driver \<Rightarrow> fs \<Rightarrow> bool" where
  "files_ok D F \<longleftrightarrow> (\<forall>tree bs. slot_get (SnapshotSlot tree) F = Some bs \<longrightarrow> exported_by D bs)"

definition disk_ok :: "('c, 'r, 'd, 's, 't, 'h) driver \<Rightarrow> node \<Rightarrow> bool" where
  "disk_ok D N \<longleftrightarrow> (\<forall>F. nd_store N = Some F \<longrightarrow> files_ok D F)"

lemma files_ok_mono:
  "files_ok D F \<Longrightarrow> (\<And>tree. slot_get (SnapshotSlot tree) G \<in> {None, slot_get (SnapshotSlot tree) F}) \<Longrightarrow> files_ok D G"
  unfolding files_ok_def by (metis insertE option.distinct(1) singletonD)

lemma snapshot_slots:
  "slot_get (SnapshotSlot t) (fst (store_redeemed P s F)) = slot_get (SnapshotSlot t) F"
  "slot_get (SnapshotSlot t) (fst (endpoint_key fresh F)) = slot_get (SnapshotSlot t) F"
  "slot_get (SnapshotSlot t) (fst (remove_workspace tree F)) \<in> {None, slot_get (SnapshotSlot t) F}"
proof -
  have put: "slot_get (SnapshotSlot t) (fst (write_private (slot_path k) bs F)) = slot_get (SnapshotSlot t) F"
    if "k \<noteq> SnapshotSlot t" for k bs
    using slots.get_put [of "SnapshotSlot t" k bs F] that by (simp add: slot_put_def)
  show "slot_get (SnapshotSlot t) (fst (store_redeemed P s F)) = slot_get (SnapshotSlot t) F"
    using put [of RedeemedSlot] by (auto simp: store_redeemed_def store_pairs_def split: option.split)
  show "slot_get (SnapshotSlot t) (fst (endpoint_key fresh F)) = slot_get (SnapshotSlot t) F"
    using put [of EndpointSlot "be_bytes 32 fresh"]
    by (auto simp: endpoint_key_def Let_def and_then_def split: sum.splits io_error.splits prod.splits)
  show "slot_get (SnapshotSlot t) (fst (remove_workspace tree F)) \<in> {None, slot_get (SnapshotSlot t) F}"
    by (auto simp: remove_workspace_def fs_remove_def slot_get_def delete_conv' split: option.splits)
qed

lemma stored_ok:
  assumes "files_ok D F" and "workspace_reachable (dv_env D) W" and "export_state D W = (W1, Inr core)"
  shows "files_ok D (fst (store_workspace (dv_store D) tree \<lparr>wr_core = core, wr_namespace = namespace\<rparr> F))"
proof (cases "sc_encode_record (dv_store D) \<lparr>wr_core = core, wr_namespace = namespace\<rparr>")
  case (Some bs)
  then have "exported_by D bs" using assms(2,3) by (auto simp: exported_by_def)
  with assms(1) slots.get_put [of _ "SnapshotSlot tree" bs F] Some show ?thesis
    by (auto simp: files_ok_def store_workspace_def slot_put_def split: if_splits)
qed (use assms in \<open>simp add: store_workspace_def\<close>)

lemma export_reachable: "workspace_reachable (dv_env D) W \<Longrightarrow> workspace_reachable (dv_env D) (fst (export_state D W))"
  by (rule workspace_reachable.stepped [OF _ export_step])

text \<open>
  The keys a running workspace uses belong to the state of the core: its secret, its member id, and the
  author it writes to the index as.
\<close>

definition own_keys :: "('c, 'r, 'd, 's, 't, 'h) driver \<Rightarrow> ('c, 'r, 'd, 's) inner \<Rightarrow> bool" where
  "own_keys D I \<longleftrightarrow> in_secret I = w_secret (in_state I)
     \<and> me (in_state I) = cc_verifying_key (e_crypto (dv_env D)) (in_signer I)
     \<and> in_author I = tr_author_id (dv_transport D) (author_seed (e_hash (dv_env D)) (w_secret (in_state I)) (me (in_state I)))"

text \<open>A running workspace is sound: its state is reachable, its keys are its own, its files are good.\<close>

definition sound :: "('c, 'r, 'd, 's, 't, 'h) driver \<Rightarrow> ('c, 'r, 'd, 's) inner \<Rightarrow> bool" where
  "sound D I \<longleftrightarrow> workspace_reachable (dv_env D) (in_state I) \<and> own_keys D I \<and> disk_ok D (in_node I)"

lemma sound_state:
  assumes "sound D I" and "workspace_step (dv_env D) (in_state I) W"
  shows "sound D (I\<lparr>in_state := W\<rparr>)"
proof -
  have "w_secret W = w_secret (in_state I)" "me W = me (in_state I)"
    using step_advances [OF assms(2)] by (simp_all add: advances_def evolves_def certs_advance_def)
  with assms workspace_reachable.stepped [OF _ assms(2)] show ?thesis by (simp add: sound_def own_keys_def)
qed

lemma sound_store:
  assumes "sound D I" and "files_ok D F"
  shows "sound D (I\<lparr>in_node := (in_node I)\<lparr>nd_store := Some F\<rparr>\<rparr>)"
  using assms by (simp add: sound_def own_keys_def disk_ok_def)

interpretation histories: driver_relation D "\<lambda>I J. sound D I \<longrightarrow> sound D J"
  for D :: "('c, 'r, 'd, 's, 't, 'h) driver"
proof unfold_locales
  fix I J :: "('c, 'r, 'd, 's) inner" and core F
  assume J: "with_state (export_state D) I = (J, Inr core)" "nd_store (in_node J) = Some F"
  have eq: "J = I\<lparr>in_state := fst (export_state D (in_state I))\<rparr>" "export_state D (in_state I) = (in_state J, Inr core)"
    using exported_state [OF J(1)] by (auto intro: prod_eqI)
  show "sound D I \<longrightarrow> sound D (J\<lparr>in_node := (in_node J)\<lparr>nd_store := Some (fst (store_workspace (dv_store D)
      (in_workspace_key J) \<lparr>wr_core = core, wr_namespace = in_doc J\<rparr> F))\<rparr>\<rparr>)"
  proof
    assume I: "sound D I"
    then have J': "sound D J" unfolding eq(1) by (rule sound_state [OF _ export_step])
    then have "files_ok D F" using J(2) by (simp add: sound_def disk_ok_def)
    then show "sound D (J\<lparr>in_node := (in_node J)\<lparr>nd_store := Some (fst (store_workspace (dv_store D)
        (in_workspace_key J) \<lparr>wr_core = core, wr_namespace = in_doc J\<rparr> F))\<rparr>\<rparr>)"
      using I eq(2) by (intro sound_store [OF J'] stored_ok) (simp_all add: sound_def)
  qed
next
  fix I :: "('c, 'r, 'd, 's) inner" and F p assume F: "nd_store (in_node I) = Some F"
  have "files_ok D F \<Longrightarrow> files_ok D (fst (store_pending_assets (dv_store D) p F))"
    by (erule files_ok_mono) (simp add: store_leaves_slots)
  with F show "sound D I \<longrightarrow> sound D (I\<lparr>in_node := (in_node I)\<lparr>nd_store :=
      Some (fst (store_pending_assets (dv_store D) p F))\<rparr>\<rparr>)"
    by (auto simp: sound_def own_keys_def disk_ok_def)
next
  fix I J K :: "('c, 'r, 'd, 's) inner" assume "sound D I \<longrightarrow> sound D J" "sound D J \<longrightarrow> sound D K"
  then show "sound D I \<longrightarrow> sound D K" by blast
qed (simp_all add: sound_state, simp_all add: sound_def own_keys_def disk_ok_def)

section \<open>Starting points\<close>

text \<open>What the three ways to a workspace hand to \<open>assemble\<close>.\<close>

definition ours :: "('c, 'r, 'd, 's, 't, 'h) driver \<Rightarrow> ('c, 'r, 'd) workspace \<Rightarrow> workspace_secret \<Rightarrow> bytes32 \<Rightarrow> bool" where
  "ours D W secret signer \<longleftrightarrow> workspace_reachable (dv_env D) W \<and> secret = w_secret W
     \<and> me W = cc_verifying_key (e_crypto (dv_env D)) signer"

lemma found_ours:
  assumes "controller_create (e_beekem E) (e_crypto E) tree signer rng = Inr K" and "found E (K\<lparr>k_rng := rng'\<rparr>) secret threshold = Inr W"
    and "E = dv_env D"
  shows "ours D W secret signer"
proof -
  have "advances E (joined (e_loro E) (K\<lparr>k_rng := rng'\<rparr>) secret (ns_epoch NAMESPACE_INITIAL)) W"
    by (rule advancing.found_leaf [OF assms(2)])
  moreover have "k_member_id K = cc_verifying_key (e_crypto E) signer"
    using assms(1) by (auto simp: controller_create_def Let_def split: prod.splits sum.splits)
  moreover have "workspace_reachable E W"
    using workspace_reachable.founded [OF controller_initial.intros(1) [OF assms(1)] assms(2)] .
  ultimately show ?thesis by (simp add: ours_def assms(3) advances_def evolves_def certs_advance_def joined_def)
qed

lemma joined_ours:
  assumes "controller_join (e_beekem E) (e_crypto E) tree signer share ops certs rng = Inr K" and "E = dv_env D"
  shows "ours D (joined (e_loro E) K secret n) secret signer"
proof -
  have "k_member_id K = cc_verifying_key (e_crypto E) signer"
    using assms(1) by (rule joined_member)
  with workspace_reachable.joined [OF controller_initial.intros(2) [OF assms(1)]] assms(2) show ?thesis
    by (simp add: ours_def joined_def)
qed

text \<open>\<open>postcard\<close> at the snapshots: what was written is read back.\<close>

definition driver_codecs_faithful :: "('c, 'r, 'd, 's, 't, 'h) driver \<Rightarrow> bool" where
  "driver_codecs_faithful D \<longleftrightarrow> codec_faithful (dv_store D)
     \<and> (\<forall>ss bs. dv_encode_snapshot D ss = Some bs \<longrightarrow> dv_decode_snapshot D bs = Some ss)"

lemma imported_reachable:
  assumes "driver_codecs_faithful D" and "files_ok D F" and "load_workspace (dv_store D) tree F = Inr (Some rec)"
    and "import_state D (wr_core rec) rng = Inr W"
  shows "workspace_reachable (dv_env D) W"
proof -
  obtain bs where bs: "slot_get (SnapshotSlot tree) F = Some bs" "sc_decode_record (dv_store D) bs = Some rec"
    using assms(3) by (auto simp: load_workspace_def fs_read_def slot_get_def split: option.splits sum.splits io_error.splits)
  from assms(2) bs(1) have "exported_by D bs" by (simp add: files_ok_def)
  then obtain V V1 core namespace where V: "workspace_reachable (dv_env D) V" "export_state D V = (V1, Inr core)"
    and "sc_encode_record (dv_store D) \<lparr>wr_core = core, wr_namespace = namespace\<rparr> = Some bs"
    by (auto simp: exported_by_def)
  then have core: "wr_core rec = core"
    using assms(1) bs(2) by (fastforce simp: driver_codecs_faithful_def codec_faithful_def)
  obtain ss where ss: "workspace_snapshot_of (dv_env D) V = (V1, Inr ss)" "dv_encode_snapshot D ss = Some core"
    using V(2) by (auto simp: export_state_def serialized_def split: option.splits elim!: and_then_InrE)
  then have "dv_decode_snapshot D core = Some ss" using assms(1) by (simp add: driver_codecs_faithful_def)
  with assms(4) have "workspace_from_snapshot (dv_env D) ss rng = Inr W"
    by (auto simp: import_state_def core serialized_def)
  with V(1) ss(1) show ?thesis by (rule workspace_reachable.restarted)
qed

lemma assembled_sound:
  assumes "assemble D W secret doc tree signer bootstrap (N, s) = (S', r)" and "ours D W secret signer" and "disk_ok D N"
  shows "disk_ok D (fst S') \<and> (\<forall>J. r = Inr J \<longrightarrow> sound D J)"
proof -
  let ?N = "N\<lparr>nd_roster := fold (add_bootstrap tree) bootstrap (nd_roster N)\<rparr>"
  have N: "disk_ok D ?N" using assms(3) by (simp add: disk_ok_def)
  then have "sound D (new_inner W doc (tr_author_id (dv_transport D) (author_seed (e_hash (dv_env D)) secret (me W)))
      secret signer tree ?N s')" for s'
    using assms(2) by (simp add: sound_def own_keys_def new_inner_def ours_def)
  with histories.assembled_keeps [OF assms(1)] N assms(3) show ?thesis
    by (auto simp: outside_of_def sound_def)
qed

lemma disk_ok_claim:
  assumes "disk_ok D N"
  shows "disk_ok D (fst (claim_invite (dv_store D) tree nonce N))"
proof -
  have "files_ok D F \<Longrightarrow> files_ok D (fst (store_redeemed (dv_store D) s F))" for F s
    by (erule files_ok_mono) (simp add: snapshot_slots)
  with assms show ?thesis by (auto simp: claim_invite_def Let_def disk_ok_def split: option.split)
qed

section \<open>The life of a device\<close>

datatype ('c, 'r, 'd, 's) device = Running "('c, 'r, 'd, 's) inner" | Stopped node 's

definition started :: "(node \<times> 's) \<times> (workspace_error + ('c, 'r, 'd, 's) inner) \<Rightarrow> ('c, 'r, 'd, 's) device" where
  "started = (\<lambda>((N, s), r). case r of Inr I \<Rightarrow> Running I | Inl _ \<Rightarrow> Stopped N s)"

lemma started_simps [simp]: "started ((N, s), Inl e) = Stopped N s" "started (S, Inr I) = Running I"
  by (auto simp: started_def split: prod.split)

text \<open>
  A process may be killed between any two operations; a write that the file system cuts short is a
  failing call of the file system. While nothing runs, the outside world is free to change.
\<close>

inductive device_step :: "('c, 'r, 'd, 's, 't, 'h) driver \<Rightarrow> ('c, 'r, 'd, 's) device \<Rightarrow> ('c, 'r, 'd, 's) device \<Rightarrow> bool" for D where
  runs: "networked_step D I J \<Longrightarrow> device_step D (Running I) (Running J)"
| stops: "device_step D (Running I) (Stopped (in_node I) (in_world I))"
| deletes: "device_step D (Running I) (Stopped (in_node (fst (delete D I))) (in_world (fst (delete D I))))"
| waits: "device_step D (Stopped N s) (Stopped N s')"
| reboots: "nd_store N = Some F \<Longrightarrow> spawn_persistent (dv_store D) bind_key start fresh F = (F', r)
    \<Longrightarrow> device_step D (Stopped N s) (Stopped (case r of Inr M \<Rightarrow> M | Inl _ \<Rightarrow> N\<lparr>nd_store := Some F'\<rparr>) s)"
| founds: "device_step D (Stopped N s) (started (create_with_quorum D who info threshold rng (N, s)))"
| joins: "device_step D (Stopped N s) (started (join D invite who rng (N, s)))"
| opens: "device_step D (Stopped N s) (started (open_workspace D tree who rng (N, s)))"

fun device_ok :: "('c, 'r, 'd, 's, 't, 'h) driver \<Rightarrow> ('c, 'r, 'd, 's) device \<Rightarrow> bool" where
  "device_ok D (Running I) = sound D I"
| "device_ok D (Stopped N s) = disk_ok D N"

lemma sound_disk: "sound D I \<Longrightarrow> disk_ok D (in_node I)"
  by (simp add: sound_def)

lemma inside_ok:
  assumes "sound D I" and "sound D (fst r)" 
  shows "device_ok D (started (inside r))"
  using assms by (auto simp: inside_def outside_of_def sound_disk split: prod.splits sum.splits)

lemma assembled_then:
  assumes "ours D W secret signer" and "disk_ok D N" and "\<And>I S. sound D I \<Longrightarrow> device_ok D (started (f I S))"
  shows "device_ok D (started (and_then (assemble D W secret doc tree signer bootstrap (N, s)) f))"
proof -
  obtain N' s' r where r: "assemble D W secret doc tree signer bootstrap (N, s) = ((N', s'), r)" by (metis surj_pair)
  from assembled_sound [OF r assms(1,2)] assms(3) show ?thesis
    by (cases r) (auto simp: r and_then_def)
qed

lemma outside_then:
  assumes "disk_ok D N" and "\<And>x s'. device_ok D (started (f x (N, s')))"
  shows "device_ok D (started (and_then (outside_io wrap g (N, s)) f))"
  using assms by (auto simp: outside_io_def and_then_def split: prod.split sum.split)

lemma result_then:
  assumes "disk_ok D N" and "\<And>x. y = Inr x \<Longrightarrow> device_ok D (started (f x (N, s)))"
  shows "device_ok D (started (and_then ((N, s), y) f))"
  using assms by (auto simp: and_then_def split: sum.split)

lemma step_sound: "networked_step D I J \<Longrightarrow> sound D I \<Longrightarrow> sound D J"
  using histories.step_keeps by blast

lemmas drive_sound = step_sound [OF networked_step.driven] and sync_sound = step_sound [OF networked_step.synced]

lemma create_ok: "disk_ok D N \<Longrightarrow> device_ok D (started (create_with_quorum D who info threshold rng (N, s)))"
  unfolding create_with_quorum_def Let_def
  by (auto intro!: result_then outside_then assembled_then inside_ok drive_sound split: prod.split)
    (rule found_ours [OF _ _ refl])

lemma join_ok:
  assumes "disk_ok D N"
  shows "device_ok D (started (join D invite who rng (N, s)))"
proof -
  obtain M ok where claim: "claim_invite (dv_store D) (it_tree_id (sg_payload invite)) (it_nonce (sg_payload invite)) N = (M, ok)"
    by fastforce
  with disk_ok_claim [OF assms] have M: "disk_ok D M" by (metis fst_conv)
  show ?thesis
    unfolding join_def Let_def
    by (auto simp: claim assms M intro!: result_then outside_then assembled_then inside_ok sync_sound
        split: prod.split bool.split) (rule joined_ours [OF _ refl])
qed

lemma synced_ok: "sound D I \<Longrightarrow> sound D (fold (\<lambda>peer I. fst (sync_with D peer I)) peers I)"
  by (induction peers arbitrary: I) (simp_all add: sync_sound)

lemma open_ok:
  assumes "disk_ok D N" and "driver_codecs_faithful D"
  shows "device_ok D (started (open_workspace D tree who rng (N, s)))"
proof (cases "nd_store N")
  case (Some F)
  then have "files_ok D F" using assms(1) by (simp add: disk_ok_def)
  have "ours D W (w_secret W) (id_signer who)" if "load_workspace (dv_store D) tree F = Inr (Some rec)"
      "import_state D (wr_core rec) rng = Inr W" "me W = identity_member_id (e_crypto (dv_env D)) who" for rec W
    using imported_reachable [OF assms(2) \<open>files_ok D F\<close> that(1,2)] that(3) by (simp add: ours_def identity_member_id_def)
  with Some assms(1) show ?thesis
    unfolding open_workspace_def Let_def
    by (auto intro!: result_then outside_then assembled_then synced_ok split: option.splits)
qed (use assms in \<open>simp add: open_workspace_def\<close>)

lemma reboot_ok:
  assumes "disk_ok D N" and "nd_store N = Some F" and "spawn_persistent (dv_store D) bind_key start fresh F = (F', r)"
  shows "disk_ok D (case r of Inr M \<Rightarrow> M | Inl _ \<Rightarrow> N\<lparr>nd_store := Some F'\<rparr>)"
proof -
  have "F' \<in> {F, fst (endpoint_key fresh F)}" "\<And>M. r = Inr M \<Longrightarrow> nd_store M = Some F'"
    using assms(3) by (auto simp: spawn_persistent_def and_then_def split: prod.splits sum.splits)
  moreover have "files_ok D F" using assms(1,2) by (simp add: disk_ok_def)
  moreover from this have "files_ok D (fst (endpoint_key fresh F))"
    by (rule files_ok_mono) (simp add: snapshot_slots)
  ultimately show ?thesis by (auto simp: disk_ok_def split: sum.split)
qed

lemma delete_ok:
  assumes "sound D I"
  shows "disk_ok D (in_node (fst (delete D I)))"
proof -
  obtain J r where J: "storage_io (tr_drop_doc (dv_transport D) (in_doc I)) I = (J, r)" by fastforce
  have "sound D J" using histories.storage_io_keeps [of D I] J assms by (metis fst_conv)
  then have d: "disk_ok D (in_node J)" by (rule sound_disk)
  have "files_ok D F \<Longrightarrow> remove_workspace tree F = (G, x) \<Longrightarrow> files_ok D G" for F G tree x
    using files_ok_mono [of D F G] snapshot_slots(3) [of _ tree F] by (metis fst_conv)
  with d show ?thesis
    by (cases r) (auto simp: delete_def J and_then_def Let_def disk_ok_def split: option.splits prod.splits)
qed

lemma device_step_ok:
  assumes "driver_codecs_faithful D"
  shows "device_step D d d' \<Longrightarrow> device_ok D d \<Longrightarrow> device_ok D d'"
  by (induction rule: device_step.induct)
    (simp_all add: step_sound sound_disk delete_ok reboot_ok create_ok join_ok open_ok assms)

section \<open>The refinement\<close>

text \<open>A device begins with no snapshot on disk.\<close>

definition blank :: "node \<Rightarrow> bool" where
  "blank N \<longleftrightarrow> (\<forall>F tree. nd_store N = Some F \<longrightarrow> slot_get (SnapshotSlot tree) F = None)"

lemma lives_ok:
  assumes "driver_codecs_faithful D" and "blank N" and "(device_step D)\<^sup>*\<^sup>* (Stopped N s) d"
  shows "device_ok D d"
  using assms(3)
proof (induction rule: rtranclp_induct)
  case base
  from assms(2) show ?case by (simp add: blank_def disk_ok_def files_ok_def)
next
  case (step d d')
  from device_step_ok [OF assms(1) step(2,3)] show ?case .
qed

text \<open>
  C2. Whatever a device does with its node, founding, joining, running, stopping at any point, restarting,
  reopening and deleting, successfully or not, the workspace it runs is in a state that the core reaches by
  its own steps and restarts, and the keys it uses belong to that state: its secret is the workspace's, its
  member id is its signer's key, and it writes to the index as the author derived from both.
\<close>

theorem device_refines_core:
  assumes "driver_codecs_faithful D" and "blank N" and "(device_step D)\<^sup>*\<^sup>* (Stopped N s) (Running I)"
  shows "workspace_reachable (dv_env D) (in_state I) \<and> in_secret I = w_secret (in_state I)
    \<and> me (in_state I) = cc_verifying_key (e_crypto (dv_env D)) (in_signer I)
    \<and> in_author I = tr_author_id (dv_transport D) (author_seed (e_hash (dv_env D)) (w_secret (in_state I)) (me (in_state I)))"
  using lives_ok [OF assms] by (simp add: sound_def own_keys_def)

end
