(* ===== verification/Networked_Properties.thy ===== *)
theory Networked_Properties
  imports Device_Life Workspace_Properties
begin

text \<open>
  Properties of the networked workspace that span its parts: what an acknowledged call leaves on disk, which
  entries of the index reach the core, what an invitation admits, and what the workspaces of one node share.
\<close>

section \<open>Acknowledged calls\<close>

lemma is_ok_iff: "is_ok r \<longleftrightarrow> (\<exists>x. r = Inr x)"
  by (cases r) simp_all

definition healthy :: "fs \<Rightarrow> bool" where
  "healthy F \<longleftrightarrow> fs_fault F = (\<lambda>call p. None)"

lemma write_private_ok: "healthy F \<Longrightarrow> is_ok (snd (write_private p bs F))"
  by (simp add: healthy_def write_private_def Let_def fs_write_def fs_set_permissions_def fs_rename_def fs_simps update_conv')

text \<open>What a document library promises beyond \<open>snapshots_restore\<close>: exports succeed and change no text.\<close>

definition exports_work :: "'d loro \<Rightarrow> bool" where
  "exports_work L \<longleftrightarrow> (\<forall>d. is_ok (snd (lo_export L Snapshot (lo_commit L d)))
     \<and> lo_text L (fst (lo_export L Snapshot (lo_commit L d))) = lo_text L d)"

lemma snapshot_docs_work:
  assumes "exports_work L" and "\<forall>(doc, d) \<in> set ds. w_docs W doc = Some d" and "distinct (map fst ds)"
  shows "is_ok (snd (snapshot_docs L ds W)) \<and> (\<exists>f. fst (snapshot_docs L ds W) = W\<lparr>w_docs := f\<rparr>
    \<and> dom f = dom (w_docs W) \<and> (\<forall>doc. map_option (lo_text L) (f doc) = map_option (lo_text L) (w_docs W doc)))"
  using assms(2,3)
proof (induction ds arbitrary: W)
  case Nil
  then show ?case by (auto intro: exI [of _ "w_docs W"])
next
  case (Cons a ds)
  obtain doc d where a: "a = (doc, d)" by fastforce
  obtain d' bs where e: "lo_export L Snapshot (lo_commit L d) = (d', Inr bs)" "lo_text L d' = lo_text L d"
    using assms(1) [unfolded exports_work_def, rule_format, of d]
    by (cases "lo_export L Snapshot (lo_commit L d)") (auto simp: is_ok_iff)
  let ?W = "set_doc doc d' W"
  have W: "w_docs ?W = (w_docs W)(doc \<mapsto> d')" by (simp add: set_doc_def)
  have "\<forall>(doc, d) \<in> set ds. w_docs ?W doc = Some d"
    using Cons.prems by (force simp: a W)
  with Cons.IH [of ?W] Cons.prems(2) obtain f where f: "is_ok (snd (snapshot_docs L ds ?W))"
    "fst (snapshot_docs L ds ?W) = ?W\<lparr>w_docs := f\<rparr>" "dom f = dom (w_docs ?W)"
    "\<forall>doc. map_option (lo_text L) (f doc) = map_option (lo_text L) (w_docs ?W doc)"
    by auto
  obtain rest where rest: "snapshot_docs L ds ?W = (?W\<lparr>w_docs := f\<rparr>, Inr rest)"
    using f(1,2) by (cases "snapshot_docs L ds ?W") (auto simp: is_ok_iff)
  show ?case
    using f(3,4) Cons.prems(1) e(2) rest
    by (auto simp: a snapshot_doc_def e set_doc_def intro!: exI [of _ f])
qed

lemma snapshot_works:
  assumes "exports_work (e_loro E)" and "finite (dom (w_docs W))"
  shows "\<exists>W1 ss. workspace_snapshot_of E W = (W1, Inr ss) \<and> w_cgka W1 = w_cgka W \<and> w_secret W1 = w_secret W
    \<and> w_namespace W1 = w_namespace W \<and> w_last_ref W1 = w_last_ref W \<and> w_published_up_to W1 = w_published_up_to W
    \<and> dom (w_docs W1) = dom (w_docs W) \<and> (\<forall>doc. document_text (e_loro E) doc W1 = document_text (e_loro E) doc W)"
proof -
  let ?L = "e_loro E"
  have "\<forall>(doc, d) \<in> set (sorted_entries (w_docs W)). w_docs W doc = Some d"
    using assms(2) by (auto simp: sorted_entries_def)
  moreover have "distinct (map fst (sorted_entries (w_docs W)))" by (simp add: sorted_entries_keys)
  ultimately obtain f where f: "is_ok (snd (snapshot_docs ?L (sorted_entries (w_docs W)) W))"
    "fst (snapshot_docs ?L (sorted_entries (w_docs W)) W) = W\<lparr>w_docs := f\<rparr>" "dom f = dom (w_docs W)"
    "\<forall>doc. map_option (lo_text ?L) (f doc) = map_option (lo_text ?L) (w_docs W doc)"
    using snapshot_docs_work [OF assms(1)] by blast
  then obtain docs where docs: "snapshot_docs ?L (sorted_entries (w_docs W)) W = (W\<lparr>w_docs := f\<rparr>, Inr docs)"
    by (cases "snapshot_docs ?L (sorted_entries (w_docs W)) W") (auto simp: is_ok_iff)
  obtain d bs where m: "lo_export ?L Snapshot (lo_commit ?L (w_manifest W)) = (d, Inr bs)"
    using assms(1) [unfolded exports_work_def, rule_format, of "w_manifest W"]
    by (cases "lo_export ?L Snapshot (lo_commit ?L (w_manifest W))") (auto simp: is_ok_iff)
  have "document_text ?L doc (W\<lparr>w_docs := f, w_manifest := d\<rparr>) = document_text ?L doc W" for doc
    using f(4) [rule_format, of doc] by (cases "f doc"; cases "w_docs W doc") (auto simp: document_text_def)
  then show ?thesis
    using f(3) by (simp add: workspace_snapshot_of_def docs on_manifest_def export_snapshot_def m)
qed

lemma persist_state:
  "nd_store (in_node (persist D I)) \<noteq> None \<Longrightarrow> in_state (persist D I) = fst (workspace_snapshot_of (dv_env D) (in_state I))"
  by (auto simp: persist_def with_state_def export_state_def with_store_def and_then_def split: if_splits prod.splits sum.splits option.splits)

lemma persist_stores:
  assumes "nd_store (in_node J) = Some F" and "J = persist D I" and "healthy F" and "driver_codecs_faithful D"
    and "dv_encode_snapshot D ss \<noteq> None" and "\<forall>rec. sc_encode_record (dv_store D) rec \<noteq> None"
    and "workspace_snapshot_of (dv_env D) (in_state I) = (W1, Inr ss)"
  shows "in_state J = W1 \<and> in_doc J = in_doc I \<and> in_workspace_key J = in_workspace_key I
    \<and> (\<exists>rec. load_workspace (dv_store D) (in_workspace_key J) F = Inr (Some rec) \<and> wr_namespace rec = in_doc J
        \<and> (\<forall>rng. import_state D (wr_core rec) rng = workspace_from_snapshot (dv_env D) ss rng))"
proof -
  obtain core where core: "dv_encode_snapshot D ss = Some core" using assms(5) by blast
  let ?rec = "\<lparr>wr_core = core, wr_namespace = in_doc I\<rparr>"
  obtain G where G: "nd_store (in_node I) = Some G"
    using assms(1,2) by (cases "nd_store (in_node I)") (auto simp: persist_def)
  have J: "J = I\<lparr>in_state := W1, in_node := (in_node I)\<lparr>nd_store := Some (fst (store_workspace (dv_store D) (in_workspace_key I) ?rec G))\<rparr>\<rparr>"
    using assms(2,7) core G by (simp add: persist_def with_state_def export_state_def serialized_def with_store_def)
  then have F: "F = fst (store_workspace (dv_store D) (in_workspace_key I) ?rec G)" using assms(1) by simp
  obtain bs where bs: "sc_encode_record (dv_store D) ?rec = Some bs" using assms(6) by blast
  have fault: "fs_fault F = fs_fault G"
    using write_private_atomic [OF tmp_is_no_slot, of "SnapshotSlot (in_workspace_key I)" bs G] F bs
    by (cases "write_private (workspace_path (in_workspace_key I)) bs G") (auto simp: store_workspace_def)
  then have "is_ok (snd (write_private (workspace_path (in_workspace_key I)) bs G))"
    using assms(3) by (intro write_private_ok) (simp add: healthy_def)
  then have "is_ok (snd (store_workspace (dv_store D) (in_workspace_key I) ?rec G))" by (simp add: store_workspace_def bs)
  then have "store_workspace (dv_store D) (in_workspace_key I) ?rec G = (F, snd (store_workspace (dv_store D) (in_workspace_key I) ?rec G))"
    by (simp add: F)
  from snapshot_survives [OF _ this, of "in_workspace_key I"] assms(3,4) fault \<open>is_ok (snd (store_workspace _ _ _ G))\<close>
  have "load_workspace (dv_store D) (in_workspace_key I) F = Inr (Some ?rec)"
    by (simp add: driver_codecs_faithful_def healthy_def)
  moreover have "import_state D core rng = workspace_from_snapshot (dv_env D) ss rng" for rng
    using assms(4) core by (simp add: import_state_def driver_codecs_faithful_def serialized_def)
  ultimately show ?thesis by (simp add: J)
qed

text \<open>A call that succeeds ends with the snapshot of a state that the core reached.\<close>

lemma drive_persists:
  assumes "drive D ev I = (J, Inr ())" and "workspace_reachable (dv_env D) (in_state I)"
  shows "\<exists>J0. J = persist D J0 \<and> workspace_reachable (dv_env D) (in_state J0)"
proof -
  obtain I1 effects where feed: "feed D ev I = (I1, Inr effects)"
    and J: "J = persist D (if moves_membership ev then refresh_roster D (perform D effects I1) else perform D effects I1)"
    using assms(1) by (auto simp: drive_def Let_def split: prod.splits sum.splits)
  have "(workspace_step (dv_env D))\<^sup>*\<^sup>* (in_state I) (in_state I1)"
    using core_steps.feed_keeps [of D I ev] feed by simp
  moreover have "(workspace_step (dv_env D))\<^sup>*\<^sup>* (in_state I1) (in_state (perform D effects I1))"
    by (rule core_steps.perform_keeps)
  ultimately have "(workspace_step (dv_env D))\<^sup>*\<^sup>* (in_state I) (in_state (perform D effects I1))" by (rule rtranclp_trans)
  then have "workspace_reachable (dv_env D) (in_state (perform D effects I1))"
    using assms(2) by (induction rule: rtranclp_induct) (auto intro: workspace_reachable.stepped)
  moreover have "in_state (refresh_roster D I2) = in_state I2" for I2 by (simp add: refresh_roster_def)
  ultimately show ?thesis using J by (metis (full_types))
qed


section \<open>What reaches the core\<close>

text \<open>
  C17. Only entries of writers reach the core: every chunk of a document that is fetched from the index was
  decoded from the bytes of an entry whose author is this device or a device whose user may write, whatever
  else the index holds under the key.
\<close>

theorem only_writers_ingested:
  assumes "fetch_entries D key True entries I = (J, chunks)"
  shows "\<forall>ch \<in> set chunks. \<exists>entry \<in> set entries. \<exists>s bs.
      (ie_author entry = in_author I \<or> author_may_write (e_loro (dv_env D)) (ie_author entry) (in_state I))
      \<and> snd (tr_get_bytes (dv_transport D) (ie_hash entry) s) = Inr bs \<and> decode_chunk (dv_wire D) bs = Inr ch"
  using assms
proof (induction entries arbitrary: I J chunks)
  case (Cons e es)
  let ?ok = "\<lambda>e I. ie_author e = in_author I \<or> author_may_write (e_loro (dv_env D)) (ie_author e) (in_state I)"
  let ?from = "\<lambda>e ch. \<exists>s bs. snd (tr_get_bytes (dv_transport D) (ie_hash e) s) = Inr bs \<and> decode_chunk (dv_wire D) bs = Inr ch"
  have rest: "\<forall>ch \<in> set cs. \<exists>e \<in> set es. ?ok e I \<and> ?from e ch"
    if "fetch_entries D key True es I' = (J', cs)" "in_state I' = in_state I" "in_author I' = in_author I" for I' J' cs
    using Cons.IH [OF that(1)] that(2,3) by auto
  show ?case
  proof (cases "\<not> accepts_author D True (ie_author e) I \<or> in_seen I (key, ie_author e) = Some (ie_hash e)")
    case True
    with Cons.prems rest [of I J chunks] show ?thesis by auto
  next
    case False
    obtain s r where r: "tr_get_bytes (dv_transport D) (ie_hash e) (in_world I) = (s, r)" by fastforce
    show ?thesis
    proof (cases "\<exists>bs ch. r = Inr bs \<and> decode_chunk (dv_wire D) bs = Inr ch")
      case True
      then obtain bs ch where ch: "r = Inr bs" "decode_chunk (dv_wire D) bs = Inr ch" by blast
      obtain I' cs where cs: "fetch_entries D key True es (I\<lparr>in_world := s, in_seen := (in_seen I)((key, ie_author e) \<mapsto> ie_hash e)\<rparr>) = (I', cs)"
        by fastforce
      have "chunks = ch # cs" using Cons.prems False ch cs r by (auto simp: local_bytes_def io_def)
      moreover have "?from e ch" using r ch by (metis snd_conv)
      moreover have "?ok e I" using False by (simp add: accepts_author_def)
      ultimately show ?thesis using rest [OF cs] by auto
    next
      case False
      then have "fetch_entries D key True es (I\<lparr>in_world := s\<rparr>) = (J, chunks)"
        using Cons.prems \<open>\<not> (\<not> accepts_author D True (ie_author e) I \<or> _)\<close> r
        by (auto simp: local_bytes_def io_def split: sum.splits)
      from rest [OF this] show ?thesis by auto
    qed
  qed
qed simp

section \<open>Invitations\<close>

lemma build_inviteE:
  assumes "build_invite D invitee r I = (J, Inr invite)"
  obtains terms secs where "ic_sign (dv_invites D) (in_signer I) terms = Inr invite"
    and "it_domain terms = INVITE_DOMAIN" and "it_tree_id terms = in_workspace_key I" and "it_invitee terms = invitee"
    and "it_workspace_secret terms = in_secret I" and "it_certs terms = certificates (capabilities (in_state I))"
    and "it_not_after terms = sat_add secs INVITE_LIFETIME_SECS" and "\<exists>s. snd (tr_unix (dv_transport D) s) = Some secs"
proof -
  let ?T = "dv_transport D" and ?mode = "if can_write r then ShareWrite else ShareRead"
  obtain ops I1 ticket I2 nonce not_after where
    1: "storage_io (tr_share ?T ?mode (in_doc I)) I = (I1, Inr ticket)"
    and m: "map_prod (\<lambda>I. I) (map_err InviteFailure) (io (terms_now (tr_random16 ?T) (tr_unix ?T)) I1) = (I2, Inr (nonce, not_after))"
    and 3: "invite_sign (dv_invites D)
       \<lparr>it_domain = INVITE_DOMAIN, it_tree_id = in_workspace_key I2, it_invitee = invitee, it_not_after = not_after,
        it_nonce = nonce, it_epoch = ns_epoch (w_namespace (in_state I)), it_doc_ticket = ticket,
        it_workspace_secret = in_secret I2, it_log = ops, it_certs = certificates (capabilities (in_state I)),
        it_inviter = nd_endpoint (in_node I2)\<rparr> (in_signer I2) = Inr invite"
    using assms unfolding build_invite_def Let_def
    by (elim and_then_InrE) (auto split: prod.splits elim!: and_then_InrE)
  from m have 2: "io (terms_now (tr_random16 ?T) (tr_unix ?T)) I1 = (I2, Inr (nonce, not_after))"
    by (cases "io (terms_now (tr_random16 ?T) (tr_unix ?T)) I1") auto
  obtain s1 where I1: "I1 = I\<lparr>in_world := s1\<rparr>"
    using 1 by (auto simp: storage_io_def io_def split: prod.splits)
  obtain s2 where I2: "I2 = I1\<lparr>in_world := s2\<rparr>" using 2 by (auto simp: io_def split: prod.splits)
  obtain s3 s4 secs where clock: "tr_unix ?T s3 = (s4, Some secs)" "not_after = sat_add secs INVITE_LIFETIME_SECS"
    using 2 by (auto simp: io_def terms_now_def unix_now_def split: prod.splits option.splits)
  have "snd (tr_unix ?T s3) = Some secs" by (simp add: clock(1))
  with 3 show ?thesis by (intro that) (auto simp: I1 I2 invite_sign_def clock(2))
qed

text \<open>
  C22. An invitation that an administrator's device mints is accepted from the device it names, and from no
  other, until it expires an hour after it was minted; it carries the workspace's own tree, secret and
  certificates. The signature scheme verifies what it signed, and the administrator's store is well formed.
\<close>

theorem minted_invite_accepted:
  assumes "build_invite D invitee r I = (J, Inr invite)" and "signatures_hold (dv_invites D) (e_crypto (dv_env D))"
    and "may_administer (capabilities (in_state I)) (cc_verifying_key (e_crypto (dv_env D)) (in_signer I))"
    and "store_wf (e_crypto (dv_env D)) (capabilities (in_state I))"
    and "inj_on (cc_digest (e_crypto (dv_env D))) (set (certificates (capabilities (in_state I))))"
    and "cs_founder (capabilities (in_state I)) = in_workspace_key I"
  shows "invite_verify (dv_invites D) (e_crypto (dv_env D)) who now invite
      = (if who \<noteq> invitee then Inl InviteWrongInvitee
         else if now \<le> it_not_after (sg_payload invite) then Inr ()
         else Inl (InviteExpired (it_not_after (sg_payload invite)) now))
    \<and> it_tree_id (sg_payload invite) = in_workspace_key I \<and> it_workspace_secret (sg_payload invite) = in_secret I
    \<and> it_certs (sg_payload invite) = certificates (capabilities (in_state I))
    \<and> (\<exists>s secs. snd (tr_unix (dv_transport D) s) = Some secs
        \<and> unat (it_not_after (sg_payload invite)) = min (unat secs + 3600) (2 ^ 64 - 1))"
proof -
  let ?X = "e_crypto (dv_env D)" and ?S = "capabilities (in_state I)"
  obtain terms secs where terms: "ic_sign (dv_invites D) (in_signer I) terms = Inr invite"
    and fields: "it_domain terms = INVITE_DOMAIN" "it_tree_id terms = in_workspace_key I" "it_invitee terms = invitee"
      "it_workspace_secret terms = in_secret I" "it_certs terms = certificates ?S" "it_not_after terms = sat_add secs INVITE_LIFETIME_SECS"
      "\<exists>s. snd (tr_unix (dv_transport D) s) = Some secs"
    using build_inviteE [OF assms(1)] by blast
  have sg: "ic_verify (dv_invites D) invite" "sg_payload invite = terms" "sg_issuer invite = cc_verifying_key ?X (in_signer I)"
    using assms(2) terms by (auto simp: signatures_hold_def)
  have "fst (store_extend ?X (it_certs terms) (capability_store_new (it_tree_id terms))) = ?S"
    using rebuilt_store [OF assms(4,5)] by (simp add: fields assms(6))
  moreover have "unat (sat_add secs INVITE_LIFETIME_SECS) = min (unat secs + 3600) (2 ^ 64 - 1)"
    by (simp add: unat_sat_add INVITE_LIFETIME_SECS_def)
  moreover obtain s where "snd (tr_unix (dv_transport D) s) = Some secs" using fields(7) ..
  ultimately show ?thesis using assms(3) sg fields(1-6)
    by (intro conjI exI [of _ s] exI [of _ secs]) (auto simp: invite_verify_def Let_def)
qed

text \<open>What a successful join passed through.\<close>

lemma joinE:
  assumes "join D invite who rng (N, s) = (S', Inr I)"
  obtains s1 now M K S1 doc S2 J where
    "tr_unix (dv_transport D) s = (s1, Some now)"
    and "invite_verify (dv_invites D) (e_crypto (dv_env D)) (identity_member_id (e_crypto (dv_env D)) who) now invite = Inr ()"
    and "claim_invite (dv_store D) (it_tree_id (sg_payload invite)) (it_nonce (sg_payload invite)) N = (M, True)"
    and "controller_join (e_beekem (dv_env D)) (e_crypto (dv_env D)) (it_tree_id (sg_payload invite)) (id_signer who)
           (id_share_secret who) (it_log (sg_payload invite)) (it_certs (sg_payload invite)) rng = Inr K"
    and "assemble D (joined (e_loro (dv_env D)) K (it_workspace_secret (sg_payload invite)) (it_epoch (sg_payload invite)))
           (it_workspace_secret (sg_payload invite)) doc (it_tree_id (sg_payload invite)) (id_signer who)
           [it_inviter (sg_payload invite)] (M, S1) = (S2, Inr J)"
    and "sync_with D (it_inviter (sg_payload invite)) J = (I, Inr ())"
  using assms unfolding join_def Let_def
  by (auto simp: unix_now_def outside_io_def inside_def elim!: and_then_InrE
      split: prod.splits option.splits bool.splits if_splits sum.splits)

lemma claimed_fresh:
  "claim_invite P tree nonce N = (M, True) \<Longrightarrow> (tree, nonce) \<notin> nd_redeemed N \<and> nd_redeemed M = insert (tree, nonce) (nd_redeemed N)"
  by (auto simp: claim_invite_def Let_def split: if_splits option.splits)

lemma redeemed_refuses:
  assumes "(it_tree_id (sg_payload invite), it_nonce (sg_payload invite)) \<in> nd_redeemed N"
  shows "\<not> is_ok (snd (join D invite who rng (N, s)))"
proof
  assume "is_ok (snd (join D invite who rng (N, s)))"
  then obtain S' I where "join D invite who rng (N, s) = (S', Inr I)" by (metis is_ok_iff prod.collapse)
  then obtain M where "claim_invite (dv_store D) (it_tree_id (sg_payload invite)) (it_nonce (sg_payload invite)) N = (M, True)"
    by (rule joinE)
  with claimed_fresh assms show False by metis
qed

lemma steps_advance: "(workspace_step E)\<^sup>*\<^sup>* W W' \<Longrightarrow> advances E W W'"
proof (induction rule: rtranclp_induct)
  case (step V W')
  from advancing.trans [OF step(3) step_advances [OF step(2)]] show ?case .
qed (rule advancing.refl)

text \<open>The workspace of a join that succeeded has advanced from the one the invitation describes.\<close>

lemma join_starts:
  assumes "join D invite who rng (N, s) = (S', Inr I)"
  obtains K where
    "controller_join (e_beekem (dv_env D)) (e_crypto (dv_env D)) (it_tree_id (sg_payload invite)) (id_signer who)
       (id_share_secret who) (it_log (sg_payload invite)) (it_certs (sg_payload invite)) rng = Inr K"
    and "advances (dv_env D) (joined (e_loro (dv_env D)) K (it_workspace_secret (sg_payload invite)) (it_epoch (sg_payload invite))) (in_state I)"
    and "in_workspace_key I = it_tree_id (sg_payload invite)" and "in_secret I = it_workspace_secret (sg_payload invite)"
    and "nd_redeemed (in_node I) = insert (it_tree_id (sg_payload invite), it_nonce (sg_payload invite)) (nd_redeemed N)"
  using assms
proof (cases rule: joinE)
  case (1 s1 now M K S1 doc S2 J)
  let ?terms = "sg_payload invite"
  let ?W = "joined (e_loro (dv_env D)) K (it_workspace_secret ?terms) (it_epoch ?terms)"
  have "same_device J I" "(workspace_step (dv_env D))\<^sup>*\<^sup>* (in_state J) (in_state I)"
    using device.step_keeps [OF networked_step.synced] core_steps.step_keeps [OF networked_step.synced] 1(6)
    by (metis fst_conv)+
  moreover from device.assembled_keeps [OF 1(5)] have "in_workspace_key J = it_tree_id ?terms"
      "in_secret J = it_workspace_secret ?terms" "nd_redeemed (in_node J) = nd_redeemed M"
    by (auto simp: same_device_def new_inner_def)
  moreover from core_steps.assembled_keeps [OF 1(5)] have "(workspace_step (dv_env D))\<^sup>*\<^sup>* ?W (in_state J)"
    by (auto simp: new_inner_def)
  ultimately show thesis
    using steps_advance [OF rtranclp_trans] claimed_fresh [OF 1(3)] 1(4) by (intro that) (auto simp: same_device_def)
qed

text \<open>
  C15. A ticket admits once: a join that succeeds was verified for this very identity at the time the clock
  showed, its nonce had not been redeemed on this node and is redeemed now, so that no further join on this
  node with that ticket succeeds, whoever tries. The workspace is the ticket's, under the joiner's own key.
\<close>

theorem join_redeems_once:
  assumes "join D invite who rng (N, s) = (S', Inr I)"
  shows "(\<exists>now. snd (tr_unix (dv_transport D) s) = Some now
      \<and> invite_verify (dv_invites D) (e_crypto (dv_env D)) (identity_member_id (e_crypto (dv_env D)) who) now invite = Inr ())
    \<and> (it_tree_id (sg_payload invite), it_nonce (sg_payload invite)) \<notin> nd_redeemed N
    \<and> (\<forall>who' rng' s'. \<not> is_ok (snd (join D invite who' rng' (in_node I, s'))))
    \<and> in_workspace_key I = it_tree_id (sg_payload invite) \<and> in_secret I = it_workspace_secret (sg_payload invite)
    \<and> me (in_state I) = identity_member_id (e_crypto (dv_env D)) who"
proof -
  from assms obtain now where now: "snd (tr_unix (dv_transport D) s) = Some now"
      "invite_verify (dv_invites D) (e_crypto (dv_env D)) (identity_member_id (e_crypto (dv_env D)) who) now invite = Inr ()"
      "(it_tree_id (sg_payload invite), it_nonce (sg_payload invite)) \<notin> nd_redeemed N"
    by (cases rule: joinE) (auto dest: claimed_fresh)
  from assms show ?thesis
  proof (cases rule: join_starts)
    case (1 K)
    have "me (in_state I) = identity_member_id (e_crypto (dv_env D)) who"
      using 1(2) joined_member [OF 1(1)] by (simp add: advances_def evolves_def joined_def identity_member_id_def)
    moreover have "\<not> is_ok (snd (join D invite who' rng' (in_node I, s')))" for who' rng' s'
      using 1(5) by (intro redeemed_refuses) simp
    ultimately show ?thesis using now 1(3,4) by auto
  qed
qed

section \<open>Neighbours\<close>


end
