(* ===== verification/Peers.thy ===== *)
theory Peers
  imports Networked_Properties
begin

text \<open>
  What two devices of one workspace agree on. Whatever each of them has been through, their certificate
  stores are well formed and forget nothing, so the same certificates give the same answers; and when each
  has received the log that the other sends to a new neighbour, both have the same certificates.
\<close>

section \<open>What leaves the certificates alone\<close>

lemma on_cgka_certs [simp]: "capabilities (fst (on_cgka f W)) = k_certs (fst (f (w_cgka W)))"
  by (simp add: on_cgka_def split: prod.split)

lemma controller_certs [simp]:
  "k_certs (membership_change p K) = k_certs K" "k_certs (park a K) = k_certs K"
  "k_certs (fst (decrypt B ch K)) = k_certs K" "k_certs (fst (remove_member B m K)) = k_certs K"
  by (cases p; simp)
    (auto simp: park_def decrypt_def remove_member_def Let_def split: prod.split sum.split option.split)

lemma merge_verified_certs [simp]: "k_certs (fst (merge_verified B a K)) = k_certs K"
  by (auto simp: merge_verified_def Let_def split: sum.split prod.split bool.split cgka_error.split)

lemma merge_bare_certs [simp]: "k_certs (fst (merge B X (bare op) K)) = k_certs K"
  by (simp add: merge_def bare_def store_extend_def)

lemma pending_fold_certs: "k_certs (fst (fold (pending_step B) ops st)) = k_certs (fst st)"
proof (induction ops arbitrary: st)
  case (Cons op ops)
  have "k_certs (fst (pending_step B op st)) = k_certs (fst st)"
    by (metis merge_verified_certs pending_step_controller prod.collapse)
  with Cons show ?case by simp
qed simp

lemma merge_pending_certs [simp]: "k_certs (fst (merge_pending B K)) = k_certs K"
proof -
  have "k_certs (fst (pending_loop B (K, 0, None))) = k_certs K"
  proof (rule pending_settles.loop_inv [where P = "\<lambda>st. k_certs (fst st) = k_certs K"])
    fix st :: "('a, 'b) controller \<times> nat \<times> core_error option"
    assume "k_certs (fst st) = k_certs K"
    moreover obtain K' n e where "st = (K', n, e)" by (metis surj_pair)
    ultimately show "k_certs (fst (fst (pending_round B st))) = k_certs K"
      using pending_fold_certs [of B "k_parked K'" "(K'\<lparr>k_parked := []\<rparr>, n, e)"]
      by (auto simp: pending_round_def Let_def split: prod.split)
  qed simp
  then show ?thesis by (auto simp: merge_pending_def split: prod.splits option.splits)
qed

lemma try_apply_certs [simp]: "capabilities (fst (try_apply E doc ch W)) = capabilities W"
proof -
  obtain V r where r: "on_cgka (decrypt (e_beekem E) ch) W = (V, r)" by fastforce
  then have "capabilities V = capabilities W" by (metis controller_certs(3) fst_conv on_cgka_certs)
  with r show ?thesis
    by (auto simp: try_apply_def set_doc_def split: sum.split decrypt_outcome.split prod.split bool.split)
qed

lemma drain_fold_certs: "capabilities (fst (fold (drain_step E) ps st)) = capabilities (fst st)"
proof (induction ps arbitrary: st)
  case (Cons p ps)
  have "capabilities (fst (drain_step E p st)) = capabilities (fst st)"
    using try_apply_certs [of E "pk_doc p" "pk_chunk p" "fst st"]
    by (cases st; cases "try_apply E (pk_doc p) (pk_chunk p) (fst st)"; cases "snd (try_apply E (pk_doc p) (pk_chunk p) (fst st))")
      (auto simp: drain_step_def Let_def enqueue_def)
  with Cons show ?case by simp
qed simp

lemma drain_pending_certs [simp]: "capabilities (fst (drain_pending E W)) = capabilities W"
proof -
  have "capabilities (fst (drain_loop E (W, []))) = capabilities W"
  proof (rule drain_settles.loop_inv [where P = "\<lambda>st. capabilities (fst st) = capabilities W"])
    fix st :: "('a, 'b, 'c) workspace \<times> effect list"
    assume "capabilities (fst st) = capabilities W"
    then show "capabilities (fst (fst (drain_round E st))) = capabilities W"
      using drain_fold_certs [of E "w_pending_chunks (fst st)" "((fst st)\<lparr>w_pending_chunks := [], w_pending_bytes := 0\<rparr>, snd st, 0)"]
      by (cases st) (auto simp: drain_round_def split: prod.split)
  qed simp
  then show ?thesis by (cases "drain_loop E (W, [])") (simp add: drain_pending_def)
qed

lemma perform_removal_certs: "capabilities (fst (perform_removal E m W)) = capabilities W"
proof -
  obtain V r where r: "on_cgka (remove_member (e_beekem E) m) W = (V, r)" by fastforce
  then have "capabilities V = capabilities W" by (metis controller_certs(4) fst_conv on_cgka_certs)
  with r show ?thesis
    by (auto simp: perform_removal_def Let_def check_def and_then_def split: sum.split option.split)
qed

lemma quorum_step_certs: "capabilities (fst (quorum_step E a st)) = capabilities (fst st)"
proof -
  obtain digest action W effects where eqs: "a = (digest, action)" "st = (W, effects)" by (metis surj_pair)
  show ?thesis
  proof (cases action)
    case (RemoveMember target)
    obtain V r where r: "perform_removal E target W = (V, r)" by fastforce
    then have "capabilities V = capabilities W" by (metis fst_conv perform_removal_certs)
    with r RemoveMember show ?thesis
      by (auto simp: eqs quorum_step_def mark_executed_def member_from_bytes_def split: sum.split)
  qed (simp add: eqs quorum_step_def mark_executed_def)
qed

lemma run_quorum_actions_certs [simp]: "capabilities (fst (run_quorum_actions E W)) = capabilities W"
proof -
  have "capabilities (fst (fold (quorum_step E) as st)) = capabilities (fst st)" for as st
    by (induction as arbitrary: st) (simp_all add: quorum_step_certs)
  then show ?thesis by (simp add: run_quorum_actions_def)
qed

section \<open>What a log adds\<close>

lemma certs_then: "capabilities (fst r) = S \<Longrightarrow> (\<And>x V. capabilities V = S \<Longrightarrow> capabilities (fst (k x V)) = S)
    \<Longrightarrow> capabilities (fst (and_then r k)) = S"
  by (cases rule: and_then_cases [of r k]) auto

lemma on_certs_arrived_certs:
  "capabilities (fst (on_certs_arrived E certs W)) = fst (store_extend (e_crypto E) certs (capabilities W))"
proof -
  obtain K n where a: "absorb_certificates (e_crypto E) certs (w_cgka W) = (K, n)" by fastforce
  then have K: "k_certs K = fst (store_extend (e_crypto E) certs (capabilities W))"
    using absorb_fields(6) [of "e_crypto E" certs "w_cgka W"] by simp
  have quorum: "capabilities (fst (case run_quorum_actions E V of (V, rest) \<Rightarrow> (V, Inr (effects @ rest)))) = capabilities V"
    for V and effects :: "effect list"
    using run_quorum_actions_certs [of E V] by (cases "run_quorum_actions E V") simp
  show ?thesis
    unfolding on_certs_arrived_def a prod.case Let_def
    by (intro certs_then) (auto simp: K quorum intro!: certs_then)
qed

lemma on_control_op_certs: "capabilities (fst (on_control_op E (bare op) W)) = capabilities W"
  unfolding on_control_op_def by (intro certs_then) (auto intro!: certs_then)

lemma log_ops_certs: "capabilities (fst (log_ops E now ops effects W)) = capabilities W"
proof (induction ops arbitrary: effects W)
  case (Cons op ops)
  obtain V r where r: "on_control_op E (bare op) W = (V, r)" by fastforce
  then have "capabilities V = capabilities W" by (metis fst_conv on_control_op_certs)
  with Cons r show ?case by (cases r) simp_all
qed simp

lemma log_certs:
  assumes "length ops \<le> MAX_LOG_OPS" and "length certs \<le> MAX_LOG_CERTS"
  shows "capabilities (fst (on_control E now (MsgLog ops certs) W)) = fst (store_extend (e_crypto E) certs (capabilities W))"
proof -
  have "capabilities (fst (case log_ops E now ops effects V of (V, effects) \<Rightarrow> (V, Inr effects :: effect list core_result)))
      = capabilities V" for V effects
    using log_ops_certs [of E now ops effects V] by (cases "log_ops E now ops effects V") simp
  then show ?thesis
    using assms on_certs_arrived_certs [of E certs W]
    by (auto simp: refuse_oversized_def check_def intro!: certs_then)
qed

section \<open>Agreement\<close>

text \<open>
  C4. Devices agree on what they know. Take two devices of one founder's workspace, each after any life of
  its own: founding or joining, running, failing, being stopped and restarted, receiving whatever the
  network delivers. If they hold the same certificates, in whatever order those came, their stores are equal:
  who owns which device, who has which role, which proposals are executed and which quorum is required.
\<close>

theorem devices_agree:
  assumes "driver_codecs_faithful D" and "blank N" and "(device_step D)\<^sup>*\<^sup>* (Stopped N s) (Running I)"
    and "driver_codecs_faithful D'" and "blank N'" and "(device_step D')\<^sup>*\<^sup>* (Stopped N' s') (Running I')"
    and "e_crypto (dv_env D') = e_crypto (dv_env D)" and "collision_free (e_crypto (dv_env D))"
    and "cs_founder (capabilities (in_state I)) = cs_founder (capabilities (in_state I'))"
    and "set (certificates (capabilities (in_state I))) = set (certificates (capabilities (in_state I')))"
  shows "capabilities (in_state I) = capabilities (in_state I')"
proof -
  have "workspace_reachable (dv_env D) (in_state I)" "workspace_reachable (dv_env D') (in_state I')"
    using lives_ok [OF assms(1-3)] lives_ok [OF assms(4-6)] by (simp_all add: sound_def)
  with reachable_store_wf assms(7,8) have "store_wf (e_crypto (dv_env D)) (capabilities (in_state I))"
    "store_wf (e_crypto (dv_env D)) (capabilities (in_state I'))"
    by metis+
  then show ?thesis using assms(9,10) by (rule store_determined)
qed


end
