(* ===== verification/Asset_Transfer.thy ===== *)
theory Asset_Transfer
  imports Attachments
begin

text \<open>
  What goes in comes out: a local file that was written into the index segment by segment is what an export of
  it writes. What the code relies on of the replicated index and the blob store is \<open>replica_faithful\<close>.
\<close>

section \<open>The index and the blobs\<close>

text \<open>
  \<open>entry\<close> is the entry that \<open>get_one\<close> finds under a key, \<open>blob\<close> the bytes that are here; \<open>resolved\<close> is what a key
  leads to. Storing, tagging and downloading lose nothing that an entry refers to, and bytes that were added
  are here while their tag is held. The first entry under a key is the one that is found.
\<close>

definition resolved :: "('s \<Rightarrow> bytes32 \<Rightarrow> bytes32 \<Rightarrow> index_entry option) \<Rightarrow> ('s \<Rightarrow> bytes32 \<Rightarrow> bytes option)
     \<Rightarrow> 's \<Rightarrow> bytes32 \<Rightarrow> bytes32 \<Rightarrow> bytes option" where
  "resolved entry blob s doc key = Option.bind (entry s doc key) (\<lambda>e. blob s (ie_hash e))"

definition loses_nothing :: "('s \<Rightarrow> bytes32 \<Rightarrow> bytes32 \<Rightarrow> index_entry option) \<Rightarrow> ('s \<Rightarrow> bytes32 \<Rightarrow> bytes option)
     \<Rightarrow> 's \<Rightarrow> 's \<Rightarrow> bool" where
  "loses_nothing entry blob s s' \<longleftrightarrow>
     (\<forall>doc key bs. resolved entry blob s doc key = Some bs \<longrightarrow> resolved entry blob s' doc key = Some bs)"

definition replica_faithful :: "('s, 't) transport \<Rightarrow> ('s \<Rightarrow> bytes32 \<Rightarrow> bytes32 \<Rightarrow> index_entry option)
     \<Rightarrow> ('s \<Rightarrow> bytes32 \<Rightarrow> bytes option) \<Rightarrow> bool" where
  "replica_faithful T entry blob \<longleftrightarrow>
     (\<forall>bs s s' h. tr_add_bytes T bs s = (s', Inr h) \<longrightarrow>
        blob s' h = Some bs \<and> entry s' = entry s \<and> loses_nothing entry blob s s')
     \<and> (\<forall>doc author key h len s s'. tr_set_hash T doc author key h len s = (s', Inr ()) \<longrightarrow>
          (\<forall>doc' key'. (doc', key') \<noteq> (doc, key) \<longrightarrow> entry s' doc' key' = entry s doc' key')
          \<and> (entry s doc key = None \<longrightarrow> (\<exists>e. entry s' doc key = Some e \<and> ie_hash e = h))
          \<and> blob s' h = blob s h \<and> (entry s doc key = None \<longrightarrow> loses_nothing entry blob s s'))
     \<and> (\<forall>h s s' u. tr_drop_tag T h s = (s', u) \<longrightarrow> entry s' = entry s \<and> loses_nothing entry blob s s')
     \<and> (\<forall>doc key s. \<exists>s'. tr_get_one T doc key s = (s', Inr (entry s doc key)) \<and> entry s' = entry s \<and> blob s' = blob s)
     \<and> (\<forall>h s. \<exists>s' r. tr_get_bytes T h s = (s', r) \<and> entry s' = entry s \<and> blob s' = blob s
          \<and> (\<forall>bs. blob s h = Some bs \<longrightarrow> r = Inr bs))
     \<and> (\<forall>h peers s s' r. tr_download T h peers s = (s', r) \<longrightarrow> loses_nothing entry blob s s')"

lemma faithfulD:
  assumes "replica_faithful T entry blob"
  shows "tr_add_bytes T bs s = (s', Inr h) \<Longrightarrow> blob s' h = Some bs \<and> entry s' = entry s \<and> loses_nothing entry blob s s'"
    and "tr_set_hash T doc author key h len s = (s', Inr ()) \<Longrightarrow>
          (\<forall>doc' key'. (doc', key') \<noteq> (doc, key) \<longrightarrow> entry s' doc' key' = entry s doc' key')
          \<and> (entry s doc key = None \<longrightarrow> (\<exists>e. entry s' doc key = Some e \<and> ie_hash e = h))
          \<and> blob s' h = blob s h \<and> (entry s doc key = None \<longrightarrow> loses_nothing entry blob s s')"
    and "tr_drop_tag T h s = (s', u) \<Longrightarrow> entry s' = entry s \<and> loses_nothing entry blob s s'"
    and "\<exists>s'. tr_get_one T doc key s = (s', Inr (entry s doc key)) \<and> entry s' = entry s \<and> blob s' = blob s"
    and "\<exists>s' r. tr_get_bytes T h s = (s', r) \<and> entry s' = entry s \<and> blob s' = blob s \<and> (\<forall>bs. blob s h = Some bs \<longrightarrow> r = Inr bs)"
    and "tr_download T h peers s = (s', r) \<Longrightarrow> loses_nothing entry blob s s'"
proof -
  note f = assms [unfolded replica_faithful_def]
  note rest = f [THEN conjunct2] and rest2 = f [THEN conjunct2, THEN conjunct2]
  show "tr_add_bytes T bs s = (s', Inr h) \<Longrightarrow> blob s' h = Some bs \<and> entry s' = entry s \<and> loses_nothing entry blob s s'"
    by (rule f [THEN conjunct1, rule_format])
  show "tr_set_hash T doc author key h len s = (s', Inr ()) \<Longrightarrow>
          (\<forall>doc' key'. (doc', key') \<noteq> (doc, key) \<longrightarrow> entry s' doc' key' = entry s doc' key')
          \<and> (entry s doc key = None \<longrightarrow> (\<exists>e. entry s' doc key = Some e \<and> ie_hash e = h))
          \<and> blob s' h = blob s h \<and> (entry s doc key = None \<longrightarrow> loses_nothing entry blob s s')"
    using rest [THEN conjunct1] by blast
  show "tr_drop_tag T h s = (s', u) \<Longrightarrow> entry s' = entry s \<and> loses_nothing entry blob s s'"
    by (rule rest2 [THEN conjunct1, rule_format])
  show "\<exists>s'. tr_get_one T doc key s = (s', Inr (entry s doc key)) \<and> entry s' = entry s \<and> blob s' = blob s"
    using rest2 [THEN conjunct2, THEN conjunct1] by blast
  show "\<exists>s' r. tr_get_bytes T h s = (s', r) \<and> entry s' = entry s \<and> blob s' = blob s \<and> (\<forall>bs. blob s h = Some bs \<longrightarrow> r = Inr bs)"
    using rest2 [THEN conjunct2, THEN conjunct2, THEN conjunct1] by blast
  show "tr_download T h peers s = (s', r) \<Longrightarrow> loses_nothing entry blob s s'"
    using rest2 [THEN conjunct2, THEN conjunct2, THEN conjunct2] by blast
qed

lemma loses_nothing_refl: "entry s' = entry s \<Longrightarrow> blob s' = blob s \<Longrightarrow> loses_nothing entry blob s s'"
  by (simp add: loses_nothing_def resolved_def)

lemma loses_nothing_trans: "loses_nothing entry blob s s' \<Longrightarrow> loses_nothing entry blob s' s'' \<Longrightarrow> loses_nothing entry blob s s''"
  by (simp add: loses_nothing_def)

text \<open>Two states of the workspace that differ in the outside world alone, which lost nothing.\<close>

definition same_replica :: "('s \<Rightarrow> bytes32 \<Rightarrow> bytes32 \<Rightarrow> index_entry option) \<Rightarrow> ('s \<Rightarrow> bytes32 \<Rightarrow> bytes option)
     \<Rightarrow> ('c, 'r, 'd, 's) inner \<Rightarrow> ('c, 'r, 'd, 's) inner \<Rightarrow> bool" where
  "same_replica entry blob I J \<longleftrightarrow> in_doc J = in_doc I \<and> in_secret J = in_secret I \<and> loses_nothing entry blob (in_world I) (in_world J)"

lemma same_replica_trans: "same_replica entry blob I J \<Longrightarrow> same_replica entry blob J K \<Longrightarrow> same_replica entry blob I K"
  unfolding same_replica_def using loses_nothing_trans by metis

lemma same_replicaD:
  "same_replica entry blob I J \<Longrightarrow> resolved entry blob (in_world I) doc key = Some bs \<Longrightarrow> resolved entry blob (in_world J) doc key = Some bs"
  by (simp add: same_replica_def loses_nothing_def)

section \<open>One segment\<close>

lemma store_bytes_stores:
  assumes "replica_faithful (dv_transport D) entry blob" and "store_bytes D key bs I = (J, Inr ())"
    and "entry (in_world I) (in_doc I) key = None"
  shows "same_replica entry blob I J \<and> resolved entry blob (in_world J) (in_doc I) key = Some bs
    \<and> (\<forall>key'. key' \<noteq> key \<longrightarrow> entry (in_world J) (in_doc I) key' = entry (in_world I) (in_doc I) key')"
proof -
  let ?T = "dv_transport D"
  obtain s1 h s2 s3 where
    1: "tr_add_bytes ?T bs (in_world I) = (s1, Inr h)"
    and 2: "tr_set_hash ?T (in_doc I) (in_author I) key h (of_nat (length bs)) s1 = (s2, Inr ())"
    and 3: "tr_drop_tag ?T h s2 = (s3, ())" and J: "J = I\<lparr>in_world := s3\<rparr>"
    using assms(2)
    by (auto simp: store_bytes_def Let_def storage_io_def io_def elim!: and_then_InrE split: prod.splits)
  note faithful = faithfulD [OF assms(1)]
  have a: "blob s1 h = Some bs" "entry s1 = entry (in_world I)" "loses_nothing entry blob (in_world I) s1"
    using faithful(1) [OF 1] by simp_all
  moreover have b: "blob s2 h = blob s1 h" "\<exists>e. entry s2 (in_doc I) key = Some e \<and> ie_hash e = h"
    "\<forall>key'. key' \<noteq> key \<longrightarrow> entry s2 (in_doc I) key' = entry s1 (in_doc I) key'" "loses_nothing entry blob s1 s2"
    using faithful(2) [OF 2] a(2) assms(3) by simp_all
  moreover have c: "entry s3 = entry s2" "loses_nothing entry blob s2 s3"
    using faithful(3) [OF 3] by simp_all
  moreover have "resolved entry blob s2 (in_doc I) key = Some bs"
    using a(1) b(1,2) by (auto simp: resolved_def)
  ultimately show ?thesis
    by (auto simp: J same_replica_def loses_nothing_def)
qed

lemma local_bytes_reads:
  assumes "replica_faithful (dv_transport D) entry blob"
  shows "\<exists>s r. local_bytes D h I = (I\<lparr>in_world := s\<rparr>, r) \<and> entry s = entry (in_world I) \<and> blob s = blob (in_world I)
    \<and> (\<forall>bs. blob (in_world I) h = Some bs \<longrightarrow> r = Some bs)"
proof -
  obtain s r where "tr_get_bytes (dv_transport D) h (in_world I) = (s, r)" "entry s = entry (in_world I)"
    "blob s = blob (in_world I)" "\<forall>bs. blob (in_world I) h = Some bs \<longrightarrow> r = Inr bs"
    using faithfulD(5) [OF assms] by metis
  then show ?thesis by (auto simp: local_bytes_def io_def split: sum.split)
qed

lemma fetch_finds:
  assumes "replica_faithful (dv_transport D) entry blob" and "resolved entry blob (in_world I) (in_doc I) key = Some bs"
  shows "\<exists>s. fetch_indexed_bytes D key I = (I\<lparr>in_world := s\<rparr>, Some bs) \<and> entry s = entry (in_world I) \<and> blob s = blob (in_world I)"
proof -
  obtain e where e: "entry (in_world I) (in_doc I) key = Some e" "blob (in_world I) (ie_hash e) = Some bs"
    using assms(2) by (auto simp: resolved_def split: bind_splits)
  obtain s where s: "tr_get_one (dv_transport D) (in_doc I) key (in_world I) = (s, Inr (Some e))"
    "entry s = entry (in_world I)" "blob s = blob (in_world I)"
    using faithfulD(4) [OF assms(1)] e(1) by metis
  obtain s1 where s1: "local_bytes D (ie_hash e) (I\<lparr>in_world := s\<rparr>) = (I\<lparr>in_world := s1\<rparr>, Some bs)"
      "entry s1 = entry s" "blob s1 = blob s"
    using local_bytes_reads [OF assms(1), of "ie_hash e" "I\<lparr>in_world := s\<rparr>"] s(3) e(2) by auto
  obtain s2 where s2: "local_bytes D (ie_hash e) (I\<lparr>in_world := s1\<rparr>) = (I\<lparr>in_world := s2\<rparr>, Some bs)"
      "entry s2 = entry s" "blob s2 = blob s"
    using local_bytes_reads [OF assms(1), of "ie_hash e" "I\<lparr>in_world := s1\<rparr>"] s1 s(3) e(2) by auto
  show ?thesis
    using s s1 s2 by (intro exI [of _ s2]) (simp add: fetch_indexed_bytes_def Let_def io_def)
qed

lemma local_bytes_same:
  "replica_faithful (dv_transport D) entry blob \<Longrightarrow> same_replica entry blob I (fst (local_bytes D h I))"
  using local_bytes_reads [of D entry blob h I] by (auto simp: same_replica_def loses_nothing_refl)

lemma fetch_same:
  assumes "replica_faithful (dv_transport D) entry blob"
  shows "same_replica entry blob I (fst (fetch_indexed_bytes D key I))"
proof -
  obtain s where s: "tr_get_one (dv_transport D) (in_doc I) key (in_world I) = (s, Inr (entry (in_world I) (in_doc I) key))"
    and "entry s = entry (in_world I)" "blob s = blob (in_world I)"
    using faithfulD(4) [OF assms] by metis
  then have J: "same_replica entry blob I (I\<lparr>in_world := s\<rparr>)" by (simp add: same_replica_def loses_nothing_refl)
  have down: "same_replica entry blob J (fst (io (tr_download (dv_transport D) h peers) J))" for J h peers
    using faithfulD(6) [OF assms] by (auto simp: same_replica_def io_def split: prod.split)
  have g: "io (tr_get_one (dv_transport D) (in_doc I) key) I = (I\<lparr>in_world := s\<rparr>, Inr (entry (in_world I) (in_doc I) key))"
    by (simp add: io_def s)
  note reads = local_bytes_same [OF assms]
  have "same_replica entry blob (I\<lparr>in_world := s\<rparr>) (fst (fetch_indexed_bytes D key I))"
  proof (cases "entry (in_world I) (in_doc I) key")
    case None
    then show ?thesis by (simp add: fetch_indexed_bytes_def g same_replica_def loses_nothing_refl)
  next
    case (Some e)
    obtain K r where K: "local_bytes D (ie_hash e) (I\<lparr>in_world := s\<rparr>) = (K, r)" by fastforce
    then have K': "same_replica entry blob (I\<lparr>in_world := s\<rparr>) K" using reads by (metis fst_conv)
    have "same_replica entry blob (I\<lparr>in_world := s\<rparr>) (fst (local_bytes D (ie_hash e) (fst (io (tr_download (dv_transport D) h peers) K))))" for h peers
      by (rule same_replica_trans [OF K' same_replica_trans [OF down reads]])
    with K' same_replica_trans [OF K' reads] show ?thesis
      by (cases r) (auto simp: fetch_indexed_bytes_def g Some K Let_def simp del: filter_filter)
  qed
  with J show ?thesis by (rule same_replica_trans)
qed

section \<open>Cutting and writing\<close>

fun pieces :: "nat \<Rightarrow> nat \<Rightarrow> nat \<Rightarrow> 'a list \<Rightarrow> 'a list list" where
  "pieces width 0 remaining data = []"
| "pieces width (Suc n) remaining data =
     take (min remaining width) data # pieces width n (remaining - min remaining width) (drop (min remaining width) data)"

lemma length_pieces [simp]: "length (pieces width n remaining data) = n"
  by (induction n arbitrary: remaining data) simp_all

lemma concat_pieces: "concat (pieces width n remaining data) = take (min remaining (n * width)) data"
proof (induction n arbitrary: remaining data)
  case (Suc n)
  have "take (min remaining width) data @ take (min (remaining - min remaining width) (n * width)) (drop (min remaining width) data)
      = take (min remaining width + min (remaining - min remaining width) (n * width)) data"
    by (simp only: take_add)
  also have "min remaining width + min (remaining - min remaining width) (n * width) = min remaining (Suc n * width)"
    by simp
  finally show ?case by (simp add: Suc)
qed simp

lemma nth_pieces:
  "j < n \<Longrightarrow> remaining \<le> length data \<Longrightarrow> length (pieces width n remaining data ! j) = min (remaining - j * width) width"
proof (induction n arbitrary: j remaining data)
  case (Suc n)
  then show ?case by (cases j) (auto simp: min_def)
qed simp

text \<open>What is stored after the loop: under the key of each index, its piece, sealed for that index.\<close>

lemma write_segments_stores:
  assumes "replica_faithful (dv_transport D) entry blob"
    and "write_segments_from D uuid key segments width is remaining data digest I = (J, Inr digest')"
    and "distinct is"
    and "\<forall>i \<in> set is. entry (in_world I) (in_doc I) (asset_part_key (e_hash (dv_env D)) (in_secret I) uuid i) = None"
  shows "same_replica entry blob I J
    \<and> digest' = fold (content_digest_update (dv_hasher D)) (pieces (unat width) (length is) (unat remaining) data) digest
    \<and> (\<forall>j < length is. \<exists>sealed. seal_segment (e_hash (dv_env D)) (dv_aead D) key uuid (is ! j) segments width
          (pieces (unat width) (length is) (unat remaining) data ! j) = Inr sealed
        \<and> resolved entry blob (in_world J) (in_doc I) (asset_part_key (e_hash (dv_env D)) (in_secret I) uuid (is ! j)) = Some sealed)"
  using assms(2-4)
proof (induction "is" arbitrary: remaining data digest I)
  case Nil
  then show ?case by (simp add: same_replica_def loses_nothing_refl)
next
  case (Cons i "is")
  let ?H = "e_hash (dv_env D)" and ?want = "min remaining (ucast width) :: u64"
  let ?n = "unat ?want"
  let ?part = "asset_part_key ?H (in_secret I) uuid"
  have n: "?n = min (unat remaining) (unat width)"
    by (simp add: min_def word_le_nat_alt unat_ucast_u32)
  have rem: "unat (remaining - ?want) = unat remaining - min (unat remaining) (unat width)"
    by (simp add: unat_sub flip: n)
  obtain sealed I1 where sealed: "seal_segment ?H (dv_aead D) key uuid i segments width (take ?n data) = Inr sealed"
    and stored: "store_bytes D (?part i) sealed I = (I1, Inr ())"
    and rest: "write_segments_from D uuid key segments width is (remaining - ?want) (drop ?n data)
        (content_digest_update (dv_hasher D) (take ?n data) digest) I1 = (J, Inr digest')"
    using Cons.prems(1) by (auto simp: Let_def store_segment_def elim!: and_then_InrE split: if_splits)
  have I1: "same_replica entry blob I I1" "resolved entry blob (in_world I1) (in_doc I) (?part i) = Some sealed"
    "\<forall>key'. key' \<noteq> ?part i \<longrightarrow> entry (in_world I1) (in_doc I) key' = entry (in_world I) (in_doc I) key'"
    using store_bytes_stores [OF assms(1) stored] Cons.prems(3) by simp_all
  have eqs: "in_doc I1 = in_doc I" "in_secret I1 = in_secret I" using I1(1) by (simp_all add: same_replica_def)
  have fresh: "\<forall>i \<in> set is. entry (in_world I1) (in_doc I1) (asset_part_key ?H (in_secret I1) uuid i) = None"
  proof
    fix k assume "k \<in> set is"
    moreover from this have "?part k \<noteq> ?part i" using Cons.prems(2) asset_part_keys_ordered by auto
    ultimately show "entry (in_world I1) (in_doc I1) (asset_part_key ?H (in_secret I1) uuid k) = None"
      using Cons.prems(3) I1(3) by (simp add: eqs)
  qed
  note IH = Cons.IH [OF rest _ fresh]
  have J: "same_replica entry blob I1 J" using IH Cons.prems(2) by simp
  have "resolved entry blob (in_world J) (in_doc I) (?part i) = Some sealed"
    using same_replicaD [OF J I1(2)] .
  with sealed have first: "\<exists>sealed. seal_segment ?H (dv_aead D) key uuid i segments width (take ?n data) = Inr sealed
      \<and> resolved entry blob (in_world J) (in_doc I) (?part i) = Some sealed" by blast
  have split: "(\<forall>j < length (i # is). P j) \<longleftrightarrow> P 0 \<and> (\<forall>j < length is. P (Suc j))" for P
    using less_Suc_eq_0_disj by auto
  show ?case
    unfolding split using IH Cons.prems(2) first same_replica_trans [OF I1(1) J]
    by (simp add: eqs rem flip: n)
qed

section \<open>Reading back\<close>

lemma export_writes:
  assumes "replica_faithful (dv_transport D) entry blob" and "\<forall>i. tg_write target i = None"
    and "length parts = length is"
    and "\<forall>j < length is. \<exists>sealed. resolved entry blob (in_world I) (in_doc I)
          (asset_part_key (e_hash (dv_env D)) (in_secret I) content (is ! j)) = Some sealed
        \<and> open_segment (e_hash (dv_env D)) (dv_aead D) key content (is ! j) (am_segments meta) (am_segment_bytes meta)
            (payload_len meta (is ! j)) sealed = Inr (parts ! j)"
  shows "\<exists>K. export_segments D target content key meta is digest (I, out)
    = ((K, out @ concat parts), Inr (fold (content_digest_update (dv_hasher D)) parts digest))"
  using assms(3,4)
proof (induction "is" arbitrary: parts digest I out)
  case (Cons i "is")
  obtain p ps where parts: "parts = p # ps" using Cons.prems(1) by (cases parts) simp_all
  obtain sealed where sealed: "resolved entry blob (in_world I) (in_doc I)
        (asset_part_key (e_hash (dv_env D)) (in_secret I) content i) = Some sealed"
      "open_segment (e_hash (dv_env D)) (dv_aead D) key content i (am_segments meta) (am_segment_bytes meta)
         (payload_len meta i) sealed = Inr p"
    using Cons.prems(2) by (fastforce simp: parts)
  obtain s where s: "fetch_indexed_bytes D (asset_part_key (e_hash (dv_env D)) (in_secret I) content i) I
        = (I\<lparr>in_world := s\<rparr>, Some sealed)" "entry s = entry (in_world I)" "blob s = blob (in_world I)"
    using fetch_finds [OF assms(1) sealed(1)] by blast
  have "resolved entry blob s = resolved entry blob (in_world I)" using s(2,3) by (intro ext) (simp add: resolved_def)
  then have "\<exists>K. export_segments D target content key meta is (content_digest_update (dv_hasher D) p digest) (I\<lparr>in_world := s\<rparr>, out @ p)
      = ((K, (out @ p) @ concat ps), Inr (fold (content_digest_update (dv_hasher D)) ps (content_digest_update (dv_hasher D) p digest)))"
    using Cons.prems by (intro Cons.IH) (auto simp: parts)
  then show ?case using assms(2) s(1) sealed(2) by (simp add: parts io_result_def)
qed simp

lemma open_key_same:
  assumes "replica_faithful (dv_transport D) entry blob" and "facade_open_asset_key D content I = (J, Inr key)"
  shows "same_replica entry blob I J"
proof -
  obtain K bs where K: "fetch_indexed_bytes D (asset_key_key (e_hash (dv_env D)) (in_secret I) content) I = (K, Some bs)"
    using assms(2) by (auto simp: facade_open_asset_key_def split: prod.splits option.splits)
  then have "same_replica entry blob I K" using fetch_same [OF assms(1)] by (metis fst_conv)
  moreover have "in_doc J = in_doc K \<and> in_secret J = in_secret K \<and> in_world J = in_world K"
    using assms(2) by (auto simp: facade_open_asset_key_def K with_state_def elim!: and_then_InrE
        split: prod.splits asset_key_verdict.splits)
  ultimately show ?thesis by (simp add: same_replica_def)
qed

lemma segment_indices_props:
  "distinct (segment_indices n)" "i \<in> set (segment_indices n) \<Longrightarrow> i < n"
  "j < length (segment_indices n) \<Longrightarrow> unat (segment_indices n ! j) = j"
proof -
  have small: "unat (of_nat i :: u64) = i" if "i < unat n" for i
    using that unsigned_less [of n, where 'a = nat] by (simp add: unat_of_nat)
  then have "inj_on (of_nat :: nat \<Rightarrow> u64) {0..<unat n}"
    by (intro inj_onI) (metis atLeastLessThan_iff)
  then show "distinct (segment_indices n)" by (simp add: segment_indices_def distinct_map)
  show "i \<in> set (segment_indices n) \<Longrightarrow> i < n"
    using small by (auto simp: segment_indices_def word_less_nat_alt)
  show "j < length (segment_indices n) \<Longrightarrow> unat (segment_indices n ! j) = j"
    using small by (simp add: segment_indices_def)
qed

lemma pieces_whole:
  assumes "am_segment_bytes meta \<noteq> 0" and "am_segments meta = segments_for (am_size meta) (am_segment_bytes meta)"
    and "unat (am_size meta) = length data"
  shows "concat (pieces (unat (am_segment_bytes meta)) (length (segment_indices (am_segments meta))) (unat (am_size meta)) data) = data"
proof -
  have "0 < unat (am_segment_bytes meta)" using assms(1) by (simp add: unat_gt_0)
  then have "unat (am_size meta) \<le> unat (am_segments meta) * unat (am_segment_bytes meta)"
    using pieces_cover [of "unat (am_segment_bytes meta)" "unat (am_size meta)"] unat_segments_for [OF assms(1), of "am_size meta"] assms(2)
    by simp
  then show ?thesis using assms(3) by (simp add: concat_pieces segment_indices_def)
qed

text \<open>A stored piece is found and opens to what it was, in every state that lost nothing since.\<close>

lemma stored_piece_opens:
  assumes "aead_correct (dv_aead D)" and "unat (am_size meta) = length data" and "j < length (segment_indices (am_segments meta))"
    and "seal_segment H (dv_aead D) key content (segment_indices (am_segments meta) ! j) (am_segments meta) (am_segment_bytes meta)
          (pieces (unat (am_segment_bytes meta)) (length (segment_indices (am_segments meta))) (unat (am_size meta)) data ! j) = Inr sealed"
  shows "open_segment H (dv_aead D) key content (segment_indices (am_segments meta) ! j) (am_segments meta) (am_segment_bytes meta)
          (payload_len meta (segment_indices (am_segments meta) ! j)) sealed
    = Inr (pieces (unat (am_segment_bytes meta)) (length (segment_indices (am_segments meta))) (unat (am_size meta)) data ! j)"
proof -
  let ?parts = "pieces (unat (am_segment_bytes meta)) (length (segment_indices (am_segments meta))) (unat (am_size meta)) data"
  have "payload_len meta (segment_indices (am_segments meta) ! j) = length (?parts ! j)"
    using nth_pieces [OF assms(3), of "unat (am_size meta)" data "unat (am_segment_bytes meta)"] assms(2)
    by (simp add: payload_len_eq segment_indices_props(3) [OF assms(3)])
  then show ?thesis using open_sealed_segment [OF assms(1,4)] by simp
qed

text \<open>
  C14. What was attached is what is exported: once the segments of a local file are written, under a content id
  that had none, an export of that version on the same device, whenever its key opens, writes exactly the
  file's bytes and reports success. The cipher opens what it sealed, and the index and the blob store keep
  what they are given.
\<close>

theorem attached_asset_exports:
  assumes "replica_faithful (dv_transport D) entry blob" and "aead_correct (dv_aead D)"
    and "lf_bytes file = Inr data" and "unat (am_size meta) = length data"
    and "am_segment_bytes meta \<noteq> 0" and "am_segments meta = segments_for (am_size meta) (am_segment_bytes meta)"
    and "\<forall>i < am_segments meta. entry (in_world I) (in_doc I) (asset_part_key (e_hash (dv_env D)) (in_secret I) content i) = None"
    and "write_segments D content key (am_size meta) (am_segments meta) (am_segment_bytes meta) file I = (J, Inr (am_content_hash meta))"
    and "facade_open_asset_key D content J = (J', Inr key)"
    and "av_content version = content" and "av_meta version = meta"
    and "tg_create target = None" and "\<forall>i. tg_write target i = None" and "tg_flush target = None"
  shows "\<exists>K. export_asset_version D version target J = ((K, data), Inr ())"
proof -
  let ?is = "segment_indices (am_segments meta)" and ?w = "unat (am_segment_bytes meta)" and ?H = "e_hash (dv_env D)"
  let ?parts = "pieces ?w (length ?is) (unat (am_size meta)) data"
  obtain digest where loop: "write_segments_from D content key (am_segments meta) (am_segment_bytes meta) ?is (am_size meta) data
        (content_digest_new (dv_hasher D)) I = (J, Inr digest)"
    and hash: "content_digest_finish (dv_hasher D) digest = am_content_hash meta"
    using assms(3,8) by (auto simp: write_segments_def elim!: and_then_InrE)
  note stored = write_segments_stores [OF assms(1) loop segment_indices_props(1)]
  have J: "same_replica entry blob I J"
    and digest: "digest = fold (content_digest_update (dv_hasher D)) ?parts (content_digest_new (dv_hasher D))"
    and sealed: "\<forall>j < length ?is. \<exists>sealed. seal_segment ?H (dv_aead D) key content (?is ! j) (am_segments meta) (am_segment_bytes meta)
          (?parts ! j) = Inr sealed
        \<and> resolved entry blob (in_world J) (in_doc I) (asset_part_key ?H (in_secret I) content (?is ! j)) = Some sealed"
    using stored assms(7) segment_indices_props(2) by blast+
  have J': "same_replica entry blob J J'" by (rule open_key_same [OF assms(1,9)])
  have eqs: "in_doc J' = in_doc I" "in_secret J' = in_secret I" using J J' by (simp_all add: same_replica_def)
  have "\<forall>j < length ?is. \<exists>sealed. resolved entry blob (in_world J') (in_doc J') (asset_part_key ?H (in_secret J') content (?is ! j)) = Some sealed
      \<and> open_segment ?H (dv_aead D) key content (?is ! j) (am_segments meta) (am_segment_bytes meta) (payload_len meta (?is ! j)) sealed
        = Inr (?parts ! j)"
    using sealed same_replicaD [OF J'] stored_piece_opens [OF assms(2,4)] by (auto simp: eqs)
  from export_writes [OF assms(1,13) length_pieces this] obtain K where
    K: "export_segments D target content key meta ?is (content_digest_new (dv_hasher D)) (J', []) = ((K, concat ?parts), Inr digest)"
    unfolding digest by (metis append_Nil length_pieces)
  with pieces_whole [OF assms(5,6,4)] hash show ?thesis
    using assms(9-14) by (auto simp: export_asset_version_def Let_def io_result_def)
qed

end
