(* ===== verification/Networked_Examples.thy ===== *)
theory Networked_Examples
  imports Peers Asset_Transfer Workspace_Examples
begin

text \<open>
  A transport and a disk small enough to evaluate, a device over them, and the properties of the networked
  workspace applied to it.
\<close>

section \<open>A transport to compute with\<close>

text \<open>The outside world is an index and a blob store; a blob is named by its length, and a second blob of that length is refused.\<close>

record demo_world =
  dw_entries :: "bytes32 \<Rightarrow> bytes32 \<Rightarrow> index_entry option"
  dw_blobs :: "bytes32 \<Rightarrow> bytes option"

definition demo_add_bytes :: "bytes \<Rightarrow> demo_world \<Rightarrow> demo_world \<times> (string + bytes32)" where
  "demo_add_bytes bs s =
     (let h = of_nat (length bs) in
      if dw_blobs s h \<noteq> None \<and> dw_blobs s h \<noteq> Some bs then (s, Inl ''taken'')
      else (s\<lparr>dw_blobs := (dw_blobs s)(h \<mapsto> bs)\<rparr>, Inr h))"

definition demo_set_hash :: "bytes32 \<Rightarrow> bytes32 \<Rightarrow> bytes32 \<Rightarrow> bytes32 \<Rightarrow> u64 \<Rightarrow> demo_world \<Rightarrow> demo_world \<times> (string + unit)" where
  "demo_set_hash doc author key h len s =
     (s\<lparr>dw_entries := (dw_entries s)(doc := (dw_entries s doc)(key \<mapsto> \<lparr>ie_author = author, ie_hash = h, ie_len = len\<rparr>))\<rparr>, Inr ())"

definition demo_transport :: "(demo_world, nat) transport" where
  "demo_transport = \<lparr>
     tr_create = (\<lambda>s. (s, Inr 7)), tr_open = (\<lambda>doc s. (s, Inr (Some doc))), tr_import = (\<lambda>t s. (s, Inr (of_nat t))),
     tr_drop_doc = (\<lambda>_ s. (s, Inr ())), tr_leave = (\<lambda>_ s. (s, Inr ())), tr_subscribe = (\<lambda>_ s. (s, Inr ())),
     tr_start_sync = (\<lambda>_ _ s. (s, Inr ())), tr_share = (\<lambda>_ _ s. (s, Inr 7)),
     tr_set_hash = demo_set_hash,
     tr_del = (\<lambda>_ _ _ s. (s, Inr ())),
     tr_get_many = (\<lambda>doc key s. (s, Inr (case dw_entries s doc key of None \<Rightarrow> [] | Some e \<Rightarrow> [e]))),
     tr_get_one = (\<lambda>doc key s. (s, Inr (dw_entries s doc key))),
     tr_set_download_policy = (\<lambda>_ _ s. (s, Inr ())), tr_author_import = (\<lambda>_ s. (s, Inr ())),
     tr_add_bytes = demo_add_bytes, tr_drop_tag = (\<lambda>_ s. (s, ())),
     tr_get_bytes = (\<lambda>h s. (s, case dw_blobs s h of None \<Rightarrow> Inl ''missing'' | Some bs \<Rightarrow> Inr bs)),
     tr_download = (\<lambda>_ _ s. (s, Inl ''offline'')), tr_broadcast = (\<lambda>_ s. (s, Inr ())),
     tr_subscribe_topic = (\<lambda>_ _ s. (s, Inr ())), tr_instant = (\<lambda>s. (s, 0)), tr_unix = (\<lambda>s. (s, Some 100)),
     tr_random16 = (\<lambda>s. (s, 3)), tr_author_id = (\<lambda>seed. seed), tr_ticket_id = of_nat,
     tr_encode_capability = (\<lambda>_. Some []), tr_decode_capability = (\<lambda>_. None), tr_is_endpoint = (\<lambda>_. True)\<rparr>"

lemma demo_replica: "replica_faithful demo_transport dw_entries dw_blobs"
  unfolding replica_faithful_def demo_transport_def
  by (auto simp: demo_add_bytes_def demo_set_hash_def Let_def loses_nothing_def resolved_def split: if_splits bind_splits)

definition demo_wire :: wire_codec where
  "demo_wire = \<lparr>wc_encode_msg = (\<lambda>_. Some []), wc_decode_msg = (\<lambda>_. None),
     wc_encode_chunk = (\<lambda>ch. Some (ch_ciphertext ch)), wc_decode_chunk = (\<lambda>bs. Some (demo_chunk bs))\<rparr>"

definition demo_store :: store_codec where
  "demo_store = \<lparr>
     sc_encode_pairs = (\<lambda>s. if s = {} then Some [] else if s = {(5, 6)} then Some [1] else None),
     sc_decode_pairs = (\<lambda>bs. if bs = [] then Some {} else if bs = [1] then Some {(5, 6)} else None),
     sc_encode_record = (\<lambda>rec. Some (be_bytes 32 (wr_namespace rec) @ wr_core rec)),
     sc_decode_record = (\<lambda>bs. map_option (\<lambda>ns. \<lparr>wr_core = drop 32 bs, wr_namespace = ns\<rparr>) (be_word 32 (take 32 bs)))\<rparr>"

lemma demo_store_faithful: "codec_faithful demo_store"
  by (auto simp: codec_faithful_def demo_store_def be_word_be_bytes split: if_splits)

definition demo_invites :: "nat invite_crypto" where
  "demo_invites = \<lparr>ic_sign = (\<lambda>signer terms. Inr \<lparr>sg_issuer = signer, sg_payload = terms, sg_signature = []\<rparr>), ic_verify = (\<lambda>_. True)\<rparr>"

definition demo_hasher :: "bytes hasher" where
  "demo_hasher = \<lparr>hs_start = (\<lambda>_. []), hs_update = (@), hs_finalize = (\<lambda>bs. of_nat (length bs))\<rparr>"

definition demo_driver :: "(control_op list, nat, demo_doc, demo_world, nat, bytes) driver" where
  "demo_driver = \<lparr>dv_env = demo_env, dv_transport = demo_transport, dv_wire = demo_wire, dv_store = demo_store,
     dv_invites = demo_invites, dv_aead = demo_aead, dv_hasher = demo_hasher,
     dv_encode_snapshot = (\<lambda>_. None), dv_decode_snapshot = (\<lambda>_. None)\<rparr>"

definition demo_node :: node where
  "demo_node = \<lparr>nd_endpoint = 9, nd_roster = roster_default, nd_redeemed = {}, nd_redeemed_poisoned = False, nd_store = None\<rparr>"

definition empty_world :: demo_world where
  "empty_world = \<lparr>dw_entries = (\<lambda>_ _. None), dw_blobs = (\<lambda>_. None)\<rparr>"

lemma demo_driver_simps [simp]:
  "dv_env demo_driver = demo_env" "dv_transport demo_driver = demo_transport" "dv_wire demo_driver = demo_wire"
  "dv_store demo_driver = demo_store" "dv_invites demo_driver = demo_invites" "dv_aead demo_driver = demo_aead"
  "dv_hasher demo_driver = demo_hasher"
  by (simp_all add: demo_driver_def)

lemma demo_env_simps [simp]:
  "e_beekem demo_env = demo_beekem" "e_crypto demo_env = demo_crypto" "e_hash demo_env = demo_hash" "e_loro demo_env = demo_loro"
  by (simp_all add: demo_env_def)

section \<open>Joining\<close>

text \<open>The founder, device 1, invites device 20.\<close>

definition demo_invite :: "nat invite" where
  "demo_invite = \<lparr>sg_issuer = 1, sg_payload = \<lparr>it_domain = INVITE_DOMAIN, it_tree_id = 1, it_invitee = 20, it_not_after = 200,
     it_nonce = 6, it_epoch = 0, it_doc_ticket = 7, it_workspace_secret = 5,
     it_log = [demo_add 1 1 1 [], demo_add 1 20 2 [1]], it_certs = [alice_grant, alice_device], it_inviter = 8\<rparr>, sg_signature = []\<rparr>"

definition demo_identity :: identity where
  "demo_identity = \<lparr>id_signer = 20, id_share_secret = 5\<rparr>"

lemma founder_administers: "may_administer alice_store 1"
  by code_simp

lemma demo_invite_accepted: "invite_verify demo_invites demo_crypto 20 100 demo_invite = Inr ()"
  using founder_administers by (simp add: invite_verify_def demo_invite_def demo_invites_def alice_store_def)

lemma demo_controller_joins: "\<exists>K. controller_join demo_beekem demo_crypto 1 20 5 [demo_add 1 1 1 [], demo_add 1 20 2 [1]]
    [alice_grant, alice_device] 0 = Inr K"
proof -
  have "is_ok (controller_join demo_beekem demo_crypto 1 20 5 [demo_add 1 1 1 [], demo_add 1 20 2 [1]] [alice_grant, alice_device] 0)"
    by code_simp
  then show ?thesis by (simp add: is_ok_iff)
qed

lemma demo_assembles:
  "dv_transport D = demo_transport \<Longrightarrow> \<exists>S' J. assemble D W secret doc tree signer boot (N, s) = (S', Inr J)"
  by (auto simp: assemble_def Let_def outside_io_def demo_transport_def spawn_data_loop_def storage_io_def io_def split: prod.split)

lemma demo_syncs: "dv_transport D = demo_transport \<Longrightarrow> \<exists>I. sync_with D peer J = (I, Inr ())"
  by (simp add: sync_with_def storage_io_def io_def demo_transport_def)

lemma invited_joins:
  assumes "dv_transport D = demo_transport" and "dv_invites D = demo_invites" and "cc_verifying_key (e_crypto (dv_env D)) 20 = 20"
    and "cc_is_point (e_crypto (dv_env D)) 1" and "invite_verify demo_invites (e_crypto (dv_env D)) 20 100 demo_invite = Inr ()"
    and "controller_join (e_beekem (dv_env D)) (e_crypto (dv_env D)) 1 20 5 [demo_add 1 1 1 [], demo_add 1 20 2 [1]]
      [alice_grant, alice_device] rng = Inr K"
    and "claim_invite (dv_store D) 1 6 N = (M, True)"
  shows "\<exists>S' I. join D demo_invite demo_identity rng (N, s) = (S', Inr I)"
proof -
  obtain S' J where J: "assemble D (joined (e_loro (dv_env D)) K 5 0) 5 7 1 20 [8] (M, s) = (S', Inr J)"
    using demo_assembles [OF assms(1)] by blast
  obtain I where I: "sync_with D 8 J = (I, Inr ())" using demo_syncs [OF assms(1)] by blast
  have terms: "sg_payload demo_invite = \<lparr>it_domain = INVITE_DOMAIN, it_tree_id = 1, it_invitee = 20, it_not_after = 200,
     it_nonce = 6, it_epoch = 0, it_doc_ticket = 7, it_workspace_secret = 5,
     it_log = [demo_add 1 1 1 [], demo_add 1 20 2 [1]], it_certs = [alice_grant, alice_device], it_inviter = 8\<rparr>"
    by (simp add: demo_invite_def)
  have tr: "tr_unix demo_transport s = (s, Some 100)" "tr_import demo_transport 7 s = (s, Inr 7)"
    by (simp_all add: demo_transport_def)
  show ?thesis
    using J I assms
    by (simp add: join_def Let_def terms tr unix_now_def identity_member_id_def demo_identity_def outside_io_def inside_def)
qed

lemma demo_joins: "\<exists>S' I. join demo_driver demo_invite demo_identity 0 (demo_node, empty_world) = (S', Inr I)"
proof -
  obtain K where "controller_join demo_beekem demo_crypto 1 20 5 [demo_add 1 1 1 [], demo_add 1 20 2 [1]] [alice_grant, alice_device] 0 = Inr K"
    using demo_controller_joins by blast
  moreover have "claim_invite demo_store 1 6 demo_node = (demo_node\<lparr>nd_redeemed := {(1, 6)}\<rparr>, True)"
    by (simp add: claim_invite_def demo_node_def)
  ultimately show ?thesis using demo_invite_accepted by (intro invited_joins) simp_all
qed

theorem join_redeems_once_witness:
  "\<exists>S' I. join demo_driver demo_invite demo_identity 0 (demo_node, empty_world) = (S', Inr I)
    \<and> \<not> is_ok (snd (join demo_driver demo_invite demo_identity 1 (in_node I, empty_world)))"
proof -
  obtain S' I where I: "join demo_driver demo_invite demo_identity 0 (demo_node, empty_world) = (S', Inr I)"
    using demo_joins by blast
  with join_redeems_once [OF I] show ?thesis by blast
qed

theorem device_refines_core_witness:
  "\<exists>I. (device_step demo_driver)\<^sup>*\<^sup>* (Stopped demo_node empty_world) (Running I) \<and> workspace_reachable demo_env (in_state I)"
proof -
  obtain S' I where "join demo_driver demo_invite demo_identity 0 (demo_node, empty_world) = (S', Inr I)"
    using demo_joins by blast
  then have "device_step demo_driver (Stopped demo_node empty_world) (Running I)"
    using device_step.joins [of demo_driver demo_node empty_world demo_invite demo_identity 0] by simp
  then have runs: "(device_step demo_driver)\<^sup>*\<^sup>* (Stopped demo_node empty_world) (Running I)" by blast
  moreover have "driver_codecs_faithful demo_driver"
    by (simp add: driver_codecs_faithful_def demo_store_faithful) (simp add: demo_driver_def)
  moreover have "blank demo_node" by (simp add: blank_def demo_node_def)
  ultimately show ?thesis using device_refines_core [of demo_driver demo_node empty_world I] by auto
qed


section \<open>A running device\<close>

text \<open>The device of an administrator, 20, with the founder's workspace on a disk that works.\<close>

definition demo_fs :: fs where
  "demo_fs = \<lparr>fs_files = [], fs_fault = (\<lambda>_ _. None), fs_torn = (\<lambda>_ _. None), fs_new_mode = 0\<rparr>"

definition admin_ws :: "(control_op list, nat, demo_doc) workspace" where
  "admin_ws = demo_ws\<lparr>w_cgka := (w_cgka demo_ws)\<lparr>k_certs := alice_store\<rparr>\<rparr>"

definition demo_inner :: "(control_op list, nat, demo_doc) workspace \<Rightarrow> demo_world \<Rightarrow> (control_op list, nat, demo_doc, demo_world) inner" where
  "demo_inner W s = new_inner W 7 11 5 20 1 (demo_node\<lparr>nd_store := Some demo_fs\<rparr>) s"

lemma demo_inner_simps [simp]:
  "in_state (demo_inner W s) = W" "in_doc (demo_inner W s) = 7" "in_author (demo_inner W s) = 11"
  "in_secret (demo_inner W s) = 5" "in_signer (demo_inner W s) = 20" "in_workspace_key (demo_inner W s) = 1"
  "in_node (demo_inner W s) = demo_node\<lparr>nd_store := Some demo_fs\<rparr>" "in_world (demo_inner W s) = s"
  "in_seen (demo_inner W s) = Map.empty"
  by (simp_all add: demo_inner_def new_inner_def)

theorem minted_invite_accepted_witness:
  "\<exists>J invite. build_invite demo_driver 30 Viewer (demo_inner admin_ws empty_world) = (J, Inr invite)
    \<and> invite_verify demo_invites demo_crypto 31 0 invite = Inl InviteWrongInvitee"
proof -
  let ?I = "demo_inner admin_ws empty_world"
  have "\<exists>J invite. build_invite demo_driver 30 Viewer ?I = (J, Inr invite)"
    by (simp add: build_invite_def Let_def op_log_def demo_beekem_def storage_io_def io_def demo_transport_def terms_now_def
        unix_now_def invite_sign_def demo_invites_def)
  then obtain J invite where built: "build_invite demo_driver 30 Viewer ?I = (J, Inr invite)" by blast
  moreover have "signatures_hold demo_invites demo_crypto" by (auto simp: signatures_hold_def demo_invites_def)
  moreover have certs: "capabilities admin_ws = alice_store" by (simp add: admin_ws_def)
  moreover have "may_administer alice_store 20" by code_simp
  moreover have "inj_on (cc_digest demo_crypto) (set (certificates alice_store))"
    by (rule inj_on_subset [OF demo_inj]) (rule alice_store_facts)
  moreover have "cs_founder alice_store = 1"
    using alice_reaches by (simp add: reaches_def)
  ultimately show ?thesis
    using minted_invite_accepted [OF built, of 31 0] alice_store_facts(1) by auto
qed

text \<open>An entry of the device's own author and one of a stranger.\<close>

theorem only_writers_ingested_witness:
  "\<exists>J. fetch_entries demo_driver 1 True [\<lparr>ie_author = 66, ie_hash = 2, ie_len = 1\<rparr>, \<lparr>ie_author = 11, ie_hash = 1, ie_len = 1\<rparr>]
     (demo_inner demo_ws (empty_world\<lparr>dw_blobs := [1 \<mapsto> [4], 2 \<mapsto> [5, 5]]\<rparr>)) = (J, [demo_chunk [4]])
   \<and> (\<exists>s bs. snd (tr_get_bytes demo_transport 1 s) = Inr bs \<and> decode_chunk demo_wire bs = Inr (demo_chunk [4]))"
proof -
  let ?I = "demo_inner demo_ws (empty_world\<lparr>dw_blobs := [1 \<mapsto> [4], 2 \<mapsto> [5, 5]]\<rparr>)"
  let ?es = "[\<lparr>ie_author = 66, ie_hash = 2, ie_len = 1\<rparr>, \<lparr>ie_author = 11, ie_hash = 1, ie_len = 1\<rparr>]"
  have stranger: "\<not> author_may_write demo_loro 66 demo_ws" by code_simp
  have "\<exists>J. fetch_entries demo_driver 1 True ?es ?I = (J, [demo_chunk [4]])"
    by (simp add: accepts_author_def stranger local_bytes_def io_def demo_transport_def decode_chunk_def demo_wire_def serialized_def)
  then obtain J where J: "fetch_entries demo_driver 1 True ?es ?I = (J, [demo_chunk [4]])" by blast
  with only_writers_ingested [OF J] stranger show ?thesis by auto
qed


theorem invite_single_use_witness: "snd (invite_claims demo_store [(1, 6), (1, 6)] demo_node) ! 1 = False"
  using invite_single_use [of demo_node 1 "[(1, 6), (1, 6)]" demo_store] by (simp add: demo_node_def)

text \<open>A persistent node that redeems an invitation and is started again.\<close>

theorem restart_keeps_identity_witness:
  "\<exists>F1 N N' F2 M. spawn_persistent demo_store Inr None 4 demo_fs = (F1, Inr N) \<and> claim_invite demo_store 5 6 N = (N', True)
    \<and> nd_store N' = Some F2 \<and> spawn_persistent demo_store Inr None 3 F2 = (F2, Inr M) \<and> nd_endpoint M = 4
    \<and> \<not> snd (claim_invite demo_store 5 6 M)"
proof -
  have ok: "healthy demo_fs" by (simp add: healthy_def demo_fs_def)
  obtain F1 where w: "write_private (slot_path EndpointSlot) (be_bytes 32 (4 :: bytes32)) demo_fs = (F1, Inr ())"
    using write_private_ok [OF ok, of "slot_path EndpointSlot" "be_bytes 32 (4 :: bytes32)"]
    by (cases "write_private (slot_path EndpointSlot) (be_bytes 32 (4 :: bytes32)) demo_fs") (auto simp: is_ok_iff)
  have key: "endpoint_key 4 demo_fs = (F1, Inr 4)"
    using w by (simp add: endpoint_key_def fs_read_def demo_fs_def Let_def)
  have f1: "fs_fault F1 = (\<lambda>_ _. None)" using endpoint_key_fault [OF key] by (simp add: demo_fs_def)
  have "slot_get RedeemedSlot F1 = None"
    using slots.get_put [of RedeemedSlot EndpointSlot "be_bytes 32 (4 :: bytes32)" demo_fs]
    by (simp add: slot_put_write [OF w]) (simp add: slot_get_def demo_fs_def)
  then have redeemed: "load_redeemed demo_store F1 = Inr {}"
    using fs_read_slot [of F1 RedeemedSlot] f1 by (simp add: load_redeemed_def load_pairs_def)
  let ?N = "\<lparr>nd_endpoint = 4, nd_roster = roster_default, nd_redeemed = {}, nd_redeemed_poisoned = False, nd_store = Some F1\<rparr>"
  have spawned: "spawn_persistent demo_store Inr None 4 demo_fs = (F1, Inr ?N)"
    by (simp add: spawn_persistent_def key redeemed store_open_def List.map_filter_def) (simp add: demo_fs_def)
  obtain F2 where F2: "store_redeemed demo_store {(5, 6)} F1 = (F2, Inr ())"
    using write_private_ok [of F1 "slot_path RedeemedSlot" "[1]"] f1
    by (cases "write_private (slot_path RedeemedSlot) [1] F1")
      (auto simp: is_ok_iff healthy_def store_redeemed_def store_pairs_def demo_store_def)
  have claim: "claim_invite demo_store 5 6 ?N = (?N\<lparr>nd_redeemed := {(5, 6)}, nd_store := Some F2\<rparr>, True)"
    by (simp add: claim_invite_def F2)
  have "fs_fault demo_fs = (\<lambda>_ _. None)" by (simp add: demo_fs_def)
  with restart_keeps_identity [OF demo_store_faithful spawned claim, of F2 3] F2 spawned claim show ?thesis by auto
qed

section \<open>A small asset\<close>

text \<open>The device already has the asset's key, 0, as the chunk the index has under the key's own entry.\<close>

definition asset_world :: demo_world where
  "asset_world = \<lparr>dw_entries = (\<lambda>doc key. if doc = 7 \<and> key = asset_key_key demo_hash 5 3
       then Some \<lparr>ie_author = 11, ie_hash = 32, ie_len = 32\<rparr> else None),
     dw_blobs = [32 \<mapsto> replicate 32 0]\<rparr>"

definition demo_meta :: asset_meta where
  "demo_meta = \<lparr>am_size = 3, am_segments = 1, am_segment_bytes = 4, am_content_hash = 3\<rparr>"

definition demo_file :: local_file where
  "demo_file = \<lparr>lf_size = Inr 3, lf_bytes = Inr [7, 8, 9]\<rparr>"

lemma demo_asset_keys: "asset_part_key demo_hash 5 3 0 \<noteq> asset_key_key demo_hash 5 3"
  by code_simp

lemma demo_asset_written:
  "\<exists>s. write_segments demo_driver 3 0 3 1 4 demo_file (demo_inner demo_ws asset_world) = ((demo_inner demo_ws asset_world)\<lparr>in_world := s\<rparr>, Inr 3)
    \<and> dw_entries s 7 (asset_key_key demo_hash 5 3) = Some \<lparr>ie_author = 11, ie_hash = 32, ie_len = 32\<rparr> \<and> dw_blobs s 32 = Some (replicate 32 0)"
proof -
  let ?I = "demo_inner demo_ws asset_world"
  let ?s = "\<lparr>dw_entries = (dw_entries asset_world)(7 := (dw_entries asset_world 7)(asset_part_key demo_hash 5 3 0 \<mapsto>
      \<lparr>ie_author = 11, ie_hash = 20, ie_len = 20\<rparr>)), dw_blobs = (dw_blobs asset_world)(20 \<mapsto> [7, 8, 9, 0] @ replicate 16 0)\<rparr>"
  have sealed: "seal_segment demo_hash demo_aead 0 3 0 1 4 [7, 8, 9] = Inr ([7, 8, 9, 0] @ replicate 16 0)"
    by (simp add: seal_segment_def demo_aead_def)
  have stored: "store_segment demo_driver (asset_part_key demo_hash 5 3 0) ([7, 8, 9, 0] @ replicate 16 0) ?I = (?I\<lparr>in_world := ?s\<rparr>, Inr ())"
    by (simp add: store_segment_def store_bytes_def Let_def storage_io_def io_def demo_transport_def demo_add_bytes_def demo_set_hash_def
        asset_world_def)
  have want: "unat (min 3 (ucast (4 :: u32)) :: u64) = 3" by code_simp
  have "segment_indices 1 = [0]" by (simp add: segment_indices_def)
  then have "write_segments demo_driver 3 0 3 1 4 demo_file ?I = (?I\<lparr>in_world := ?s\<rparr>, Inr 3)"
    using sealed stored
    by (simp add: write_segments_def demo_file_def Let_def want content_digest_new_def content_digest_update_def
        content_digest_finish_def demo_hasher_def)
  moreover have "dw_entries ?s 7 (asset_key_key demo_hash 5 3) = Some \<lparr>ie_author = 11, ie_hash = 32, ie_len = 32\<rparr>"
    using demo_asset_keys by (simp add: asset_world_def)
  moreover have "dw_blobs ?s 32 = Some (replicate 32 0)" by (simp add: asset_world_def)
  ultimately show ?thesis by blast
qed

lemma demo_key_opens:
  assumes "in_state I = demo_ws" and "in_doc I = 7" and "in_secret I = 5"
    and "dw_entries (in_world I) 7 (asset_key_key demo_hash 5 3) = Some \<lparr>ie_author = 11, ie_hash = 32, ie_len = 32\<rparr>"
    and "dw_blobs (in_world I) 32 = Some (replicate 32 0)"
  shows "\<exists>J. facade_open_asset_key demo_driver 3 I = (J, Inr 0)"
proof -
  have "resolved dw_entries dw_blobs (in_world I) (in_doc I) (asset_key_key demo_hash 5 3) = Some (replicate 32 0)"
    using assms by (simp add: resolved_def)
  from fetch_finds [of demo_driver, unfolded demo_driver_simps, OF demo_replica this]
  obtain s where s: "fetch_indexed_bytes demo_driver (asset_key_key demo_hash 5 3) I = (I\<lparr>in_world := s\<rparr>, Some (replicate 32 0))"
    by blast
  have key: "snd (open_asset_key demo_env (demo_chunk (replicate 32 0)) demo_ws) = AkReady 0" by code_simp
  have ch: "decode_chunk demo_wire (replicate 32 0) = Inr (demo_chunk (replicate 32 0))"
    by (simp add: decode_chunk_def demo_wire_def serialized_def)
  show ?thesis
    using assms(1,3) s key ch
    by (cases "open_asset_key demo_env (demo_chunk (replicate 32 0)) demo_ws") (simp add: facade_open_asset_key_def with_state_def)
qed

theorem attached_asset_exports_witness:
  "\<exists>J K. write_segments demo_driver 3 0 3 1 4 demo_file (demo_inner demo_ws asset_world) = (J, Inr 3)
    \<and> export_asset_version demo_driver
        \<lparr>av_content = 3, av_meta = demo_meta, av_author = 1, av_at = 0, av_seq = 0\<rparr>
        \<lparr>tg_create = None, tg_write = (\<lambda>_. None), tg_flush = None\<rparr> J = ((K, [7, 8, 9]), Inr ())"
proof -
  let ?I = "demo_inner demo_ws asset_world"
  obtain s where w: "write_segments demo_driver 3 0 3 1 4 demo_file ?I = (?I\<lparr>in_world := s\<rparr>, Inr 3)"
    and s: "dw_entries s 7 (asset_key_key demo_hash 5 3) = Some \<lparr>ie_author = 11, ie_hash = 32, ie_len = 32\<rparr>" "dw_blobs s 32 = Some (replicate 32 0)"
    using demo_asset_written by blast
  obtain J' where opens: "facade_open_asset_key demo_driver 3 (?I\<lparr>in_world := s\<rparr>) = (J', Inr 0)"
    using demo_key_opens [of "?I\<lparr>in_world := s\<rparr>"] s by auto
  have "segments_for 3 4 = 1" by code_simp
  moreover have "\<forall>i < (1 :: u64). dw_entries asset_world 7 (asset_part_key demo_hash 5 3 i) = None"
    using demo_asset_keys by (simp add: asset_world_def)
  moreover have "aead_correct demo_aead" by (simp add: aead_correct_def demo_aead_def)
  ultimately show ?thesis
    using attached_asset_exports [of demo_driver dw_entries dw_blobs demo_file "[7, 8, 9]" demo_meta ?I 3 0, OF _ _ _ _ _ _ _ _ opens]
      w demo_replica by (simp add: demo_meta_def demo_file_def)
qed

section \<open>A restart\<close>

text \<open>A driver that can serialise the founder's snapshot, and a call that asks for a document the device does not have.\<close>

definition demo_saved :: "control_op list workspace_snapshot" where
  "demo_saved = projr (snd (workspace_snapshot_of demo_env demo_ws))"

definition saving_driver :: "(control_op list, nat, demo_doc, demo_world, nat, bytes) driver" where
  "saving_driver = demo_driver\<lparr>dv_encode_snapshot := (\<lambda>ss. if ss = demo_saved then Some [1] else None),
     dv_decode_snapshot := (\<lambda>_. Some demo_saved)\<rparr>"

lemma saving_driver_simps [simp]:
  "dv_env saving_driver = demo_env" "dv_transport saving_driver = demo_transport" "dv_store saving_driver = demo_store"
  by (simp_all add: saving_driver_def)

lemma demo_docs_unchanged: "\<forall>(doc, d) \<in> set ds. w_docs W doc = Some d \<Longrightarrow> fst (snapshot_docs demo_loro ds W) = W"
proof (induction ds)
  case (Cons a ds)
  obtain doc d where a: "a = (doc, d)" by fastforce
  with Cons.prems have "set_doc doc d W = W" by (simp add: set_doc_def map_upd_triv)
  with Cons show ?case by (auto simp: a snapshot_doc_def demo_loro_def and_then_def split: sum.split prod.split)
qed simp

lemma demo_snapshot_unchanged: "fst (workspace_snapshot_of demo_env W) = W"
proof -
  have "\<forall>(doc, d) \<in> set (sorted_entries (w_docs W)). w_docs W doc = Some d"
    by (cases "finite (dom (w_docs W))") (auto simp: sorted_entries_def)
  note docs = demo_docs_unchanged [OF this]
  have manifest: "fst (on_manifest (export_snapshot demo_loro) W) = W"
    by (simp add: on_manifest_def export_snapshot_def demo_loro_def)
  show ?thesis
    using docs manifest
    by (auto simp: workspace_snapshot_of_def demo_env_def and_then_def split: sum.split prod.split)
qed

lemma demo_exports_work: "exports_work demo_loro"
  by (simp add: exports_work_def demo_loro_def)

lemma demo_saved_snapshot: "workspace_snapshot_of demo_env demo_ws = (demo_ws, Inr demo_saved)"
proof -
  obtain W1 ss where "workspace_snapshot_of demo_env demo_ws = (W1, Inr ss)"
    using snapshot_works [of demo_env demo_ws] demo_exports_work by (auto simp: demo_ws_def joined_def)
  then show ?thesis using demo_snapshot_unchanged [of demo_ws] by (simp add: demo_saved_def)
qed

lemma demo_saved_encodes: "workspace_snapshot_of demo_env W = (demo_ws, Inr ss) \<Longrightarrow> dv_encode_snapshot saving_driver ss = Some [1]"
proof -
  assume w: "workspace_snapshot_of demo_env W = (demo_ws, Inr ss)"
  then have "W = demo_ws" using demo_snapshot_unchanged [of W] by simp
  with w demo_saved_snapshot show ?thesis by (simp add: saving_driver_def)
qed

lemma demo_healthy: "healthy (fst (write_private (workspace_path 1) bs demo_fs))"
  using write_private_atomic [OF tmp_is_no_slot, of "SnapshotSlot 1" bs demo_fs]
  by (cases "write_private (workspace_path 1) bs demo_fs") (auto simp: healthy_def demo_fs_def)

lemma demo_call:
  "drive saving_driver (EvRepairRequested 1 (RepairDocument 9) 0) (demo_inner demo_ws empty_world) =
     ((demo_inner demo_ws empty_world)\<lparr>in_node := demo_node\<lparr>nd_store :=
        Some (fst (write_private (workspace_path 1) (be_bytes 32 (7 :: bytes32) @ [1]) demo_fs))\<rparr>\<rparr>, Inr ())"
proof -
  let ?I = "demo_inner demo_ws empty_world" and ?ev = "EvRepairRequested 1 (RepairDocument 9) 0"
  have member: "is_current_member (w_cgka demo_ws) 1" by code_simp
  have held: "w_docs demo_ws 9 = None" by (simp add: demo_ws_def joined_def)
  have "feed saving_driver ?ev ?I = (?I\<lparr>in_state := demo_ws\<rparr>, Inr [])"
    by (simp add: feed_def io_def demo_transport_def with_state_def on_repair_requested_def member held)
  then have drive: "drive saving_driver ?ev ?I = (persist saving_driver (?I\<lparr>in_state := demo_ws\<rparr>), Inr ())"
    by (simp add: drive_def perform_def PUMP_DEPTH_def eval_nat_numeral)
  have recorded: "sc_encode_record demo_store \<lparr>wr_core = [1], wr_namespace = 7\<rparr> = Some (be_bytes 32 (7 :: bytes32) @ [1])"
    by (simp add: demo_store_def)
  have "?I\<lparr>in_state := demo_ws\<rparr> = ?I" unfolding demo_inner_def new_inner_def by (simp only: inner.simps)
  then show ?thesis
    by (simp add: drive persist_def with_state_def export_state_def demo_saved_snapshot demo_saved_encodes [OF demo_saved_snapshot]
        recorded serialized_def with_store_def store_workspace_def)
qed


end
