(* ===== verification/Peers_Examples.thy ===== *)
theory Peers_Examples
  imports Networked_Examples
begin

text \<open>Two devices of one workspace under a signature scheme that verifies two certificates only.\<close>

definition strict_crypto :: cert_crypto where
  "strict_crypto = demo_crypto\<lparr>cc_verify := (\<lambda>c. c = alice_grant \<or> c = alice_device)\<rparr>"

definition strict_env :: "(control_op list, nat, demo_doc) env" where
  "strict_env = demo_env\<lparr>e_crypto := strict_crypto\<rparr>"

lemma strict_env_simps [simp]:
  "e_beekem strict_env = demo_beekem" "e_crypto strict_env = strict_crypto" "e_loro strict_env = demo_loro"
  by (simp_all add: strict_env_def)

lemma strict_valid: "cert_valid strict_crypto c \<Longrightarrow> c \<in> {alice_grant, alice_device}"
  by (simp add: cert_valid_iff strict_crypto_def)

lemma strict_collision_free: "collision_free strict_crypto"
  unfolding collision_free_def
  by (rule inj_on_subset [of _ "{alice_grant, alice_device, stray_grant}"]) (use demo_inj strict_valid in \<open>auto simp: strict_crypto_def\<close>)

section \<open>Catching up\<close>

text \<open>The founder's workspace with one certificate, and with the other.\<close>

definition knows :: "certificate \<Rightarrow> (control_op list, nat, demo_doc) workspace" where
  "knows c = demo_ws\<lparr>w_cgka := fst (absorb_certificates strict_crypto [c] demo_founder)\<rparr>"

lemma strict_founder: "workspace_reachable strict_env demo_ws"
proof -
  have "controller_create demo_beekem strict_crypto 0 1 0 = Inr demo_founder"
    using demo_founder_created by (simp add: controller_create_def strict_crypto_def)
  then have "controller_initial demo_beekem strict_crypto demo_founder" by (rule controller_initial.intros)
  then show ?thesis
    using workspace_reachable.joined [of strict_env demo_founder 5 0] by (simp add: demo_ws_def)
qed

lemma knows_reachable: "workspace_reachable strict_env (knows c)"
proof -
  have "w_cgka demo_ws = demo_founder" by (simp add: demo_ws_def joined_def)
  then have "workspace_step strict_env demo_ws (knows c)"
    unfolding knows_def by (intro workspace_step.controller) (simp add: controller_step.intros)
  with strict_founder show ?thesis by (rule workspace_reachable.stepped)
qed

lemma knows_certificates:
  "certificates (capabilities (knows alice_grant)) = [alice_grant]" "certificates (capabilities (knows alice_device)) = [alice_device]"
  "cs_founder (capabilities (knows alice_grant)) = 1" "cs_founder (capabilities (knows alice_device)) = 1"
  by code_simp+


section \<open>Two joined devices\<close>

definition strict_driver :: "(control_op list, nat, demo_doc, demo_world, nat, bytes) driver" where
  "strict_driver = demo_driver\<lparr>dv_env := strict_env\<rparr>"

lemma strict_driver_simps [simp]:
  "dv_env strict_driver = strict_env" "dv_transport strict_driver = demo_transport" "dv_store strict_driver = demo_store"
  "dv_invites strict_driver = demo_invites"
  by (simp_all add: strict_driver_def)

lemma strict_joins:
  "is_ok (controller_join demo_beekem strict_crypto 1 20 5 [demo_add 1 1 1 [], demo_add 1 20 2 [1]] [alice_grant, alice_device] rng)"
  if "rng = 0 \<or> rng = 1" for rng
  using that by (elim disjE; hypsubst) code_simp+

lemma strict_accepted: "invite_verify demo_invites strict_crypto 20 100 demo_invite = Inr ()"
  by code_simp

lemma strict_both_valid: "cert_valid strict_crypto alice_grant" "cert_valid strict_crypto alice_device"
  by code_simp+

lemma strict_start:
  defines "S0 \<equiv> fst (store_extend strict_crypto [alice_grant, alice_device] (capability_store_new 1))"
  shows "store_wf strict_crypto S0 \<and> set (certificates S0) = {alice_grant, alice_device} \<and> cs_founder S0 = 1"
proof -
  have new: "store_wf strict_crypto (capability_store_new 1)" "cs_founder (capability_store_new 1) = 1" "certificates (capability_store_new 1) = []"
    using reaches_new [of strict_crypto] strict_collision_free
    by (auto simp: collision_free_def reaches_def capability_store_new_def certificates_def)
  show ?thesis
    using store_extend_wf [OF strict_collision_free new(1), of "[alice_grant, alice_device]"] new(2,3) strict_both_valid
    by (auto simp: S0_def)
qed

text \<open>Whatever happens after it joined, a device has exactly the two certificates that verify.\<close>

lemma strict_device:
  assumes "rng = (0 :: nat) \<or> rng = 1" and "nd_redeemed N = {}" and "\<not> nd_redeemed_poisoned N" and "nd_store N = None"
  shows "\<exists>I. device_step strict_driver (Stopped N s) (Running I) \<and> cs_founder (capabilities (in_state I)) = 1
    \<and> set (certificates (capabilities (in_state I))) = {alice_grant, alice_device}"
proof -
  obtain K where K: "controller_join demo_beekem strict_crypto 1 20 5 [demo_add 1 1 1 [], demo_add 1 20 2 [1]] [alice_grant, alice_device] rng = Inr K"
    using strict_joins [OF assms(1)] by (auto simp: is_ok_iff)
  have claim: "claim_invite demo_store 1 6 N = (N\<lparr>nd_redeemed := {(1, 6)}\<rparr>, True)" using assms(2-4) by (simp add: claim_invite_def)
  obtain S' I where I: "join strict_driver demo_invite demo_identity rng (N, s) = (S', Inr I)"
    using invited_joins [of strict_driver rng K N, OF _ _ _ _ _ _, of "N\<lparr>nd_redeemed := {(1, 6)}\<rparr>" s] K claim strict_accepted
    by (auto simp: strict_crypto_def)
  from I obtain K' where K': "controller_join demo_beekem strict_crypto 1 20 5 [demo_add 1 1 1 [], demo_add 1 20 2 [1]]
        [alice_grant, alice_device] rng = Inr K'"
      "advances strict_env (joined demo_loro K' 5 0) (in_state I)"
    by (cases rule: join_starts) (simp add: demo_invite_def demo_identity_def)
  have "certs_advance strict_crypto (fst (store_extend strict_crypto [alice_grant, alice_device] (capability_store_new 1))) (capabilities (in_state I))"
    using joined_certs [OF K'(1)] K'(2)
    by (auto simp: advances_def evolves_def joined_def demo_add_def elim!: certs_advance_trans)
  then have "store_wf strict_crypto (capabilities (in_state I))" "cs_founder (capabilities (in_state I)) = 1"
    "{alice_grant, alice_device} \<subseteq> set (certificates (capabilities (in_state I)))"
    using strict_start strict_collision_free by (auto simp: certs_advance_def)
  moreover from this(1) have "set (certificates (capabilities (in_state I))) \<subseteq> {alice_grant, alice_device}"
    using certificates_valid strict_valid unfolding store_wf_def by blast
  moreover have "device_step strict_driver (Stopped N s) (Running I)"
    using I device_step.joins [of strict_driver N s demo_invite demo_identity rng] by simp
  ultimately show ?thesis by blast
qed

theorem devices_agree_witness:
  "\<exists>I I'. (device_step strict_driver)\<^sup>*\<^sup>* (Stopped demo_node empty_world) (Running I)
    \<and> (device_step strict_driver)\<^sup>*\<^sup>* (Stopped (demo_node\<lparr>nd_endpoint := 10\<rparr>) asset_world) (Running I')
    \<and> capabilities (in_state I) = capabilities (in_state I')"
proof -
  let ?N = "demo_node\<lparr>nd_endpoint := 10\<rparr>"
  obtain I where I: "device_step strict_driver (Stopped demo_node empty_world) (Running I)"
      "cs_founder (capabilities (in_state I)) = 1" "set (certificates (capabilities (in_state I))) = {alice_grant, alice_device}"
    using strict_device [of 0 demo_node empty_world] by (auto simp: demo_node_def)
  obtain I' where I': "device_step strict_driver (Stopped ?N asset_world) (Running I')"
      "cs_founder (capabilities (in_state I')) = 1" "set (certificates (capabilities (in_state I'))) = {alice_grant, alice_device}"
    using strict_device [of 1 ?N asset_world] by (auto simp: demo_node_def)
  have faithful: "driver_codecs_faithful strict_driver"
    by (simp add: driver_codecs_faithful_def demo_store_faithful) (simp add: strict_driver_def demo_driver_def)
  have blank: "blank demo_node" "blank ?N" by (simp_all add: blank_def demo_node_def)
  have runs: "(device_step strict_driver)\<^sup>*\<^sup>* (Stopped demo_node empty_world) (Running I)"
    "(device_step strict_driver)\<^sup>*\<^sup>* (Stopped ?N asset_world) (Running I')"
    using I(1) I'(1) by blast+
  from devices_agree [OF faithful blank(1) runs(1) faithful blank(2) runs(2)] I(2,3) I'(2,3) runs
  show ?thesis by (auto simp: strict_collision_free)
qed

end
