(* ===== verification/Sim_Scenario.thy ===== *)
theory Sim_Scenario
  imports Protocol Cooldown
begin

text \<open>
  The vocabulary of the deterministic simulation (\<open>iroh-beekem-sim\<close>): its documents and schedule, the
  scenarios, the messages between simulated nodes, client operations and timers. A scenario's associated
  constants are a record; a \<open>Duration\<close> is its nanoseconds and a \<open>NodeId\<close> its number.
\<close>

type_synonym node_id = u64

section \<open>Documents and schedule\<close>

definition DOCS :: "document_uuid list" where
  "DOCS = [0x07070707070707070707070707070707, 0x08080808080808080808080808080808, 0x09090909090909090909090909090909]"

definition ASSET :: document_uuid where
  "ASSET = 0x0B0B0B0B0B0B0B0B0B0B0B0B0B0B0B0B"

definition ASSET_V1 :: document_uuid where
  "ASSET_V1 = 0x0C0C0C0C0C0C0C0C0C0C0C0C0C0C0C0C"

definition SIM_SEGMENT_BYTES :: u32 where
  "SIM_SEGMENT_BYTES = 256"

definition asset_plaintext :: bytes where
  "asset_plaintext = map (\<lambda>i. of_nat (i mod 251)) [0..<unat SIM_SEGMENT_BYTES * 2 + 37]"

definition millis :: "nat \<Rightarrow> nat" where
  "millis n = n * 10 ^ 6"

definition ATTACH_AT :: nat where
  "ATTACH_AT = millis 900"

definition ATTACH_LATE_AT :: nat where
  "ATTACH_LATE_AT = millis 7500"

definition DOC :: document_uuid where
  "DOC = DOCS ! 0"

definition FOUNDER :: node_id where
  "FOUNDER = 0"

definition FORGED_DOC :: document_uuid where
  "FORGED_DOC = DOCS ! 1"

definition ROGUE_AUTHOR :: node_id where
  "ROGUE_AUTHOR = - 1"

definition FIRST_EDIT :: nat where
  "FIRST_EDIT = millis 300"

definition EDIT_INTERVAL :: nat where
  "EDIT_INTERVAL = millis 200"

definition EDITS_PER_NODE :: u32 where
  "EDITS_PER_NODE = 2"

definition JOIN_RETRY :: nat where
  "JOIN_RETRY = millis 100"

definition JOIN_STAGGER :: nat where
  "JOIN_STAGGER = millis 400"

definition RESYNC_INTERVAL :: nat where
  "RESYNC_INTERVAL = millis 600"

definition MAX_RESYNCS :: u32 where
  "MAX_RESYNCS = 24"

definition MAX_RESYNCS_UNDER_WORKLOAD :: u32 where
  "MAX_RESYNCS_UNDER_WORKLOAD = 24"

definition LOG_REPAIR_EVERY :: u32 where
  "LOG_REPAIR_EVERY = 4"

definition RECONCILE_EVERY :: u32 where
  "RECONCILE_EVERY = 4"

definition SIM_REPAIR_COOLDOWN :: nat where
  "SIM_REPAIR_COOLDOWN = millis 500"

definition REPAIR_ANSWER_COOLDOWN :: nat where
  "REPAIR_ANSWER_COOLDOWN = 0"

definition ROTATE_INTERVAL :: nat where
  "ROTATE_INTERVAL = millis 350"

definition FIRST_ROTATE :: nat where
  "FIRST_ROTATE = millis 700"

definition MAX_ROTATIONS :: u32 where
  "MAX_ROTATIONS = 12"

definition REVOKE_AT :: nat where
  "REVOKE_AT = millis 3600"

definition POST_REVOCATION_DOC :: document_uuid where
  "POST_REVOCATION_DOC = DOCS ! 2"

definition WRITE_AFTER_REVOKE_AT :: nat where
  "WRITE_AFTER_REVOKE_AT = millis 6000"

definition POST_REVOCATION_PATH :: string where
  "POST_REVOCATION_PATH = ''/created-after-the-removal.txt''"

definition LEAVE_AT :: nat where
  "LEAVE_AT = millis 3000"

definition APPOINT_CO_ADMIN_AT :: nat where
  "APPOINT_CO_ADMIN_AT = millis 1500"

definition PROPOSE_AT :: nat where
  "PROPOSE_AT = millis 2500"

definition APPROVE_INTERVAL :: nat where
  "APPROVE_INTERVAL = millis 600"

definition FORGE_INTERVAL :: nat where
  "FORGE_INTERVAL = millis 300"

definition MAX_FORGERIES :: u32 where
  "MAX_FORGERIES = 10"

definition OVERREACH_INTERVAL :: nat where
  "OVERREACH_INTERVAL = millis 400"

definition MAX_OVERREACHES :: u32 where
  "MAX_OVERREACHES = 6"

section \<open>Scenarios\<close>

record scenario =
  sc_rotate :: bool
  sc_workload :: bool
  sc_revoke :: "node_id option"
  sc_forge :: bool
  sc_write_after_revoke :: bool
  sc_insider :: "node_id option"
  sc_revenant :: bool
  sc_outsider :: "node_id option"
  sc_invite_thief :: "node_id option"
  sc_leave :: "node_id option"
  sc_threshold :: u32
  sc_attach_asset :: bool
  sc_co_admin :: "node_id option"
  sc_second_device :: "(node_id \<times> node_id) option"
  sc_file_after_revoke :: bool
  sc_promote_after_revoke :: "node_id option"
  sc_attach_after_revoke :: bool
  sc_stagger_join :: bool

text \<open>The defaults of the trait are the base protocol.\<close>

definition Honest :: scenario where
  "Honest = \<lparr>sc_rotate = False, sc_workload = False, sc_revoke = None, sc_forge = False,
     sc_write_after_revoke = False, sc_insider = None, sc_revenant = False, sc_outsider = None,
     sc_invite_thief = None, sc_leave = None, sc_threshold = 1, sc_attach_asset = False, sc_co_admin = None,
     sc_second_device = None, sc_file_after_revoke = False, sc_promote_after_revoke = None,
     sc_attach_after_revoke = False, sc_stagger_join = False\<rparr>"

definition Onboarding :: scenario where
  "Onboarding = Honest\<lparr>sc_second_device := Some (2, 1), sc_stagger_join := True\<rparr>"

definition DeviceChurn :: scenario where
  "DeviceChurn = Honest\<lparr>sc_second_device := Some (2, 1), sc_revoke := Some 2, sc_write_after_revoke := True\<rparr>"

definition Assets :: scenario where
  "Assets = Honest\<lparr>sc_attach_asset := True\<rparr>"

definition AssetAfterRemoval :: scenario where
  "AssetAfterRemoval = Honest\<lparr>sc_attach_asset := True, sc_attach_after_revoke := True, sc_revoke := Some 2\<rparr>"

definition AssetChurn :: scenario where
  "AssetChurn = Honest\<lparr>sc_attach_asset := True, sc_revoke := Some 2\<rparr>"

definition Churn :: scenario where
  "Churn = Honest\<lparr>sc_rotate := True, sc_revoke := Some 2\<rparr>"

definition Forging :: scenario where
  "Forging = Honest\<lparr>sc_forge := True\<rparr>"

definition Eviction :: scenario where
  "Eviction = Honest\<lparr>sc_rotate := True, sc_revoke := Some 2, sc_write_after_revoke := True,
     sc_file_after_revoke := True, sc_promote_after_revoke := Some 1\<rparr>"

definition Outsider :: scenario where
  "Outsider = Honest\<lparr>sc_outsider := Some 3\<rparr>"

definition Insider :: scenario where
  "Insider = Honest\<lparr>sc_insider := Some 2\<rparr>"

definition Revenant :: scenario where
  "Revenant = Honest\<lparr>sc_insider := Some 2, sc_revenant := True, sc_revoke := Some 2, sc_write_after_revoke := True\<rparr>"

definition StolenInvite :: scenario where
  "StolenInvite = Honest\<lparr>sc_invite_thief := Some 3, sc_revoke := Some 2, sc_write_after_revoke := True\<rparr>"

definition Departure :: scenario where
  "Departure = Honest\<lparr>sc_leave := Some 2\<rparr>"

definition Quorum :: scenario where
  "Quorum = Honest\<lparr>sc_threshold := 2, sc_co_admin := Some 1, sc_revoke := Some 2\<rparr>"

definition Crud :: scenario where
  "Crud = Honest\<lparr>sc_workload := True\<rparr>"

definition CrudChurn :: scenario where
  "CrudChurn = Honest\<lparr>sc_workload := True, sc_rotate := True, sc_revoke := Some 2\<rparr>"

section \<open>Messages, operations and timers\<close>

datatype msg =
    Hello (hello_member: bytes32) (hello_share_key: bytes32) (hello_as_device_of: "bytes32 option")
  | Welcome (wel_invitee: bytes32) (wel_namespace: namespace_epoch) (wel_log: "control_op list")
      (wel_certs: "certificate list") (wel_secret: bytes32)
  | Control control_msg
  | Entry namespace_epoch storage_key_bytes node_id chunk
  | Segment namespace_epoch storage_key_bytes node_id bytes

datatype ws_op =
    OpAppend nat string
  | OpWrite nat string
  | OpInsert nat nat string
  | OpRemove nat nat nat
  | OpRead nat
  | OpRevert nat nat

fun doc_index :: "ws_op \<Rightarrow> nat" where
  "doc_index (OpAppend doc _) = doc"
| "doc_index (OpWrite doc _) = doc"
| "doc_index (OpInsert doc _ _) = doc"
| "doc_index (OpRemove doc _ _) = doc"
| "doc_index (OpRead doc) = doc"
| "doc_index (OpRevert doc _) = doc"

datatype ws_resp = RespText string | RespApplied

record entry_meta =
  em_author :: node_id
  em_size :: nat

datatype tick =
    TickJoin | TickEdit | TickResync | TickAttach | TickRotate | TickRevoke | TickLateEdit | TickForge
  | TickOverreach | TickLeave | TickAppointCoAdmin | TickProposeRemoval | TickApproveProposals

text \<open>
  What a callback asks of its context. An operation's token is the number the engine gave it.
\<close>

type_synonym op_token = u64

datatype sim_output =
    OutBroadcast msg
  | OutSend node_id msg
  | OutTimer tick nat
  | OutComplete op_token ws_resp

datatype op_outcome = OpPending | OpDone ws_resp

section \<open>Client operations on the wire\<close>

text \<open>
  \<open>Value\<close> of \<open>propsim\<close>: the cases the codec reads, and the rest. An \<open>i64\<close> that is not negative is a
  \<open>usize\<close>.
\<close>

datatype sim_value = VInt int | VStr string | VKeyword string | VList "sim_value list" | VOther

fun value_index :: "sim_value \<Rightarrow> nat option" where
  "value_index (VInt i) = (if 0 \<le> i then Some (nat i) else None)"
| "value_index _ = None"

text \<open>The first arm whose shape and keyword match; a document that is no index then fails the whole.\<close>

definition decode_op :: "sim_value \<Rightarrow> (string \<times> ws_op) option" where
  "decode_op v = (case v of
     VList items \<Rightarrow> (case items of
         [VKeyword f, d] \<Rightarrow>
           if f = ''read'' then map_option (\<lambda>doc. (''read'', OpRead doc)) (value_index d) else None
       | [VKeyword f, d, x] \<Rightarrow>
           if f = ''append'' then
             (case x of VStr t \<Rightarrow> map_option (\<lambda>doc. (''append'', OpAppend doc t)) (value_index d) | _ \<Rightarrow> None)
           else if f = ''write'' then
             (case x of VStr t \<Rightarrow> map_option (\<lambda>doc. (''write'', OpWrite doc t)) (value_index d) | _ \<Rightarrow> None)
           else if f = ''revert'' then
             Option.bind (value_index d) (\<lambda>doc. map_option (\<lambda>n. (''revert'', OpRevert doc n)) (value_index x))
           else None
       | [VKeyword f, d, p, x] \<Rightarrow>
           if f = ''insert'' then
             (case x of VStr t \<Rightarrow> Option.bind (value_index d) (\<lambda>doc.
                map_option (\<lambda>pos. (''insert'', OpInsert doc pos t)) (value_index p)) | _ \<Rightarrow> None)
           else if f = ''remove'' then
             Option.bind (value_index d) (\<lambda>doc. Option.bind (value_index p) (\<lambda>pos.
               map_option (\<lambda>len. (''remove'', OpRemove doc pos len)) (value_index x)))
           else None
       | _ \<Rightarrow> None)
   | _ \<Rightarrow> None)"

text \<open>The values that the generated workloads are made of.\<close>

fun workload_value :: "ws_op \<Rightarrow> sim_value" where
  "workload_value (OpAppend d t) = VList [VKeyword ''append'', VInt (int d), VStr t]"
| "workload_value (OpWrite d t) = VList [VKeyword ''write'', VInt (int d), VStr t]"
| "workload_value (OpInsert d p t) = VList [VKeyword ''insert'', VInt (int d), VInt (int p), VStr t]"
| "workload_value (OpRemove d p l) = VList [VKeyword ''remove'', VInt (int d), VInt (int p), VInt (int l)]"
| "workload_value (OpRevert d b) = VList [VKeyword ''revert'', VInt (int d), VInt (int b)]"
| "workload_value (OpRead d) = VList [VKeyword ''read'', VInt (int d)]"

fun encode_response :: "ws_resp \<Rightarrow> sim_value" where
  "encode_response (RespText t) = VStr t"
| "encode_response RespApplied = VKeyword ''applied''"

lemma decode_workload: "map_option snd (decode_op (workload_value op)) = Some op"
  by (cases op) (simp_all add: decode_op_def)

end
