(* ===== verification/Sim_Node.thy ===== *)
theory Sim_Node
  imports Sim_Scenario Attachments
begin

text \<open>
  A simulated node (\<open>WorkspaceNode\<close> of \<open>iroh-beekem-sim\<close>): a second driver of the core beside the networked
  workspace, without a transport. \<open>propsim\<close> is not part of this repository: a callback gets the node's number
  and the virtual time, and what it asks of its context (broadcasts, unicasts, timers, completions) is appended
  to \<open>wn_out\<close> in order. Every call of the core draws from a generator seeded for it (\<open>reseed\<close>).
\<close>

section \<open>What the crate is built on\<close>

text \<open>
  \<open>si_seed\<close> is \<open>ChaCha20Rng::seed_from_u64\<close>, \<open>si_gen_signer\<close> is \<open>MemorySigner::generate\<close>,
  \<open>si_init_add\<close> is \<open>CgkaOperation::init_add\<close>, \<open>si_sign\<close> is \<open>try_sign_sync\<close>.
\<close>

record ('c, 'r, 'd, 'h) sim =
  si_env :: "('c, 'r, 'd) env"
  si_aead :: aead_lib
  si_hasher :: "'h hasher"
  si_encode_snapshot :: "'c workspace_snapshot \<Rightarrow> bytes option"
  si_decode_snapshot :: "bytes \<Rightarrow> 'c workspace_snapshot option"
  si_seed :: "u64 \<Rightarrow> 'r"
  si_gen_signer :: "'r \<Rightarrow> 'r \<times> bytes32"
  si_init_add :: "bytes32 \<Rightarrow> bytes32 \<Rightarrow> bytes32 \<Rightarrow> cgka_operation"
  si_sign :: "bytes32 \<Rightarrow> cgka_operation \<Rightarrow> control_op option"
  si_scenario :: scenario

text \<open>\<open>Ctx\<close>: who is called, and the virtual time in nanoseconds.\<close>

record ctx =
  cx_me :: node_id
  cx_now :: nat

section \<open>The node\<close>

record disk =
  dk_state :: bytes
  dk_index :: "(storage_key_bytes, entry_meta) btree_map"
  dk_replica :: "(storage_key_bytes, node_id \<times> chunk) btree_map"
  dk_segments :: "(storage_key_bytes, bytes) btree_map"
  dk_bootstrap :: "node_id btree_set"
  dk_contributed :: "string list"

record ('c, 'r, 'd) ws_node =
  wn_state :: "('c, 'r, 'd) workspace option"
  wn_signer :: "bytes32 option"
  wn_share_secret :: "bytes32 option"
  wn_inbox :: "msg list"
  wn_edits_made :: u32
  wn_resyncs_done :: u32
  wn_rotations_done :: u32
  wn_forgeries_made :: u32
  wn_last_published :: "chunk option"
  wn_overreaches_made :: u32
  wn_refused_messages :: u64
  wn_me :: node_id
  wn_contributed :: "string list"
  wn_index :: "(storage_key_bytes, entry_meta) btree_map"
  wn_replica :: "(storage_key_bytes, node_id \<times> chunk) btree_map"
  wn_segments :: "(storage_key_bytes, bytes) btree_map"
  wn_asset_view :: "bytes option"
  wn_roster :: "node_id btree_set"
  wn_bootstrap :: "node_id btree_set"
  wn_namespace :: namespace_epoch
  wn_observed_ops :: u64
  wn_repair_sent :: "(repair_target \<times> epoch_id) cooldown"
  wn_refused :: "(storage_key_bytes \<times> node_id \<times> chunk) list"
  wn_repair_answers :: "bytes32 cooldown"
  wn_deferred_ops :: "(op_token \<times> ws_op) list"
  wn_approved :: "bytes32 btree_set"
  wn_left :: bool
  wn_stolen_invite :: bool
  wn_disk :: "disk option"
  wn_started :: bool
  wn_reboots :: u32
  wn_initialisations :: u32
  wn_out :: "sim_output list"

text \<open>\<open>Default\<close>\<close>

definition node_default :: "('c, 'r, 'd) ws_node" where
  "node_default = \<lparr>wn_state = None, wn_signer = None, wn_share_secret = None, wn_inbox = [], wn_edits_made = 0,
     wn_resyncs_done = 0, wn_rotations_done = 0, wn_forgeries_made = 0, wn_last_published = None,
     wn_overreaches_made = 0, wn_refused_messages = 0, wn_me = 0, wn_contributed = [], wn_index = [],
     wn_replica = [], wn_segments = [], wn_asset_view = None, wn_roster = [], wn_bootstrap = [],
     wn_namespace = NAMESPACE_INITIAL, wn_observed_ops = 0, wn_repair_sent = cooldown_default, wn_refused = [],
     wn_repair_answers = cooldown_default, wn_deferred_ops = [], wn_approved = [], wn_left = False,
     wn_stolen_invite = False, wn_disk = None, wn_started = False, wn_reboots = 0, wn_initialisations = 0,
     wn_out = []\<rparr>"

definition emit :: "sim_output \<Rightarrow> ('c, 'r, 'd) ws_node \<Rightarrow> ('c, 'r, 'd) ws_node" where
  "emit o' N = N\<lparr>wn_out := wn_out N @ [o']\<rparr>"

section \<open>Identities and addresses\<close>

definition SIM_EPOCH :: int where
  "SIM_EPOCH = 1767225600"

definition wall_clock :: "nat \<Rightarrow> unix_seconds" where
  "wall_clock elapsed = min (SIM_EPOCH + min (int (elapsed div 10 ^ 9)) (2 ^ 63 - 1)) (2 ^ 63 - 1)"

definition node_rng :: "('c, 'r, 'd, 'h) sim \<Rightarrow> node_id \<Rightarrow> u64 \<Rightarrow> 'r" where
  "node_rng S n salt = si_seed S (n * 0x9E3779B9 + salt)"

definition signer_of :: "('c, 'r, 'd, 'h) sim \<Rightarrow> node_id \<Rightarrow> u64 \<Rightarrow> bytes32" where
  "signer_of S n salt = snd (si_gen_signer S (node_rng S n salt))"

definition sim_tree_id :: "('c, 'r, 'd, 'h) sim \<Rightarrow> bytes32" where
  "sim_tree_id S = cc_verifying_key (e_crypto (si_env S)) (snd (si_gen_signer S (si_seed S 0xFEED)))"

definition member_bytes_of :: "('c, 'r, 'd, 'h) sim \<Rightarrow> node_id \<Rightarrow> bytes32" where
  "member_bytes_of S n = cc_verifying_key (e_crypto (si_env S)) (signer_of S n 0xA1)"

text \<open>The little-endian bytes of an integer, and the integer they stand for.\<close>

definition le_bytes :: "nat \<Rightarrow> 'w::len word \<Rightarrow> bytes" where
  "le_bytes n w = rev (be_bytes n w)"

definition from_le_bytes :: "bytes \<Rightarrow> u64" where
  "from_le_bytes bs = (case be_word 8 (rev bs) of None \<Rightarrow> 0 | Some w \<Rightarrow> w)"

fun control_salt :: "control_msg \<Rightarrow> u64" where
  "control_salt (MsgOp _ _) = 2"
| "control_salt (MsgCerts _) = 5"
| "control_salt (MsgLog _ _) = 4"
| "control_salt (MsgNamespace _ _) = 6"
| "control_salt (MsgAnnounce _) = 7"
| "control_salt (MsgRepair _ _ epoch) = from_le_bytes (take 8 (be_bytes 32 epoch))"

definition workspace_secret_bytes :: workspace_secret where
  "workspace_secret_bytes = 0x5A5A5A5A5A5A5A5A5A5A5A5A5A5A5A5A5A5A5A5A5A5A5A5A5A5A5A5A5A5A5A5A"

definition doc_key :: "('c, 'r, 'd, 'h) sim \<Rightarrow> document_uuid \<Rightarrow> storage_key_bytes" where
  "doc_key S doc = storage_key (e_hash (si_env S)) workspace_secret_bytes doc"

definition sim_manifest_key :: "('c, 'r, 'd, 'h) sim \<Rightarrow> storage_key_bytes" where
  "sim_manifest_key S = manifest_key (e_hash (si_env S)) workspace_secret_bytes"

text \<open>The bytes of \<open>propsim\<close> and a zero.\<close>

definition ENDPOINT_TAG :: bytes where
  "ENDPOINT_TAG = [0x70, 0x72, 0x6F, 0x70, 0x73, 0x69, 0x6D, 0]"

definition endpoint_of :: "node_id \<Rightarrow> bytes32" where
  "endpoint_of n = the (be_word 32 (ENDPOINT_TAG @ le_bytes 8 n @ replicate 16 0))"

definition node_of_endpoint :: "bytes32 \<Rightarrow> node_id option" where
  "node_of_endpoint b = (let bs = be_bytes 32 b in
     if take 8 bs \<noteq> ENDPOINT_TAG \<or> drop 16 bs \<noteq> replicate 16 0 then None
     else Some (from_le_bytes (take 8 (drop 8 bs))))"

definition minted_ticket :: "node_id \<Rightarrow> u32 \<Rightarrow> bytes" where
  "minted_ticket minter epoch = map of_char ''propsim-namespace'' @ le_bytes 8 minter @ le_bytes 4 epoch"

text \<open>\<open>format!("{}", n)\<close>\<close>

fun decimal :: "nat \<Rightarrow> string" where
  "decimal n = (if n < 10 then [hex_digit n] else decimal (n div 10) @ [hex_digit (n mod 10)])"

declare decimal.simps [simp del]

section \<open>Questions a property asks of a node\<close>

definition is_revocation_target :: "('c, 'r, 'd, 'h) sim \<Rightarrow> ('c, 'r, 'd) ws_node \<Rightarrow> bool" where
  "is_revocation_target S N \<longleftrightarrow> sc_revoke (si_scenario S) = Some (wn_me N)"

definition has_joined :: "('c, 'r, 'd) ws_node \<Rightarrow> bool" where
  "has_joined N \<longleftrightarrow> wn_state N \<noteq> None"

definition is_invite_thief :: "('c, 'r, 'd, 'h) sim \<Rightarrow> ('c, 'r, 'd) ws_node \<Rightarrow> bool" where
  "is_invite_thief S N \<longleftrightarrow> sc_invite_thief (si_scenario S) = Some (wn_me N)"

definition is_departing :: "('c, 'r, 'd, 'h) sim \<Rightarrow> ('c, 'r, 'd) ws_node \<Rightarrow> bool" where
  "is_departing S N \<longleftrightarrow> sc_leave (si_scenario S) = Some (wn_me N)"

text \<open>A question to the state, with the answer before there is one.\<close>

definition of_state :: "'a \<Rightarrow> (('c, 'r, 'd) workspace \<Rightarrow> 'a) \<Rightarrow> ('c, 'r, 'd) ws_node \<Rightarrow> 'a" where
  "of_state x f N = (case wn_state N of None \<Rightarrow> x | Some W \<Rightarrow> f W)"

definition node_threshold :: "('c, 'r, 'd) ws_node \<Rightarrow> u32" where
  "node_threshold = of_state 1 (\<lambda>W. cs_threshold (capabilities W))"

definition approvals_for :: "bytes32 \<Rightarrow> ('c, 'r, 'd) ws_node \<Rightarrow> nat" where
  "approvals_for proposal = of_state 0 (\<lambda>W. approver_count (capabilities W) proposal)"

definition node_proposals :: "('c, 'r, 'd) ws_node \<Rightarrow> proposal_status list" where
  "node_proposals = of_state [] (\<lambda>W. proposals (capabilities W))"

definition document_text_of :: "('c, 'r, 'd, 'h) sim \<Rightarrow> document_uuid \<Rightarrow> ('c, 'r, 'd) ws_node \<Rightarrow> string" where
  "document_text_of S doc = of_state [] (document_text (e_loro (si_env S)) doc)"

definition all_text :: "('c, 'r, 'd, 'h) sim \<Rightarrow> ('c, 'r, 'd) ws_node \<Rightarrow> string list" where
  "all_text S N = map (\<lambda>d. document_text_of S d N) DOCS"

definition node_evictions :: "('c, 'r, 'd) ws_node \<Rightarrow> u64" where
  "node_evictions = of_state 0 (\<lambda>W. w_evicted_chunks W + k_evicted_ops (w_cgka W))"

definition node_pending_chunks :: "('c, 'r, 'd) ws_node \<Rightarrow> nat" where
  "node_pending_chunks = of_state 0 (\<lambda>W. length (w_pending_chunks W))"

definition node_evicted_chunks :: "('c, 'r, 'd) ws_node \<Rightarrow> u64" where
  "node_evicted_chunks = of_state 0 w_evicted_chunks"

definition node_parked_ops :: "('c, 'r, 'd) ws_node \<Rightarrow> nat" where
  "node_parked_ops = of_state 0 (\<lambda>W. length (k_parked (w_cgka W)))"

definition node_unreadable_chunks :: "('c, 'r, 'd) ws_node \<Rightarrow> u64" where
  "node_unreadable_chunks = of_state 0 w_unreadable_chunks"

definition node_corrupt_chunks :: "('c, 'r, 'd) ws_node \<Rightarrow> u64" where
  "node_corrupt_chunks = of_state 0 w_corrupt_chunks"

definition node_repairs_answered :: "('c, 'r, 'd) ws_node \<Rightarrow> u64" where
  "node_repairs_answered = of_state 0 w_repairs_answered"

definition node_group_size :: "('c, 'r, 'd, 'h) sim \<Rightarrow> ('c, 'r, 'd) ws_node \<Rightarrow> u32" where
  "node_group_size S = of_state 0 (\<lambda>W. group_size (e_beekem (si_env S)) (w_cgka W))"

definition node_admin_count :: "('c, 'r, 'd) ws_node \<Rightarrow> nat" where
  "node_admin_count = of_state 0 (\<lambda>W. admin_count (capabilities W))"

definition certified_device_count :: "('c, 'r, 'd) ws_node \<Rightarrow> nat" where
  "certified_device_count = of_state 0 (\<lambda>W. length (certified_devices (capabilities W)))"

definition node_roster :: "('c, 'r, 'd) ws_node \<Rightarrow> node_id list" where
  "node_roster N = bs_of (wn_roster N @ wn_bootstrap N)"

definition node_role_of :: "bytes32 \<Rightarrow> ('c, 'r, 'd) ws_node \<Rightarrow> role option" where
  "node_role_of user = of_state None (\<lambda>W. role_of (capabilities W) user)"

definition certified_users :: "('c, 'r, 'd) ws_node \<Rightarrow> bytes32 list" where
  "certified_users = of_state [] (\<lambda>W.
     remdups_adj (sort (List.map_filter (user_of (capabilities W)) (certified_devices (capabilities W)))))"

definition user_of_this_device :: "('c, 'r, 'd) ws_node \<Rightarrow> bytes32 option" where
  "user_of_this_device = of_state None (\<lambda>W. user_of (capabilities W) (me W))"

definition devices_of_user :: "('c, 'r, 'd, 'h) sim \<Rightarrow> bytes32 \<Rightarrow> ('c, 'r, 'd) ws_node \<Rightarrow> nat" where
  "devices_of_user S user = of_state 0 (\<lambda>W. length (workspace_devices_of (e_loro (si_env S)) user W))"

definition member_bytes :: "('c, 'r, 'd) ws_node \<Rightarrow> bytes32" where
  "member_bytes = of_state 0 me"

definition observed_keys :: "('c, 'r, 'd) ws_node \<Rightarrow> storage_key_bytes list" where
  "observed_keys N = map fst (wn_index N)"

definition has_rotated :: "('c, 'r, 'd) ws_node \<Rightarrow> bool" where
  "has_rotated N \<longleftrightarrow> wn_namespace N \<noteq> NAMESPACE_INITIAL"

definition is_on_roster :: "node_id \<Rightarrow> ('c, 'r, 'd) ws_node \<Rightarrow> bool" where
  "is_on_roster peer N \<longleftrightarrow> peer \<in> set (wn_roster N) \<or> peer \<in> set (wn_bootstrap N)"

definition holds_asset_key :: "('c, 'r, 'd, 'h) sim \<Rightarrow> ('c, 'r, 'd) ws_node \<Rightarrow> bool" where
  "holds_asset_key S N \<longleftrightarrow>
     bm_get (wn_replica N) (asset_key_key (e_hash (si_env S)) workspace_secret_bytes ASSET_V1) \<noteq> None"

definition inviter :: "('c, 'r, 'd, 'h) sim \<Rightarrow> ('c, 'r, 'd) ws_node \<Rightarrow> node_id" where
  "inviter S N = (case sc_second_device (si_scenario S) of
     Some (device, primary) \<Rightarrow> if device = wn_me N then primary else FOUNDER | None \<Rightarrow> FOUNDER)"

definition enrolling_user :: "('c, 'r, 'd, 'h) sim \<Rightarrow> ('c, 'r, 'd) ws_node \<Rightarrow> bytes32 option" where
  "enrolling_user S N = (case sc_second_device (si_scenario S) of
     None \<Rightarrow> None
   | Some (device, primary) \<Rightarrow> if device \<noteq> wn_me N then None else Some (member_bytes_of S primary))"

section \<open>Calls of the core\<close>

definition reseed :: "'r \<Rightarrow> ('c, 'r, 'd) workspace \<Rightarrow> ('c, 'r, 'd) workspace" where
  "reseed rng W = W\<lparr>w_cgka := (w_cgka W)\<lparr>k_rng := rng\<rparr>\<rparr>"

text \<open>A call on the state; \<open>None\<close> when there is none yet.\<close>

definition on_core ::
  "(('c, 'r, 'd) workspace \<Rightarrow> ('c, 'r, 'd) workspace \<times> 'a) \<Rightarrow> ('c, 'r, 'd) ws_node \<Rightarrow> ('c, 'r, 'd) ws_node \<times> 'a option" where
  "on_core f N = (case wn_state N of
     None \<Rightarrow> (N, None) | Some W \<Rightarrow> (case f W of (W, x) \<Rightarrow> (N\<lparr>wn_state := Some W\<rparr>, Some x)))"

type_synonym ('c, 'r, 'd) sim_pump = "effect list \<Rightarrow> u64 \<Rightarrow> ('c, 'r, 'd) ws_node \<Rightarrow> ('c, 'r, 'd) ws_node option"

text \<open>
  A seeded call whose effects are then performed with the pump and the salt given, unless it fails.
\<close>

definition call_core ::
  "('c, 'r, 'd, 'h) sim \<Rightarrow> ctx \<Rightarrow> ('c, 'r, 'd) sim_pump \<Rightarrow> u64 \<Rightarrow> u64 \<Rightarrow> (('c, 'r, 'd) workspace \<Rightarrow> ('c, 'r, 'd, effect list) wstep)
     \<Rightarrow> ('c, 'r, 'd) ws_node \<Rightarrow> ('c, 'r, 'd) ws_node option" where
  "call_core S cx p seed salt f N =
     (case on_core (\<lambda>W. f (reseed (node_rng S (cx_me cx) seed) W)) N of
        (N, Some (Inr effects)) \<Rightarrow> p effects salt N
      | (N, _) \<Rightarrow> Some N)"

definition sim_drive ::
  "('c, 'r, 'd, 'h) sim \<Rightarrow> ctx \<Rightarrow> ('c, 'r, 'd) sim_pump \<Rightarrow> event \<Rightarrow> u64 \<Rightarrow> ('c, 'r, 'd) ws_node \<Rightarrow> ('c, 'r, 'd) ws_node option" where
  "sim_drive S cx p ev salt N = call_core S cx p salt salt (handle (si_env S) (wall_clock (cx_now cx)) ev) N"

fun drive_each ::
  "('c, 'r, 'd, 'h) sim \<Rightarrow> ctx \<Rightarrow> ('c, 'r, 'd) sim_pump \<Rightarrow> (event \<times> u64) list \<Rightarrow> ('c, 'r, 'd) ws_node \<Rightarrow> ('c, 'r, 'd) ws_node option" where
  "drive_each S cx p [] N = Some N"
| "drive_each S cx p ((ev, salt) # evs) N = do { N \<leftarrow> sim_drive S cx p ev salt N; drive_each S cx p evs N }"

text \<open>\<open>for (i, event) in events.enumerate()\<close> with the salt \<open>base + i\<close>\<close>

definition salted :: "u64 \<Rightarrow> event list \<Rightarrow> (event \<times> u64) list" where
  "salted base evs = zip evs (map (\<lambda>i. base + of_nat i) [0..<length evs])"

section \<open>The modelled replica\<close>

definition observe :: "storage_key_bytes \<Rightarrow> node_id \<Rightarrow> chunk \<Rightarrow> ('c, 'r, 'd) ws_node \<Rightarrow> ('c, 'r, 'd) ws_node" where
  "observe key author ch N = N\<lparr>
     wn_index := bm_insert key \<lparr>em_author = author, em_size = length (ch_ciphertext ch)\<rparr> (wn_index N),
     wn_replica := bm_insert key (author, ch) (wn_replica N)\<rparr>"

definition reconcile :: "('c, 'r, 'd) ws_node \<Rightarrow> ('c, 'r, 'd) ws_node" where
  "reconcile N = N\<lparr>wn_out := wn_out N
     @ map (\<lambda>(key, author, ch). OutBroadcast (Entry (wn_namespace N) key author ch)) (wn_replica N)
     @ map (\<lambda>(key, bs). OutBroadcast (Segment (wn_namespace N) key (wn_me N) bs)) (wn_segments N)\<rparr>"

definition sim_refresh_roster :: "('c, 'r, 'd, 'h) sim \<Rightarrow> ('c, 'r, 'd) ws_node \<Rightarrow> ('c, 'r, 'd) ws_node" where
  "sim_refresh_roster S N = (case wn_state N of
     None \<Rightarrow> N
   | Some W \<Rightarrow> N\<lparr>wn_roster := bs_of (List.map_filter node_of_endpoint (workspace_roster (e_loro (si_env S)) W))\<rparr>)"

fun sim_admits :: "node_id \<Rightarrow> msg \<Rightarrow> ('c, 'r, 'd) ws_node \<Rightarrow> bool" where
  "sim_admits from' (Hello _ _ _) N = True"
| "sim_admits from' (Welcome _ _ _ _ _) N = True"
| "sim_admits from' (Control _) N = is_on_roster from' N"
| "sim_admits from' (Entry _ _ _ _) N = is_on_roster from' N"
| "sim_admits from' (Segment _ _ _ _) N = is_on_roster from' N"

definition sim_author_may_write :: "('c, 'r, 'd, 'h) sim \<Rightarrow> node_id \<Rightarrow> ('c, 'r, 'd) ws_node \<Rightarrow> bool" where
  "sim_author_may_write S author N \<longleftrightarrow>
     author = wn_me N \<or> of_state False (author_may_write (e_loro (si_env S)) (member_bytes_of S author)) N"

text \<open>The segments of an asset as this node holds them, opened one by one.\<close>

definition gather_segments ::
  "('c, 'r, 'd, 'h) sim \<Rightarrow> bytes32 \<Rightarrow> document_uuid \<Rightarrow> asset_meta \<Rightarrow> ('c, 'r, 'd) ws_node \<Rightarrow> bytes option" where
  "gather_segments S key content meta N =
     (let H = e_hash (si_env S) in
      map_option concat (those (map (\<lambda>index.
        Option.bind (bm_get (wn_segments N) (asset_part_key H workspace_secret_bytes content index)) (\<lambda>sealed.
          case open_segment H (si_aead S) key content index (am_segments meta) (am_segment_bytes meta)
                 (payload_len meta index) sealed of
            Inl _ \<Rightarrow> None | Inr piece \<Rightarrow> Some piece)) (segment_indices (am_segments meta)))))"

definition read_asset :: "('c, 'r, 'd, 'h) sim \<Rightarrow> ('c, 'r, 'd) ws_node \<Rightarrow> ('c, 'r, 'd) ws_node \<times> bytes option" where
  "read_asset S N =
     (let E = si_env S in
      case of_state None (\<lambda>W. max_by_key precedence (manifest_asset_versions (e_loro E) (e_codec E) ASSET (w_manifest W))) N of
        None \<Rightarrow> (N, None)
      | Some current \<Rightarrow>
          (case bm_get (wn_replica N) (asset_key_key (e_hash E) workspace_secret_bytes (av_content current)) of
             None \<Rightarrow> (N, None)
           | Some (_, key_chunk) \<Rightarrow>
               (case on_core (open_asset_key E key_chunk) N of
                  (N, Some (AkReady key)) \<Rightarrow>
                    (N, Option.bind (gather_segments S key (av_content current) (av_meta current) N) (\<lambda>out.
                          if content_digest_new_over (si_hasher S) out = am_content_hash (av_meta current) then Some out else None))
                | (N, _) \<Rightarrow> (N, None))))"

definition refresh_asset_view :: "('c, 'r, 'd, 'h) sim \<Rightarrow> ('c, 'r, 'd) ws_node \<Rightarrow> ('c, 'r, 'd) ws_node" where
  "refresh_asset_view S N =
     (if \<not> sc_attach_asset (si_scenario S) then N
      else case read_asset S N of (N, Some view) \<Rightarrow> N\<lparr>wn_asset_view := Some view\<rparr> | (N, None) \<Rightarrow> N)"

definition on_segment ::
  "('c, 'r, 'd, 'h) sim \<Rightarrow> namespace_epoch \<Rightarrow> storage_key_bytes \<Rightarrow> bytes \<Rightarrow> ('c, 'r, 'd) ws_node \<Rightarrow> ('c, 'r, 'd) ws_node" where
  "on_segment S namespace key bs N =
     (if namespace \<noteq> wn_namespace N then N
      else refresh_asset_view S (N\<lparr>wn_segments := bm_insert key bs (wn_segments N)\<rparr>))"

section \<open>The pump\<close>

definition ask_for_repair ::
  "ctx \<Rightarrow> repair_target \<Rightarrow> epoch_id \<Rightarrow> ('c, 'r, 'd) ws_node \<Rightarrow> ('c, 'r, 'd) ws_node" where
  "ask_for_repair cx target epoch N =
     (case wn_state N of
        None \<Rightarrow> N
      | Some W \<Rightarrow> (case claim (target, epoch) (cx_now cx) (wn_repair_sent N) of
            (c, True) \<Rightarrow> emit (OutBroadcast (Control (MsgRepair (me W) target epoch))) (N\<lparr>wn_repair_sent := c\<rparr>)
          | (c, False) \<Rightarrow> N\<lparr>wn_repair_sent := c\<rparr>))"

text \<open>What the loop over the effects leaves to be done after it.\<close>

record follow_ups =
  fu_mint :: "(u32 \<times> bytes) option"
  fu_republish :: bool
  fu_eviction :: "bytes32 option"
  fu_reseal :: "(bytes32 \<times> document_uuid) list"
  fu_retry :: bool

definition no_follow_ups :: follow_ups where
  "no_follow_ups = \<lparr>fu_mint = None, fu_republish = False, fu_eviction = None, fu_reseal = [], fu_retry = False\<rparr>"

definition store_entry ::
  "('c, 'r, 'd, 'h) sim \<Rightarrow> ctx \<Rightarrow> storage_key_bytes \<Rightarrow> chunk \<Rightarrow> ('c, 'r, 'd) ws_node \<Rightarrow> ('c, 'r, 'd) ws_node" where
  "store_entry S cx key ch N =
     (let N = (if sc_forge (si_scenario S) \<and> key \<noteq> sim_manifest_key S then N\<lparr>wn_last_published := Some ch\<rparr> else N);
          N = observe key (cx_me cx) ch N
      in emit (OutBroadcast (Entry (wn_namespace N) key (cx_me cx) ch)) N)"

definition retain_entries :: "(storage_key_bytes \<Rightarrow> bool) \<Rightarrow> ('c, 'r, 'd) ws_node \<Rightarrow> ('c, 'r, 'd) ws_node" where
  "retain_entries keep N = N\<lparr>wn_index := filter (\<lambda>(k, _). keep k) (wn_index N),
     wn_replica := filter (\<lambda>(k, _). keep k) (wn_replica N)\<rparr>"

definition adopt :: "('c, 'r, 'd, 'h) sim \<Rightarrow> u32 \<Rightarrow> bytes \<Rightarrow> ('c, 'r, 'd) ws_node \<Rightarrow> ('c, 'r, 'd) ws_node" where
  "adopt S epoch ticket N =
     (let carried = of_state [] (asset_index_keys (si_env S)) N
      in retain_entries (\<lambda>k. k \<in> set carried)
           (N\<lparr>wn_namespace := namespace_epoch_of (e_hash (si_env S)) epoch ticket, wn_refused := []\<rparr>))"

fun sim_effect ::
  "('c, 'r, 'd, 'h) sim \<Rightarrow> ctx \<Rightarrow> effect \<Rightarrow> ('c, 'r, 'd) ws_node \<times> follow_ups \<Rightarrow> ('c, 'r, 'd) ws_node \<times> follow_ups" where
  "sim_effect S cx (BroadcastOp op prf) (N, P) = (emit (OutBroadcast (Control (MsgOp op prf))) N, P)"
| "sim_effect S cx (BroadcastCerts certs) (N, P) = (emit (OutBroadcast (Control (MsgCerts certs))) N, P)"
| "sim_effect S cx (EvictUncertified m) (N, P) = (N, P\<lparr>fu_eviction := Some m\<rparr>)"
| "sim_effect S cx (StoreChunk key _ ch) (N, P) = (store_entry S cx key ch N, P)"
| "sim_effect S cx (StoreManifest key ch) (N, P) = (store_entry S cx key ch N, P)"
| "sim_effect S cx (DeleteEntry key _) (N, P) = (retain_entries (\<lambda>k. k \<noteq> key) N, P)"
| "sim_effect S cx (DeleteAssetSegments pre _) (N, P) =
     (retain_entries (\<lambda>k. take 24 (be_bytes 32 k) \<noteq> be_bytes 24 pre) N, P)"
| "sim_effect S cx (RequestRepair target epoch) (N, P) = (ask_for_repair cx target epoch N, P)"
| "sim_effect S cx (ResealAssetKey requester asset) (N, P) = (N, P\<lparr>fu_reseal := fu_reseal P @ [(requester, asset)]\<rparr>)"
| "sim_effect S cx (RotateNamespace epoch) (N, P) = (N, P\<lparr>fu_mint := Some (epoch, minted_ticket (cx_me cx) epoch)\<rparr>)"
| "sim_effect S cx (PublishNamespace epoch ch) (N, P) = (emit (OutBroadcast (Control (MsgNamespace epoch ch))) N, P)"
| "sim_effect S cx (AdoptNamespace epoch ticket) (N, P) = (adopt S epoch ticket N, P\<lparr>fu_republish := True\<rparr>)"
| "sim_effect S cx ManifestUpdated (N, P) = (N, P\<lparr>fu_retry := True\<rparr>)"
| "sim_effect S cx (AppliedDoc _) (N, P) = (N, P)"

definition sim_republish ::
  "('c, 'r, 'd, 'h) sim \<Rightarrow> ctx \<Rightarrow> ('c, 'r, 'd) sim_pump \<Rightarrow> ('c, 'r, 'd) ws_node \<Rightarrow> ('c, 'r, 'd) ws_node option" where
  "sim_republish S cx p N = do {
     N \<leftarrow> drive_each S cx p (salted 9000 (map EvResync DOCS)) (reconcile N);
     drive_each S cx p (salted 9100 ANNOUNCED_ONCE) N }"

definition sim_reseal_asset_key ::
  "('c, 'r, 'd, 'h) sim \<Rightarrow> ctx \<Rightarrow> ('c, 'r, 'd) sim_pump \<Rightarrow> bytes32 \<Rightarrow> document_uuid \<Rightarrow> u64 \<Rightarrow> ('c, 'r, 'd) ws_node
     \<Rightarrow> ('c, 'r, 'd) ws_node option" where
  "sim_reseal_asset_key S cx p requester asset salt N =
     (case bm_get (wn_replica N) (asset_key_key (e_hash (si_env S)) workspace_secret_bytes asset) of
        None \<Rightarrow> Some N
      | Some (_, ch) \<Rightarrow> call_core S cx p (salt XOR 0xA55E) (salt XOR 0xA55E) (reseal_asset_key (si_env S) requester asset ch) N)"

fun reseal_each ::
  "('c, 'r, 'd, 'h) sim \<Rightarrow> ctx \<Rightarrow> ('c, 'r, 'd) sim_pump \<Rightarrow> u64 \<Rightarrow> (bytes32 \<times> document_uuid) list \<Rightarrow> ('c, 'r, 'd) ws_node
     \<Rightarrow> ('c, 'r, 'd) ws_node option" where
  "reseal_each S cx p salt [] N = Some N"
| "reseal_each S cx p salt ((requester, asset) # rs) N = do {
     N \<leftarrow> sim_reseal_asset_key S cx p requester asset salt N; reseal_each S cx p salt rs N }"

definition on_entry ::
  "('c, 'r, 'd, 'h) sim \<Rightarrow> ctx \<Rightarrow> ('c, 'r, 'd) sim_pump \<Rightarrow> namespace_epoch \<Rightarrow> storage_key_bytes \<Rightarrow> node_id \<Rightarrow> chunk \<Rightarrow> u64
     \<Rightarrow> ('c, 'r, 'd) ws_node \<Rightarrow> ('c, 'r, 'd) ws_node option" where
  "on_entry S cx p namespace key author ch salt N =
     (if namespace \<noteq> wn_namespace N then Some N
      else let N = observe key author ch N in
        if key = sim_manifest_key S then sim_drive S cx p (EvManifestArrived ch) salt N
        else if \<not> sim_author_may_write S author N then Some (N\<lparr>wn_refused := wn_refused N @ [(key, author, ch)]\<rparr>)
        else case find (\<lambda>d. key = doc_key S d) DOCS of
            None \<Rightarrow> Some N
          | Some doc \<Rightarrow> sim_drive S cx p (EvChunkArrived doc ch) salt N)"

fun retry_each ::
  "('c, 'r, 'd, 'h) sim \<Rightarrow> ctx \<Rightarrow> ('c, 'r, 'd) sim_pump \<Rightarrow> u64 \<Rightarrow> (storage_key_bytes \<times> node_id \<times> chunk) list
     \<Rightarrow> ('c, 'r, 'd) ws_node \<Rightarrow> ('c, 'r, 'd) ws_node option" where
  "retry_each S cx p salt [] N = Some N"
| "retry_each S cx p salt ((key, author, ch) # es) N = do {
     N \<leftarrow> on_entry S cx p (wn_namespace N) key author ch salt N; retry_each S cx p salt es N }"

definition retry_refused ::
  "('c, 'r, 'd, 'h) sim \<Rightarrow> ctx \<Rightarrow> ('c, 'r, 'd) sim_pump \<Rightarrow> u64 \<Rightarrow> ('c, 'r, 'd) ws_node \<Rightarrow> ('c, 'r, 'd) ws_node option" where
  "retry_refused S cx p salt N = retry_each S cx p salt (wn_refused N) (N\<lparr>wn_refused := []\<rparr>)"

definition follow_up ::
  "('c, 'r, 'd, 'h) sim \<Rightarrow> ctx \<Rightarrow> ('c, 'r, 'd) sim_pump \<Rightarrow> u64 \<Rightarrow> follow_ups \<Rightarrow> ('c, 'r, 'd) ws_node \<Rightarrow> ('c, 'r, 'd) ws_node option" where
  "follow_up S cx p salt P N = do {
     N \<leftarrow> (case fu_mint P of None \<Rightarrow> Some N
           | Some (epoch, ticket) \<Rightarrow> sim_drive S cx p (EvNamespaceMinted epoch ticket) (salt XOR 0xE0E0) N);
     N \<leftarrow> (if fu_republish P then sim_republish S cx p N else Some N);
     N \<leftarrow> (case fu_eviction P of None \<Rightarrow> Some N
           | Some m \<Rightarrow> sim_drive S cx p (EvRemoveMember m) (salt XOR 0xE71C) N);
     N \<leftarrow> reseal_each S cx p salt (fu_reseal P) N;
     if fu_retry P then retry_refused S cx p (salt XOR 0x2E7) N else Some N }"

text \<open>
  \<open>apply_effects\<close>: the loop, the roster, then what was left, which comes back here. The depth of the nesting
  is the fuel; a list of no effects leaves nothing to follow up.
\<close>

primrec sim_apply_effects :: "('c, 'r, 'd, 'h) sim \<Rightarrow> ctx \<Rightarrow> nat \<Rightarrow> ('c, 'r, 'd) sim_pump" where
  "sim_apply_effects S cx 0 = (\<lambda>effects salt N. if effects = [] then Some (sim_refresh_roster S N) else None)"
| "sim_apply_effects S cx (Suc depth) = (\<lambda>effects salt N.
     case fold (sim_effect S cx) effects (N, no_follow_ups) of
       (N, P) \<Rightarrow> follow_up S cx (sim_apply_effects S cx depth) salt P (sim_refresh_roster S N))"

text \<open>The pump of the callbacks.\<close>

definition sim_pump_full :: "('c, 'r, 'd, 'h) sim \<Rightarrow> ctx \<Rightarrow> ('c, 'r, 'd) sim_pump" where
  "sim_pump_full S cx = sim_apply_effects S cx PUMP_DEPTH"

abbreviation drive_full ::
  "('c, 'r, 'd, 'h) sim \<Rightarrow> ctx \<Rightarrow> event \<Rightarrow> u64 \<Rightarrow> ('c, 'r, 'd) ws_node \<Rightarrow> ('c, 'r, 'd) ws_node option" where
  "drive_full S cx \<equiv> sim_drive S cx (sim_pump_full S cx)"

end
