(* ===== verification/Sim_Callbacks.thy ===== *)
theory Sim_Callbacks
  imports Sim_Node
begin

text \<open>
  The handlers of a simulated node and the four callbacks of \<open>propsim\<close>: starting (also after a crash), a
  message, a timer, a client operation. All of them return \<open>None\<close> only if the pump runs out of depth.
\<close>

section \<open>Client operations\<close>

definition revert_target :: "('c, 'r, 'd, 'h) sim \<Rightarrow> document_uuid \<Rightarrow> nat \<Rightarrow> ('c, 'r, 'd) ws_node \<Rightarrow> version_id option" where
  "revert_target S doc back N =
     (let versions = of_state [] (document_versions (e_loro (si_env S)) doc) N in
      if 1 + back \<le> length versions then Some (vi_id (versions ! (length versions - (1 + back)))) else None)"

text \<open>The event an operation stands for; \<open>None\<close> for a read, and for a revert with nothing to go back to.\<close>

fun op_event :: "('c, 'r, 'd, 'h) sim \<Rightarrow> document_uuid \<Rightarrow> ws_op \<Rightarrow> ('c, 'r, 'd) ws_node \<Rightarrow> event option" where
  "op_event S doc (OpRead _) N = None"
| "op_event S doc (OpAppend _ t) N = Some (EvLocalEdit doc t)"
| "op_event S doc (OpWrite _ t) N = Some (EvWriteFile doc t)"
| "op_event S doc (OpInsert _ pos t) N = Some (EvInsertText doc pos t)"
| "op_event S doc (OpRemove _ pos len) N = Some (EvRemoveText doc pos len)"
| "op_event S doc (OpRevert _ back) N = map_option (EvRevertDocument doc) (revert_target S doc back N)"

definition apply_op ::
  "('c, 'r, 'd, 'h) sim \<Rightarrow> ctx \<Rightarrow> ws_op \<Rightarrow> ('c, 'r, 'd) ws_node \<Rightarrow> (('c, 'r, 'd) ws_node \<times> ws_resp) option" where
  "apply_op S cx op N =
     (let doc = DOCS ! (doc_index op mod length DOCS) in
      case op of
        OpRead _ \<Rightarrow> Some (N, RespText (document_text_of S doc N))
      | _ \<Rightarrow>
          (let N = (case op of OpAppend _ t \<Rightarrow> N\<lparr>wn_contributed := wn_contributed N @ [t]\<rparr> | _ \<Rightarrow> N)
           in case op_event S doc op N of
                None \<Rightarrow> Some (N, RespApplied)
              | Some ev \<Rightarrow> map_option (\<lambda>N. (N, RespApplied)) (drive_full S cx ev 11 N)))"

fun complete_each ::
  "('c, 'r, 'd, 'h) sim \<Rightarrow> ctx \<Rightarrow> (op_token \<times> ws_op) list \<Rightarrow> ('c, 'r, 'd) ws_node \<Rightarrow> ('c, 'r, 'd) ws_node option" where
  "complete_each S cx [] N = Some N"
| "complete_each S cx ((token, op) # ops) N = do {
     (N, resp) \<leftarrow> apply_op S cx op N; complete_each S cx ops (emit (OutComplete token resp) N) }"

definition flush_deferred_ops ::
  "('c, 'r, 'd, 'h) sim \<Rightarrow> ctx \<Rightarrow> ('c, 'r, 'd) ws_node \<Rightarrow> ('c, 'r, 'd) ws_node option" where
  "flush_deferred_ops S cx N =
     (if wn_state N = None then Some N
      else complete_each S cx (wn_deferred_ops N) (N\<lparr>wn_deferred_ops := []\<rparr>))"

section \<open>The control plane\<close>

fun ops_seen :: "control_msg \<Rightarrow> u64" where
  "ops_seen (MsgOp _ _) = 1"
| "ops_seen (MsgLog ops _) = of_nat (length ops)"
| "ops_seen _ = 0"

definition claim_answer_slot :: "ctx \<Rightarrow> control_msg \<Rightarrow> ('c, 'r, 'd) ws_node \<Rightarrow> ('c, 'r, 'd) ws_node \<times> bool" where
  "claim_answer_slot cx m N = (case answer_cooldown_key m of
     None \<Rightarrow> (N, True)
   | Some key \<Rightarrow> (case claim key (cx_now cx) (wn_repair_answers N) of (c, allowed) \<Rightarrow> (N\<lparr>wn_repair_answers := c\<rparr>, allowed)))"

text \<open>The deferred operations are flushed only when the core accepted the message.\<close>

definition sim_on_control ::
  "('c, 'r, 'd, 'h) sim \<Rightarrow> ctx \<Rightarrow> control_msg \<Rightarrow> ('c, 'r, 'd) ws_node \<Rightarrow> ('c, 'r, 'd) ws_node option" where
  "sim_on_control S cx m N =
     (case claim_answer_slot cx m N of
        (N, False) \<Rightarrow> Some N
      | (N, True) \<Rightarrow>
          let N = N\<lparr>wn_observed_ops := wn_observed_ops N + ops_seen m\<rparr>; salt = control_salt m in
          case on_core (\<lambda>W. on_control (si_env S) (wall_clock (cx_now cx)) m (reseed (node_rng S (cx_me cx) salt) W)) N of
            (N, Some (Inr effects)) \<Rightarrow> do {
              N \<leftarrow> sim_pump_full S cx effects salt N; flush_deferred_ops S cx N }
          | (N, _) \<Rightarrow> Some N)"

definition sim_send_log :: "('c, 'r, 'd, 'h) sim \<Rightarrow> ('c, 'r, 'd) ws_node \<Rightarrow> ('c, 'r, 'd) ws_node" where
  "sim_send_log S N = (case wn_state N of
     None \<Rightarrow> N
   | Some W \<Rightarrow> (case op_log (e_beekem (si_env S)) (w_cgka W) of
       Inl _ \<Rightarrow> N
     | Inr ops \<Rightarrow> if ops = [] then N
         else emit (OutBroadcast (Control (MsgLog ops (certificates (capabilities W))))) N))"

definition announce_endpoint ::
  "('c, 'r, 'd, 'h) sim \<Rightarrow> ctx \<Rightarrow> ('c, 'r, 'd) ws_node \<Rightarrow> ('c, 'r, 'd) ws_node option" where
  "announce_endpoint S cx N = do {
     N \<leftarrow> drive_full S cx (EvAnnounceEndpoint (endpoint_of (cx_me cx))) 0xE7 N;
     drive_full S cx (EvAnnounceAuthor (member_bytes_of S (cx_me cx))) 0xE8 N }"

section \<open>Joining\<close>

definition send_hello :: "('c, 'r, 'd, 'h) sim \<Rightarrow> ('c, 'r, 'd) ws_node \<Rightarrow> ('c, 'r, 'd) ws_node" where
  "send_hello S N = (case (wn_signer N, wn_share_secret N) of
     (Some signer, Some share_secret) \<Rightarrow>
       emit (OutBroadcast (Hello (cc_verifying_key (e_crypto (si_env S)) signer)
         (bk_share_key (e_beekem (si_env S)) share_secret) (enrolling_user S N))) N
   | _ \<Rightarrow> N)"

definition answers_hello :: "ctx \<Rightarrow> bytes32 option \<Rightarrow> ('c, 'r, 'd) ws_node \<Rightarrow> bool" where
  "answers_hello cx as_device_of N = (case as_device_of of
     Some user \<Rightarrow> of_state False (\<lambda>W. me W = user) N | None \<Rightarrow> cx_me cx = FOUNDER)"

definition admission :: "node_id \<Rightarrow> bytes32 \<Rightarrow> bytes32 \<Rightarrow> bytes32 option \<Rightarrow> event" where
  "admission from' m share_key as_device_of = (case as_device_of of
     Some user \<Rightarrow> EvAddDevice m share_key user (''device-'' @ decimal (unat from')) (Some (endpoint_of from'))
   | None \<Rightarrow> EvAddUser m share_key Editor (''node-'' @ decimal (unat from')) (Some (endpoint_of from')))"

definition on_hello ::
  "('c, 'r, 'd, 'h) sim \<Rightarrow> ctx \<Rightarrow> node_id \<Rightarrow> bytes32 \<Rightarrow> bytes32 \<Rightarrow> bytes32 option \<Rightarrow> ('c, 'r, 'd) ws_node
     \<Rightarrow> ('c, 'r, 'd) ws_node option" where
  "on_hello S cx from' m share_key as_device_of N =
     (if \<not> answers_hello cx as_device_of N then Some N
      else do {
        N \<leftarrow> drive_full S cx (admission from' m share_key as_device_of) 1 N;
        case wn_state N of
          None \<Rightarrow> Some N
        | Some W \<Rightarrow> (case op_log (e_beekem (si_env S)) (w_cgka W) of
            Inl _ \<Rightarrow> Some N
          | Inr log \<Rightarrow>
              let welcome = Welcome m (wn_namespace N) log (certificates (capabilities W)) workspace_secret_bytes;
                  N = emit (OutSend from' welcome) N;
                  N = (case sc_invite_thief (si_scenario S) of None \<Rightarrow> N | Some thief \<Rightarrow> emit (OutSend thief welcome) N)
              in sim_republish S cx (sim_pump_full S cx) N) })"

fun flush_each ::
  "('c, 'r, 'd, 'h) sim \<Rightarrow> ctx \<Rightarrow> msg list \<Rightarrow> ('c, 'r, 'd) ws_node \<Rightarrow> ('c, 'r, 'd) ws_node option" where
  "flush_each S cx [] N = Some N"
| "flush_each S cx (m # ms) N = do {
     N \<leftarrow> (case m of
         Control c \<Rightarrow> sim_on_control S cx c N
       | Entry namespace key author ch \<Rightarrow> on_entry S cx (sim_pump_full S cx) namespace key author ch 0 N
       | Segment namespace key _ bs \<Rightarrow> Some (on_segment S namespace key bs N)
       | _ \<Rightarrow> Some N);
     flush_each S cx ms N }"

definition flush_inbox :: "('c, 'r, 'd, 'h) sim \<Rightarrow> ctx \<Rightarrow> ('c, 'r, 'd) ws_node \<Rightarrow> ('c, 'r, 'd) ws_node option" where
  "flush_inbox S cx N = flush_each S cx (wn_inbox N) (N\<lparr>wn_inbox := []\<rparr>)"

definition on_welcome ::
  "('c, 'r, 'd, 'h) sim \<Rightarrow> ctx \<Rightarrow> node_id \<Rightarrow> bytes32 \<Rightarrow> namespace_epoch \<Rightarrow> control_op list \<Rightarrow> certificate list \<Rightarrow> bytes32
     \<Rightarrow> ('c, 'r, 'd) ws_node \<Rightarrow> ('c, 'r, 'd) ws_node option" where
  "on_welcome S cx from' invitee namespace log certs secret N =
     (let E = si_env S in
      if wn_state N \<noteq> None then Some N
      else case (wn_signer N, wn_share_secret N) of
          (Some signer, Some share_secret) \<Rightarrow>
            if cc_verifying_key (e_crypto E) signer \<noteq> invitee then Some N
            else (case controller_join (e_beekem E) (e_crypto E) (sim_tree_id S) signer share_secret log certs (si_seed S 0) of
                Inl _ \<Rightarrow> Some N
              | Inr K \<Rightarrow> do {
                  let N = N\<lparr>wn_initialisations := wn_initialisations N + 1,
                            wn_state := Some (joined (e_loro E) K secret (ns_epoch namespace)),
                            wn_namespace := namespace, wn_bootstrap := bs_insert from' (wn_bootstrap N)\<rparr>;
                  N \<leftarrow> announce_endpoint S cx N;
                  N \<leftarrow> flush_inbox S cx N;
                  flush_deferred_ops S cx N })
        | _ \<Rightarrow> Some N)"

definition on_stolen_welcome :: "node_id \<Rightarrow> namespace_epoch \<Rightarrow> ('c, 'r, 'd) ws_node \<Rightarrow> ('c, 'r, 'd) ws_node" where
  "on_stolen_welcome from' namespace N =
     (if wn_stolen_invite N then N
      else N\<lparr>wn_stolen_invite := True, wn_bootstrap := bs_insert from' (wn_bootstrap N), wn_namespace := namespace\<rparr>)"

section \<open>Attackers\<close>

definition forge_entry :: "('c, 'r, 'd, 'h) sim \<Rightarrow> ('c, 'r, 'd) ws_node \<Rightarrow> ('c, 'r, 'd) ws_node" where
  "forge_entry S N = (case wn_last_published N of
     None \<Rightarrow> N
   | Some ch \<Rightarrow> emit (OutBroadcast (Entry (wn_namespace N) (doc_key S FORGED_DOC) ROGUE_AUTHOR ch)) N)"

definition forge :: "('c, 'r, 'd, 'h) sim \<Rightarrow> ('c, 'r, 'd) ws_node \<Rightarrow> ('c, 'r, 'd) ws_node" where
  "forge S N =
     (let B = e_beekem (si_env S);
          rogue = signer_of S (wn_me N) 0xDEAD;
          rogue_secret = snd (bk_gen_share_secret B (node_rng S (wn_me N) 0xBEE5));
          op = si_init_add S (sim_tree_id S) (cc_verifying_key (e_crypto (si_env S)) rogue) (bk_share_key B rogue_secret);
          N = (case si_sign S rogue op of None \<Rightarrow> N | Some signed' \<Rightarrow> emit (OutBroadcast (Control (MsgOp signed' []))) N)
      in forge_entry S N)"

text \<open>The nonces of an overreach: a tag and the low byte of the salt, then zeros.\<close>

definition overreach_nonce :: "byte \<Rightarrow> u64 \<Rightarrow> bytes16" where
  "overreach_nonce tag salt = the (be_word 16 (tag # ucast (salt AND 0xFF) # replicate 14 0))"

definition push_cert :: "core_error + certificate \<Rightarrow> certificate list \<Rightarrow> certificate list" where
  "push_cert r prf = (case r of Inl _ \<Rightarrow> prf | Inr cert \<Rightarrow> prf @ [cert])"

definition overreach :: "('c, 'r, 'd, 'h) sim \<Rightarrow> ctx \<Rightarrow> ('c, 'r, 'd) ws_node \<Rightarrow> ('c, 'r, 'd) ws_node" where
  "overreach S cx N = (case wn_state N of
     None \<Rightarrow> N
   | Some W \<Rightarrow>
       let E = si_env S; B = e_beekem E; X = e_crypto E; my_user = me W; salt = ucast (wn_overreaches_made N) :: u64;
           victim_id = cc_verifying_key X (signer_of S (cx_me cx) (0x15DE0 XOR salt));
           victim_secret = snd (bk_gen_share_secret B (node_rng S (cx_me cx) (0x15DE1 XOR salt)))
       in case certify_device X victim_id my_user (overreach_nonce 1 salt) (w_cgka W) of
            (K, binding) \<Rightarrow> (case certify_role X my_user Admin (overreach_nonce 2 salt) K of
              (K, grant) \<Rightarrow> (case add_member B victim_id (bk_share_key B victim_secret) K of
                (K, added) \<Rightarrow>
                  let prf = push_cert grant (push_cert binding []); N = N\<lparr>wn_state := Some (W\<lparr>w_cgka := K\<rparr>)\<rparr>
                  in case added of
                       Inr (Some op) \<Rightarrow> emit (OutBroadcast (Control (MsgOp op prf))) N
                     | _ \<Rightarrow> emit (OutBroadcast (Control (MsgCerts prf))) N)))"

section \<open>Assets\<close>

text \<open>The loop over the segments: \<open>None\<close> for the digest when one could not be sealed.\<close>

fun attach_segments ::
  "('c, 'r, 'd, 'h) sim \<Rightarrow> ctx \<Rightarrow> bytes32 \<Rightarrow> u64 \<Rightarrow> u64 list \<Rightarrow> 'h content_digest \<Rightarrow> ('c, 'r, 'd) ws_node
     \<Rightarrow> ('c, 'r, 'd) ws_node \<times> 'h content_digest option" where
  "attach_segments S cx key segments [] digest N = (N, Some digest)"
| "attach_segments S cx key segments (index # is) digest N =
     (let H = e_hash (si_env S); width = unat SIM_SEGMENT_BYTES; start = unat index * width;
          piece = take (min (start + width) (length asset_plaintext) - start) (drop start asset_plaintext);
          digest = content_digest_update (si_hasher S) piece digest
      in case seal_segment H (si_aead S) key ASSET_V1 index segments SIM_SEGMENT_BYTES piece of
           Inl _ \<Rightarrow> (N, None)
         | Inr sealed \<Rightarrow>
             let key_at = asset_part_key H workspace_secret_bytes ASSET_V1 index;
                 N = N\<lparr>wn_segments := bm_insert key_at sealed (wn_segments N)\<rparr>
             in attach_segments S cx key segments is digest
                  (emit (OutBroadcast (Segment (wn_namespace N) key_at (cx_me cx) sealed)) N))"

definition attach_asset :: "('c, 'r, 'd, 'h) sim \<Rightarrow> ctx \<Rightarrow> ('c, 'r, 'd) ws_node \<Rightarrow> ('c, 'r, 'd) ws_node option" where
  "attach_asset S cx N =
     (let E = si_env S; p = sim_pump_full S cx in
      case on_core (\<lambda>W. seal_asset_key E ASSET_V1 (reseed (node_rng S (cx_me cx) 0xA55E7) W)) N of
        (N, Some (Inr (key, effects))) \<Rightarrow> do {
          N \<leftarrow> p effects 0xA55E8 N;
          let sz = of_nat (length asset_plaintext); let segments = segments_for sz SIM_SEGMENT_BYTES;
          case attach_segments S cx key segments (segment_indices segments) (content_digest_new (si_hasher S)) N of
            (N, None) \<Rightarrow> Some N
          | (N, Some digest) \<Rightarrow> do {
              N \<leftarrow> sim_drive S cx p (EvUpsertFile \<lparr>fe_uuid = ASSET, fe_logical_path = ''/asset.bin'',
                  fe_mime_type = ''application/octet-stream'', fe_asset = None\<rparr>) 0xA55E9 N;
              call_core S cx p 0xA55EA 0xA55EB (workspace_add_asset_version E ASSET ASSET_V1
                \<lparr>am_size = sz, am_segments = segments, am_segment_bytes = SIM_SEGMENT_BYTES,
                 am_content_hash = content_digest_finish (si_hasher S) digest\<rparr> (wall_clock (cx_now cx))) N } }
      | (N, _) \<Rightarrow> Some N)"

section \<open>The disk\<close>

definition sim_export :: "('c, 'r, 'd, 'h) sim \<Rightarrow> ('c, 'r, 'd) workspace \<Rightarrow> ('c, 'r, 'd, bytes) wstep" where
  "sim_export S W = and_then (workspace_snapshot_of (si_env S) W) (\<lambda>ss W. (W, serialized (si_encode_snapshot S ss)))"

definition sim_import :: "('c, 'r, 'd, 'h) sim \<Rightarrow> bytes \<Rightarrow> ('c, 'r, 'd) workspace core_result" where
  "sim_import S bs = (case serialized (si_decode_snapshot S bs) of
     Inl e \<Rightarrow> Inl e | Inr ss \<Rightarrow> workspace_from_snapshot (si_env S) ss (si_seed S 0))"

definition save :: "('c, 'r, 'd, 'h) sim \<Rightarrow> ('c, 'r, 'd) ws_node \<Rightarrow> ('c, 'r, 'd) ws_node" where
  "save S N = (case on_core (sim_export S) N of
     (N, Some (Inr bs)) \<Rightarrow> N\<lparr>wn_disk := Some \<lparr>dk_state = bs, dk_index = wn_index N, dk_replica = wn_replica N,
        dk_segments = wn_segments N, dk_bootstrap = wn_bootstrap N, dk_contributed = wn_contributed N\<rparr>\<rparr>
   | (N, _) \<Rightarrow> N)"

definition wipe :: "('c, 'r, 'd) ws_node \<Rightarrow> ('c, 'r, 'd) ws_node" where
  "wipe N = N\<lparr>wn_reboots := wn_reboots N + 1, wn_inbox := [], wn_deferred_ops := [], wn_refused := [],
     wn_repair_sent := cooldown_new SIM_REPAIR_COOLDOWN, wn_repair_answers := cooldown_new REPAIR_ANSWER_COOLDOWN,
     wn_roster := [], wn_observed_ops := 0, wn_state := None, wn_index := [], wn_replica := [], wn_segments := [],
     wn_bootstrap := [], wn_contributed := [], wn_namespace := NAMESPACE_INITIAL\<rparr>"

definition reboot :: "('c, 'r, 'd, 'h) sim \<Rightarrow> ('c, 'r, 'd) ws_node \<Rightarrow> ('c, 'r, 'd) ws_node" where
  "reboot S N = (case wn_disk N of
     None \<Rightarrow> wipe N
   | Some d \<Rightarrow> (case sim_import S (dk_state d) of
       Inl _ \<Rightarrow> wipe N
     | Inr W \<Rightarrow> sim_refresh_roster S ((wipe N)\<lparr>wn_namespace := w_namespace W, wn_state := Some W,
         wn_index := dk_index d, wn_replica := dk_replica d, wn_segments := dk_segments d,
         wn_bootstrap := dk_bootstrap d, wn_contributed := dk_contributed d\<rparr>)))"

section \<open>Timers\<close>

definition set_timer :: "tick \<Rightarrow> nat \<Rightarrow> bool \<Rightarrow> ('c, 'r, 'd) ws_node \<Rightarrow> ('c, 'r, 'd) ws_node" where
  "set_timer t delay wanted N = (if wanted then emit (OutTimer t delay) N else N)"

definition arm_timers :: "('c, 'r, 'd, 'h) sim \<Rightarrow> ctx \<Rightarrow> ('c, 'r, 'd) ws_node \<Rightarrow> ('c, 'r, 'd) ws_node" where
  "arm_timers S cx N =
     (let C = si_scenario S; founder = (cx_me cx = FOUNDER);
          N = set_timer TickEdit FIRST_EDIT True N;
          N = set_timer TickResync RESYNC_INTERVAL True N;
          N = set_timer TickRotate FIRST_ROTATE (sc_rotate C \<and> \<not> is_revocation_target S N) N;
          N = set_timer TickAttach (if sc_attach_after_revoke C then ATTACH_LATE_AT else ATTACH_AT) (sc_attach_asset C \<and> founder) N;
          N = set_timer TickRevoke REVOKE_AT (founder \<and> sc_revoke C \<noteq> None) N;
          N = set_timer TickLateEdit WRITE_AFTER_REVOKE_AT (founder \<and> sc_write_after_revoke C) N;
          N = set_timer TickOverreach (OVERREACH_INTERVAL * 3) (sc_insider C = Some (cx_me cx)) N;
          N = set_timer TickForge FORGE_INTERVAL (sc_forge C \<and> \<not> founder) N;
          N = set_timer TickAppointCoAdmin APPOINT_CO_ADMIN_AT (1 < sc_threshold C \<and> founder) N;
          N = set_timer TickProposeRemoval PROPOSE_AT (1 < sc_threshold C \<and> founder) N;
          N = set_timer TickApproveProposals APPROVE_INTERVAL (1 < sc_threshold C) N
      in set_timer TickLeave LEAVE_AT (sc_leave C = Some (cx_me cx)) N)"

definition proposal_digests :: "('c, 'r, 'd) ws_node \<Rightarrow> bytes32 btree_set" where
  "proposal_digests N = bs_of (map ps_digest (node_proposals N))"

text \<open>Approving a list of proposals, with one salt each.\<close>

fun approve_each ::
  "('c, 'r, 'd, 'h) sim \<Rightarrow> ctx \<Rightarrow> u64 \<Rightarrow> bytes32 list \<Rightarrow> ('c, 'r, 'd) ws_node \<Rightarrow> ('c, 'r, 'd) ws_node option" where
  "approve_each S cx salt [] N = Some N"
| "approve_each S cx salt (digest # digests) N = do {
     N \<leftarrow> drive_full S cx (EvApprove digest) salt (N\<lparr>wn_approved := bs_insert digest (wn_approved N)\<rparr>);
     approve_each S cx (salt + 1) digests N }"

definition propose_and_approve ::
  "('c, 'r, 'd, 'h) sim \<Rightarrow> ctx \<Rightarrow> admin_action \<Rightarrow> u64 \<Rightarrow> ('c, 'r, 'd) ws_node \<Rightarrow> ('c, 'r, 'd) ws_node option" where
  "propose_and_approve S cx action salt N = do {
     let before = proposal_digests N;
     N \<leftarrow> drive_full S cx (EvPropose action None) salt N;
     approve_each S cx (salt + 1) (filter (\<lambda>d. d \<notin> set before) (proposal_digests N)) N }"

fun apply_quorum_timer ::
  "('c, 'r, 'd, 'h) sim \<Rightarrow> ctx \<Rightarrow> tick \<Rightarrow> ('c, 'r, 'd) ws_node \<Rightarrow> ('c, 'r, 'd) ws_node option" where
  "apply_quorum_timer S cx TickAppointCoAdmin N = (case sc_co_admin (si_scenario S) of
     None \<Rightarrow> Some N | Some co_admin \<Rightarrow> drive_full S cx (EvSetRole (member_bytes_of S co_admin) Admin) 0x9001 N)"
| "apply_quorum_timer S cx TickProposeRemoval N = (case sc_revoke (si_scenario S) of
     None \<Rightarrow> Some N | Some victim \<Rightarrow> propose_and_approve S cx (RemoveMember (member_bytes_of S victim)) 0x9003 N)"
| "apply_quorum_timer S cx TickApproveProposals N = do {
     N \<leftarrow> approve_each S cx 0x9100 (filter (\<lambda>d. d \<notin> set (wn_approved N))
            (map ps_digest (filter (\<lambda>status. \<not> ps_executable status) (node_proposals N)))) N;
     Some (emit (OutTimer TickApproveProposals APPROVE_INTERVAL) N) }"
| "apply_quorum_timer S cx _ N = Some N"

definition write_after_revocation :: "('c, 'r, 'd, 'h) sim \<Rightarrow> ctx \<Rightarrow> ('c, 'r, 'd) ws_node \<Rightarrow> ('c, 'r, 'd) ws_node option" where
  "write_after_revocation S cx N = do {
     N \<leftarrow> drive_full S cx (EvLocalEdit POST_REVOCATION_DOC ''written after the removal'') 0x1A7E N;
     N \<leftarrow> (if sc_file_after_revoke (si_scenario S)
           then drive_full S cx (EvUpsertFile \<lparr>fe_uuid = POST_REVOCATION_DOC, fe_logical_path = POST_REVOCATION_PATH,
                  fe_mime_type = ''text/plain'', fe_asset = None\<rparr>) 0x1A7F N
           else Some N);
     case sc_promote_after_revoke (si_scenario S) of
       None \<Rightarrow> Some N
     | Some subject \<Rightarrow> drive_full S cx (EvSetRole (member_bytes_of S subject) Admin) 0x1A80 N }"

definition edit_tick :: "('c, 'r, 'd, 'h) sim \<Rightarrow> ctx \<Rightarrow> ('c, 'r, 'd) ws_node \<Rightarrow> ('c, 'r, 'd) ws_node option" where
  "edit_tick S cx N = do {
     N \<leftarrow> (if wn_state N \<noteq> None \<and> wn_edits_made N < EDITS_PER_NODE
           then let t = ''<'' @ decimal (unat (cx_me cx)) @ '':'' @ decimal (unat (wn_edits_made N)) @ ''>''
                in drive_full S cx (EvLocalEdit DOC t) 4
                     (N\<lparr>wn_contributed := wn_contributed N @ [t], wn_edits_made := wn_edits_made N + 1\<rparr>)
           else Some N);
     Some (set_timer TickEdit EDIT_INTERVAL (wn_edits_made N < EDITS_PER_NODE) N) }"

definition resync_tick :: "('c, 'r, 'd, 'h) sim \<Rightarrow> ctx \<Rightarrow> ('c, 'r, 'd) ws_node \<Rightarrow> ('c, 'r, 'd) ws_node option" where
  "resync_tick S cx N = do {
     let N = (if wn_resyncs_done N mod RECONCILE_EVERY = 0 then reconcile N else N);
     let base = 5000 + ucast (wn_resyncs_done N) * 16;
     N \<leftarrow> drive_each S cx (sim_pump_full S cx) (salted base (map EvResync DOCS)) N;
     N \<leftarrow> drive_each S cx (sim_pump_full S cx) (salted (base + of_nat (length DOCS)) ANNOUNCED_ONCE) N;
     let N = (if wn_resyncs_done N mod LOG_REPAIR_EVERY = 0 then sim_send_log S N else N);
     let N = N\<lparr>wn_resyncs_done := wn_resyncs_done N + 1\<rparr>;
     let budget = (if sc_workload (si_scenario S) then MAX_RESYNCS_UNDER_WORKLOAD else MAX_RESYNCS);
     Some (set_timer TickResync RESYNC_INTERVAL (wn_resyncs_done N < budget) N) }"

fun apply_timer ::
  "('c, 'r, 'd, 'h) sim \<Rightarrow> ctx \<Rightarrow> tick \<Rightarrow> ('c, 'r, 'd) ws_node \<Rightarrow> ('c, 'r, 'd) ws_node option" where
  "apply_timer S cx TickJoin N =
     Some (if wn_state N = None then emit (OutTimer TickJoin JOIN_RETRY) (send_hello S N) else N)"
| "apply_timer S cx TickEdit N = (if sc_workload (si_scenario S) then Some N else edit_tick S cx N)"
| "apply_timer S cx TickResync N = resync_tick S cx N"
| "apply_timer S cx TickAttach N = attach_asset S cx N"
| "apply_timer S cx TickRotate N = do {
     N \<leftarrow> (if wn_state N \<noteq> None
           then map_option (\<lambda>N. N\<lparr>wn_rotations_done := wn_rotations_done N + 1\<rparr>)
                  (drive_full S cx EvRotate (7 + ucast (wn_rotations_done N)) N)
           else Some N);
     Some (set_timer TickRotate ROTATE_INTERVAL (wn_rotations_done N < MAX_ROTATIONS) N) }"
| "apply_timer S cx TickOverreach N =
     (if is_revocation_target S N \<and> \<not> sc_revenant (si_scenario S) then Some N
      else let N = overreach S cx N; N = N\<lparr>wn_overreaches_made := wn_overreaches_made N + 1\<rparr>
           in Some (set_timer TickOverreach OVERREACH_INTERVAL (wn_overreaches_made N < MAX_OVERREACHES) N))"
| "apply_timer S cx TickRevoke N = (case sc_revoke (si_scenario S) of
     None \<Rightarrow> Some N | Some victim \<Rightarrow> drive_full S cx (EvRemoveMember (member_bytes_of S victim)) 0xBEEF N)"
| "apply_timer S cx TickAppointCoAdmin N = apply_quorum_timer S cx TickAppointCoAdmin N"
| "apply_timer S cx TickProposeRemoval N = apply_quorum_timer S cx TickProposeRemoval N"
| "apply_timer S cx TickApproveProposals N = apply_quorum_timer S cx TickApproveProposals N"
| "apply_timer S cx TickLeave N = map_option (\<lambda>N. N\<lparr>wn_left := True\<rparr>) (drive_full S cx EvLeave 0x1EA7 N)"
| "apply_timer S cx TickLateEdit N = write_after_revocation S cx N"
| "apply_timer S cx TickForge N =
     (let N = forge S N; N = N\<lparr>wn_forgeries_made := wn_forgeries_made N + 1\<rparr>
      in Some (set_timer TickForge FORGE_INTERVAL (wn_forgeries_made N < MAX_FORGERIES) N))"

section \<open>Callbacks\<close>

definition first_start :: "('c, 'r, 'd, 'h) sim \<Rightarrow> ctx \<Rightarrow> bytes32 \<Rightarrow> ('c, 'r, 'd) ws_node \<Rightarrow> ('c, 'r, 'd) ws_node option" where
  "first_start S cx signer N =
     (let E = si_env S; C = si_scenario S; n = cx_me cx in
      if n = FOUNDER then
        (case controller_create (e_beekem E) (e_crypto E) (sim_tree_id S) signer (node_rng S n 0xC3) of
           Inl _ \<Rightarrow> Some N
         | Inr K \<Rightarrow> (case found E K workspace_secret_bytes (sc_threshold C) of
             Inl _ \<Rightarrow> Some N
           | Inr W \<Rightarrow> map_option (save S) (announce_endpoint S cx
               (N\<lparr>wn_state := Some W, wn_initialisations := wn_initialisations N + 1\<rparr>))))
      else if sc_outsider C = Some n then Some N
      else if sc_invite_thief C = Some n then Some N
      else
        let N = N\<lparr>wn_bootstrap := bs_insert (inviter S N) (wn_bootstrap N)\<rparr> in
        Some (if sc_stagger_join C
              then emit (OutTimer TickJoin (JOIN_STAGGER * (if unat n < 2 ^ 32 then unat n else 1))) N
              else emit (OutTimer TickJoin JOIN_RETRY) (send_hello S N)))"

definition on_start :: "('c, 'r, 'd, 'h) sim \<Rightarrow> ctx \<Rightarrow> ('c, 'r, 'd) ws_node \<Rightarrow> ('c, 'r, 'd) ws_node option" where
  "on_start S cx N =
     (let n = cx_me cx; signer = signer_of S n 0xA1;
          share_secret = snd (bk_gen_share_secret (e_beekem (si_env S)) (node_rng S n 0xB2));
          N = N\<lparr>wn_me := n, wn_signer := Some signer, wn_share_secret := Some share_secret,
                wn_repair_sent := cooldown_new SIM_REPAIR_COOLDOWN,
                wn_repair_answers := cooldown_new REPAIR_ANSWER_COOLDOWN\<rparr>
      in if wn_started N then Some (arm_timers S cx (reboot S N))
         else map_option (arm_timers S cx) (first_start S cx signer (N\<lparr>wn_started := True\<rparr>)))"

definition apply_msg ::
  "('c, 'r, 'd, 'h) sim \<Rightarrow> ctx \<Rightarrow> node_id \<Rightarrow> msg \<Rightarrow> ('c, 'r, 'd) ws_node \<Rightarrow> ('c, 'r, 'd) ws_node option" where
  "apply_msg S cx from' m N = (case m of
     Hello member share_key as_device_of \<Rightarrow> on_hello S cx from' member share_key as_device_of N
   | Welcome invitee namespace log certs secret \<Rightarrow>
       if is_invite_thief S N then Some (on_stolen_welcome from' namespace N)
       else on_welcome S cx from' invitee namespace log certs secret N
   | Entry namespace key author ch \<Rightarrow>
       if wn_stolen_invite N \<and> wn_state N = None then
         Some (if namespace = wn_namespace N then observe key author ch N else N)
       else if wn_state N = None then Some (N\<lparr>wn_inbox := wn_inbox N @ [m]\<rparr>)
       else on_entry S cx (sim_pump_full S cx) namespace key author ch 3 N
   | Control c \<Rightarrow>
       if wn_state N = None then Some (N\<lparr>wn_inbox := wn_inbox N @ [m]\<rparr>) else sim_on_control S cx c N
   | Segment namespace key _ bs \<Rightarrow>
       if wn_state N = None then Some (N\<lparr>wn_inbox := wn_inbox N @ [m]\<rparr>) else Some (on_segment S namespace key bs N))"

definition on_msg ::
  "('c, 'r, 'd, 'h) sim \<Rightarrow> ctx \<Rightarrow> node_id \<Rightarrow> msg \<Rightarrow> ('c, 'r, 'd) ws_node \<Rightarrow> ('c, 'r, 'd) ws_node option" where
  "on_msg S cx from' m N =
     (if \<not> sim_admits from' m N then Some (N\<lparr>wn_refused_messages := wn_refused_messages N + 1\<rparr>)
      else map_option (save S) (apply_msg S cx from' m N))"

definition on_timer :: "('c, 'r, 'd, 'h) sim \<Rightarrow> ctx \<Rightarrow> tick \<Rightarrow> ('c, 'r, 'd) ws_node \<Rightarrow> ('c, 'r, 'd) ws_node option" where
  "on_timer S cx t N = map_option (save S) (apply_timer S cx t N)"

definition on_client_op ::
  "('c, 'r, 'd, 'h) sim \<Rightarrow> ctx \<Rightarrow> ws_op \<Rightarrow> op_token \<Rightarrow> ('c, 'r, 'd) ws_node \<Rightarrow> (('c, 'r, 'd) ws_node \<times> op_outcome) option" where
  "on_client_op S cx op token N =
     (if wn_state N = None then Some (N\<lparr>wn_deferred_ops := wn_deferred_ops N @ [(token, op)]\<rparr>, OpPending)
      else map_option (\<lambda>(N, resp). (save S N, OpDone resp)) (apply_op S cx op N))"

end
