(* ===== verification/Sim_Depth.thy ===== *)
theory Sim_Depth
  imports Sim_Callbacks Driver_Depth
begin

text \<open>
  The nesting of the simulated node's pump. It is the pump of the networked workspace with one more way back:
  when the manifest changed, entries that were refused are offered again. None of them is a manifest entry
  (\<open>refused_ok\<close>), so what that pumps only applies documents and asks for repairs, and the ranks of
  \<open>Driver_Depth\<close> bound the depth here too.
\<close>

definition refused_ok :: "('c, 'r, 'd, 'h) sim \<Rightarrow> ('c, 'r, 'd) ws_node \<Rightarrow> bool" where
  "refused_ok S N \<longleftrightarrow> (\<forall>(key, author, ch) \<in> set (wn_refused N). key \<noteq> sim_manifest_key S)"

lemma refused_ok_cong: "wn_refused M = wn_refused N \<Longrightarrow> refused_ok S M = refused_ok S N"
  by (simp add: refused_ok_def)

lemma refused_on_core [simp]: "wn_refused (fst (on_core f N)) = wn_refused N"
  by (simp add: on_core_def split: option.split prod.split)

lemma refused_kept [simp]:
  "wn_refused (emit o' N) = wn_refused N" "wn_refused (observe key author ch N) = wn_refused N"
  "wn_refused (sim_refresh_roster S N) = wn_refused N" "wn_refused (reconcile N) = wn_refused N"
  "wn_refused (retain_entries keep N) = wn_refused N" "wn_refused (store_entry S cx key ch N) = wn_refused N"
  "wn_refused (adopt S epoch ticket N) = []" "wn_refused (ask_for_repair cx target e N) = wn_refused N"
  by (simp_all add: emit_def observe_def sim_refresh_roster_def reconcile_def retain_entries_def store_entry_def
      adopt_def ask_for_repair_def Let_def split: option.split prod.split bool.split)

section \<open>Two depths of the pump\<close>

text \<open>Two computations that both answer, answer the same, and keep what was refused in order.\<close>

definition concur :: "('c, 'r, 'd, 'h) sim \<Rightarrow> ('c, 'r, 'd) ws_node option \<Rightarrow> ('c, 'r, 'd) ws_node option \<Rightarrow> bool" where
  "concur S x y \<longleftrightarrow> (\<exists>M. x = Some M \<and> y = Some M \<and> refused_ok S M)"

lemma concur_Some [simp]: "concur S (Some M) (Some N) \<longleftrightarrow> M = N \<and> refused_ok S M"
  by (auto simp: concur_def)

lemma concur_bind: "concur S x y \<Longrightarrow> (\<And>M. refused_ok S M \<Longrightarrow> concur S (f M) (g M)) \<Longrightarrow> concur S (Option.bind x f) (Option.bind y g)"
  by (auto simp: concur_def)

definition sim_agree :: "('c, 'r, 'd, 'h) sim \<Rightarrow> nat \<Rightarrow> ('c, 'r, 'd) sim_pump \<Rightarrow> ('c, 'r, 'd) sim_pump \<Rightarrow> bool" where
  "sim_agree S n p q \<longleftrightarrow> (\<forall>effects salt N. ranked n effects \<longrightarrow> refused_ok S N \<longrightarrow> concur S (p effects salt N) (q effects salt N))"

lemma sim_agreeD: "sim_agree S n p q \<Longrightarrow> ranked n effects \<Longrightarrow> refused_ok S N \<Longrightarrow> concur S (p effects salt N) (q effects salt N)"
  by (simp add: sim_agree_def)

lemma sim_agree_mono: "sim_agree S n p q \<Longrightarrow> m \<le> n \<Longrightarrow> sim_agree S m p q"
  unfolding sim_agree_def by (blast intro: ranked_mono)

lemma on_core_emits:
  assumes "on_core f N = (M, Some (Inr effects))" and "\<And>W. emits Q (f W)"
  shows "Q effects"
  using assms(1) assms(2) [of "the (wn_state N)"] by (auto simp: on_core_def emits_def split: option.splits prod.splits)

lemma call_core_concur:
  assumes "sim_agree S n p q" and "\<And>W. emits (ranked n) (f W)" and "refused_ok S N"
  shows "concur S (call_core S cx p seed salt f N) (call_core S cx q seed salt f N)"
proof -
  let ?f = "\<lambda>W. f (reseed (node_rng S (cx_me cx) seed) W)"
  obtain M r where r: "on_core ?f N = (M, r)" by fastforce
  have M: "refused_ok S M"
    using refused_on_core [of ?f N] r assms(3) by (simp add: refused_ok_cong [of M N])
  have "ranked n effects" if "r = Some (Inr effects)" for effects
    by (rule on_core_emits [OF _ assms(2)]) (use r that in simp)
  then show ?thesis
    using sim_agreeD [OF assms(1) _ M] M by (auto simp: call_core_def r split: option.split sum.split)
qed

lemma drive_concur:
  assumes "sim_agree S n p q" and "\<And>now W. emits (ranked n) (handle (si_env S) now ev W)" and "refused_ok S N"
  shows "concur S (sim_drive S cx p ev salt N) (sim_drive S cx q ev salt N)"
  unfolding sim_drive_def by (rule call_core_concur [OF assms(1) assms(2) assms(3)])

lemma drive_each_concur:
  assumes "sim_agree S n p q" and "\<And>ev now W. ev \<in> fst ` set evs \<Longrightarrow> emits (ranked n) (handle (si_env S) now ev W)"
    and "refused_ok S N"
  shows "concur S (drive_each S cx p evs N) (drive_each S cx q evs N)"
  using assms(2,3)
proof (induction evs arbitrary: N)
  case (Cons a evs)
  obtain ev salt where a: "a = (ev, salt)" by fastforce
  have "concur S (sim_drive S cx p ev salt N) (sim_drive S cx q ev salt N)"
    by (intro drive_concur [OF assms(1)] Cons.prems(1) Cons.prems(2)) (simp add: a)
  then show ?case using Cons by (auto simp: a intro!: concur_bind)
qed simp

lemma salted_events: "fst ` set (salted base evs) \<subseteq> set evs"
  by (auto simp: salted_def dest: set_zip_leftD)

lemma republish_concur:
  assumes "sim_agree S (Suc 0) p q" and "refused_ok S N"
  shows "concur S (sim_republish S cx p N) (sim_republish S cx q N)"
proof -
  have "emits (ranked (Suc 0)) (handle (si_env S) now ev W)" if "ev \<in> fst ` set (salted base (map EvResync DOCS))" for base now ev W
    using that salted_events [of base "map EvResync DOCS"] rank_resync by force
  moreover have "emits (ranked (Suc 0)) (handle (si_env S) now ev W)" if "ev \<in> fst ` set (salted base ANNOUNCED_ONCE)" for base now ev W
    using that salted_events [of base ANNOUNCED_ONCE] rank_announced by blast
  ultimately show ?thesis
    unfolding sim_republish_def
    by (intro concur_bind drive_each_concur [OF assms(1)]) (use assms(2) in \<open>auto simp: refused_ok_cong [of "reconcile N" N]\<close>)
qed

lemma reseal_each_concur:
  assumes "sim_agree S (Suc 0) p q" and "refused_ok S N"
  shows "concur S (reseal_each S cx p salt rs N) (reseal_each S cx q salt rs N)"
  using assms(2)
proof (induction rs arbitrary: N)
  case (Cons a rs)
  obtain requester asset where a: "a = (requester, asset)" by fastforce
  have "concur S (sim_reseal_asset_key S cx p requester asset salt N) (sim_reseal_asset_key S cx q requester asset salt N)"
    unfolding sim_reseal_asset_key_def
    using call_core_concur [OF assms(1) rank_reseal Cons.prems] Cons.prems by (auto split: option.split)
  then show ?case using Cons.IH by (auto simp: a intro!: concur_bind)
qed simp

lemma on_entry_concur:
  assumes "sim_agree S (Suc 0) p q" and "refused_ok S N" and "key \<noteq> sim_manifest_key S"
  shows "concur S (on_entry S cx p namespace key author ch salt N) (on_entry S cx q namespace key author ch salt N)"
proof -
  have N: "refused_ok S (observe key author ch N)" using assms(2) by (simp add: refused_ok_def)
  moreover have "refused_ok S ((observe key author ch N)\<lparr>wn_refused := wn_refused N @ [(key, author, ch)]\<rparr>)"
    using assms(2,3) by (auto simp: refused_ok_def)
  ultimately show ?thesis
    using drive_concur [OF assms(1) rank_arrived N] assms(2,3)
    by (auto simp: on_entry_def Let_def split: option.split)
qed

lemma retry_each_concur:
  assumes "sim_agree S (Suc 0) p q" and "refused_ok S N" and "\<forall>(key, author, ch) \<in> set es. key \<noteq> sim_manifest_key S"
  shows "concur S (retry_each S cx p salt es N) (retry_each S cx q salt es N)"
  using assms(2,3)
proof (induction es arbitrary: N)
  case (Cons a es)
  obtain key author ch where a: "a = (key, author, ch)" by (metis surj_pair)
  show ?case
    using on_entry_concur [OF assms(1) Cons.prems(1), of key] Cons.prems(2) Cons.IH by (auto simp: a intro!: concur_bind)
qed simp

lemma retry_refused_concur:
  "sim_agree S (Suc 0) p q \<Longrightarrow> refused_ok S N \<Longrightarrow> concur S (retry_refused S cx p salt N) (retry_refused S cx q salt N)"
  unfolding retry_refused_def by (rule retry_each_concur) (auto simp: refused_ok_def)

section \<open>What the loop leaves to be done\<close>

text \<open>The follow-ups that effects below a rank can leave.\<close>

definition follow_ups_below :: "nat \<Rightarrow> follow_ups \<Rightarrow> bool" where
  "follow_ups_below n P \<longleftrightarrow> (fu_mint P \<noteq> None \<longrightarrow> 2 < n) \<and> (fu_republish P \<longrightarrow> 1 < n) \<and> (fu_eviction P \<noteq> None \<longrightarrow> 3 < n)
     \<and> (fu_reseal P \<noteq> [] \<longrightarrow> 1 < n) \<and> (fu_retry P \<longrightarrow> 1 < n)"

lemma sim_effect_below:
  assumes "refused_ok S (fst st)" and "follow_ups_below n (snd st)" and "effect_rank e < n"
  shows "refused_ok S (fst (sim_effect S cx e st)) \<and> follow_ups_below n (snd (sim_effect S cx e st))"
proof -
  obtain N P where st: "st = (N, P)" by fastforce
  have "refused_ok S (adopt S epoch ticket N)" for epoch ticket by (simp add: refused_ok_def)
  moreover have "refused_ok S M" if "wn_refused M = wn_refused N" for M
    using assms(1) that by (simp add: st refused_ok_cong [of M N])
  ultimately show ?thesis using assms(2,3) by (cases e; simp add: st follow_ups_below_def)
qed

lemma sim_effects_below:
  assumes "refused_ok S N" and "ranked n effects" and "fold (sim_effect S cx) effects (N, no_follow_ups) = (M, P)"
  shows "refused_ok S M \<and> follow_ups_below n P"
proof -
  let ?P = "\<lambda>st. refused_ok S (fst st) \<and> follow_ups_below n (snd st)"
  have "?P (fold (sim_effect S cx) effects (N, no_follow_ups))"
  proof (rule fold_invariant_set [where P = ?P])
    show "?P (N, no_follow_ups)" using assms(1) by (simp add: no_follow_ups_def follow_ups_below_def)
    fix e st assume "e \<in> set effects" "?P st"
    then show "?P (sim_effect S cx e st)" using assms(2) by (intro sim_effect_below) (simp_all add: ranked_def)
  qed
  with assms(3) show ?thesis by simp
qed

lemma follow_up_concur:
  assumes "follow_ups_below (Suc n) P" and "sim_agree S n p q" and "refused_ok S N"
  shows "concur S (follow_up S cx p salt P N) (follow_up S cx q salt P N)"
proof -
  note below = assms(1) [unfolded follow_ups_below_def]
  have low: "fu_republish P \<or> fu_reseal P \<noteq> [] \<or> fu_retry P \<Longrightarrow> sim_agree S (Suc 0) p q"
    using below by (intro sim_agree_mono [OF assms(2)]) auto
  have mint: "concur S (case fu_mint P of None \<Rightarrow> Some M
      | Some (epoch, ticket) \<Rightarrow> sim_drive S cx p (EvNamespaceMinted epoch ticket) salt' M)
      (case fu_mint P of None \<Rightarrow> Some M
      | Some (epoch, ticket) \<Rightarrow> sim_drive S cx q (EvNamespaceMinted epoch ticket) salt' M)" if "refused_ok S M" for M salt'
    using that below drive_concur [OF sim_agree_mono [OF assms(2), of 2] rank_minted that]
    by (auto split: option.split)
  have evict: "concur S (case fu_eviction P of None \<Rightarrow> Some M | Some m \<Rightarrow> sim_drive S cx p (EvRemoveMember m) salt' M)
      (case fu_eviction P of None \<Rightarrow> Some M | Some m \<Rightarrow> sim_drive S cx q (EvRemoveMember m) salt' M)"
    if "refused_ok S M" for M salt'
    using that below drive_concur [OF sim_agree_mono [OF assms(2), of 3] rank_removal that]
    by (auto split: option.split)
  have reseal: "concur S (reseal_each S cx p salt (fu_reseal P) M) (reseal_each S cx q salt (fu_reseal P) M)" if "refused_ok S M" for M
    by (cases "fu_reseal P = []") (use that reseal_each_concur [OF low that] in auto)
  show ?thesis
    unfolding follow_up_def
    by (intro concur_bind mint evict reseal)
      (use assms(3) low republish_concur retry_refused_concur in auto)
qed

lemma sim_effects_agree: "k \<le> n \<Longrightarrow> sim_agree S k (sim_apply_effects S cx n) (sim_apply_effects S cx k)"
proof (induction k arbitrary: n)
  case 0
  have "follow_up S cx p salt no_follow_ups N = Some N" for p salt N
    by (simp add: follow_up_def no_follow_ups_def)
  then show ?case
    by (cases n) (auto simp: sim_agree_def ranked_def refused_ok_cong [of "sim_refresh_roster S _"])
next
  case (Suc k)
  then obtain n' where n: "n = Suc n'" "k \<le> n'" by (cases n) auto
  show ?case
    unfolding sim_agree_def
  proof (intro allI impI)
    fix effects salt N assume e: "ranked (Suc k) effects" "refused_ok S N"
    obtain M P where M: "fold (sim_effect S cx) effects (N, no_follow_ups) = (M, P)" by fastforce
    from sim_effects_below [OF e(2,1) M] follow_up_concur [OF _ Suc.IH [OF n(2)], of P "sim_refresh_roster S M"]
    show "concur S (sim_apply_effects S cx n effects salt N) (sim_apply_effects S cx (Suc k) effects salt N)"
      by (simp add: n M refused_ok_cong [of "sim_refresh_roster S M" M])
  qed
qed

text \<open>So the pump of the callbacks answers, and keeps what was refused in order.\<close>

lemma pump_answers:
  assumes "refused_ok S N"
  shows "\<exists>M. (\<forall>extra. sim_apply_effects S cx (PUMP_DEPTH + extra) effects salt N = Some M) \<and> refused_ok S M"
proof -
  obtain M where M: "sim_apply_effects S cx PUMP_DEPTH effects salt N = Some M" "refused_ok S M"
    using sim_agreeD [OF sim_effects_agree [of PUMP_DEPTH PUMP_DEPTH S cx] ranked_PUMP_DEPTH assms, of effects salt]
    by (auto simp: concur_def)
  moreover have "sim_apply_effects S cx (PUMP_DEPTH + extra) effects salt N = Some M" for extra
    using sim_agreeD [OF sim_effects_agree [of PUMP_DEPTH "PUMP_DEPTH + extra" S cx] ranked_PUMP_DEPTH assms, of effects salt] M(1)
    by (auto simp: concur_def)
  ultimately show ?thesis by blast
qed

lemma pump_full_answers: "refused_ok S N \<Longrightarrow> \<exists>M. sim_pump_full S cx effects salt N = Some M \<and> refused_ok S M"
  using pump_answers [of S N cx effects salt] unfolding sim_pump_full_def by (metis add.right_neutral)

end
