(* ===== verification/Sim_Relations.thy ===== *)
theory Sim_Relations
  imports Sim_Depth Workspace_Invariants
begin

text \<open>
  What a simulated node can do to itself. \<open>sim_relation\<close> is the contract of a relation between a node before
  and after that allows steps of the core, outputs and the node's own bookkeeping; \<open>sim_life\<close> asks how a node
  comes to a state and what it keeps on its disk. Every handler then keeps the relation, and answers: no handler
  runs out of depth.
\<close>

section \<open>The contract\<close>

text \<open>What is ordinary for a node to ask: anything but a part in the join handshake.\<close>

fun ordinary_msg :: "msg \<Rightarrow> bool" where
  "ordinary_msg (Hello _ _ _) = False"
| "ordinary_msg (Welcome _ _ _ _ _) = False"
| "ordinary_msg _ = True"

fun ordinary :: "sim_output \<Rightarrow> bool" where
  "ordinary (OutBroadcast m) = ordinary_msg m"
| "ordinary (OutSend to m) = ordinary_msg m"
| "ordinary (OutTimer t _) = (t \<noteq> TickJoin)"
| "ordinary (OutComplete _ _) = True"

text \<open>What bookkeeping leaves alone.\<close>

definition essentials where
  "essentials N = (wn_state N, wn_disk N, wn_out N, wn_initialisations N, wn_bootstrap N, wn_stolen_invite N, wn_signer N,
     wn_share_secret N, wn_me N, wn_started N)"

locale sim_relation =
  fixes S :: "('c, 'r, 'd, 'h) sim" and fine :: "sim_output \<Rightarrow> bool"
    and R :: "('c, 'r, 'd) ws_node \<Rightarrow> ('c, 'r, 'd) ws_node \<Rightarrow> bool"
  assumes trans: "R N M \<Longrightarrow> R M L \<Longrightarrow> R N L"
    and frame: "essentials M = essentials N \<Longrightarrow> R N M"
    and core: "wn_state N = Some W \<Longrightarrow> workspace_step (si_env S) W W' \<Longrightarrow> R N (N\<lparr>wn_state := Some W'\<rparr>)"
    and out: "ordinary o' \<or> fine o' \<Longrightarrow> R N (emit o' N)"
begin

lemma refl: "R N N"
  by (rule frame) simp

lemma frames:
  "R N (observe key author ch N)" "R N (retain_entries keep N)" "R N (adopt S epoch ticket N)"
  "R N (sim_refresh_roster S N)" "R N (N\<lparr>wn_refused := rs\<rparr>)" "R N (N\<lparr>wn_last_published := ch'\<rparr>)"
  "R N (N\<lparr>wn_repair_sent := c1\<rparr>)" "R N (N\<lparr>wn_repair_answers := c2\<rparr>)" "R N (N\<lparr>wn_asset_view := v\<rparr>)"
  "R N (N\<lparr>wn_segments := sg\<rparr>)" "R N (N\<lparr>wn_contributed := ts\<rparr>)" "R N (N\<lparr>wn_deferred_ops := ops\<rparr>)"
  "R N (N\<lparr>wn_observed_ops := n\<rparr>)" "R N (N\<lparr>wn_inbox := ms\<rparr>)" "R N (N\<lparr>wn_approved := ds\<rparr>)"
  "R N (N\<lparr>wn_contributed := ts, wn_edits_made := k\<rparr>)" "R N (N\<lparr>wn_resyncs_done := k\<rparr>)" "R N (N\<lparr>wn_rotations_done := k\<rparr>)"
  "R N (N\<lparr>wn_overreaches_made := k\<rparr>)" "R N (N\<lparr>wn_forgeries_made := k\<rparr>)" "R N (N\<lparr>wn_left := b\<rparr>)"
  "R N (N\<lparr>wn_refused_messages := n\<rparr>)"
  by (rule frame; simp add: essentials_def observe_def retain_entries_def adopt_def sim_refresh_roster_def Let_def
      split: option.split)+

lemma outs_keep: "(\<And>o'. o' \<in> set os \<Longrightarrow> ordinary o' \<or> fine o') \<Longrightarrow> R N (N\<lparr>wn_out := wn_out N @ os\<rparr>)"
proof (induction os arbitrary: N)
  case (Cons o' os)
  from trans [OF out Cons.IH, of o' N] Cons.prems show ?case by (simp add: emit_def)
qed (simp add: refl)

lemma reconcile_keeps: "R N (reconcile N)"
  unfolding reconcile_def by (rule outs_keep) (auto split: prod.splits)

lemma steps_keep:
  assumes "wn_state N = Some W" and "(workspace_step (si_env S))\<^sup>*\<^sup>* W V"
  shows "R N (N\<lparr>wn_state := Some V\<rparr>)"
  using assms(2)
proof (induction rule: rtranclp_induct)
  case base
  show ?case by (rule frame) (simp add: essentials_def assms(1))
next
  case (step U V)
  from trans [OF step.IH core [OF _ step.hyps(2), of "N\<lparr>wn_state := Some U\<rparr>"]] show ?case by simp
qed

lemma on_core_keeps:
  assumes "\<And>W. wn_state N = Some W \<Longrightarrow> (workspace_step (si_env S))\<^sup>*\<^sup>* W (fst (f W))"
  shows "R N (fst (on_core f N))"
proof (cases "wn_state N")
  case (Some W)
  from steps_keep [OF Some assms [OF Some]] Some show ?thesis by (simp add: on_core_def split: prod.splits) (metis fst_conv)
qed (simp add: on_core_def refl)

lemma seeded_keeps:
  assumes "\<And>W. workspace_step (si_env S) W (fst (f W))"
  shows "R N (fst (on_core (\<lambda>W. f (reseed rng W)) N))"
proof (rule on_core_keeps)
  fix W
  have "workspace_step (si_env S) W (reseed rng W)" unfolding reseed_def by (rule workspace_step.reseeded)
  then show "(workspace_step (si_env S))\<^sup>*\<^sup>* W (fst (f (reseed rng W)))"
    using assms by (blast intro: rtranclp.rtrancl_into_rtrancl)
qed

section \<open>The pump\<close>

definition kept :: "('c, 'r, 'd) ws_node \<Rightarrow> ('c, 'r, 'd) ws_node option \<Rightarrow> bool" where
  "kept N x \<longleftrightarrow> (\<forall>M. x = Some M \<longrightarrow> R N M)"

lemma kept_Some [simp]: "kept N (Some M) = R N M"
  by (simp add: kept_def)

lemma kept_trans: "R N M \<Longrightarrow> kept M x \<Longrightarrow> kept N x"
  using trans by (auto simp: kept_def)

lemma kept_bind: "kept N x \<Longrightarrow> (\<And>M. kept M (f M)) \<Longrightarrow> kept N (Option.bind x f)"
  by (cases x) (auto simp: kept_def [of _ None] intro: kept_trans)

definition pump_keeps :: "('c, 'r, 'd) sim_pump \<Rightarrow> bool" where
  "pump_keeps p \<longleftrightarrow> (\<forall>effects salt N. kept N (p effects salt N))"

lemma call_core_kept:
  assumes "pump_keeps p" and "\<And>W. workspace_step (si_env S) W (fst (f W))"
  shows "kept N (call_core S cx p seed salt f N)"
proof -
  obtain M r where r: "on_core (\<lambda>W. f (reseed (node_rng S (cx_me cx) seed) W)) N = (M, r)" by fastforce
  have "R N M" using seeded_keeps [OF assms(2), where N = N and rng = "node_rng S (cx_me cx) seed"] r by simp
  then show ?thesis
    using kept_trans assms(1) by (auto simp: call_core_def r pump_keeps_def split: option.split sum.split)
qed

lemma drive_kept: "pump_keeps p \<Longrightarrow> kept N (sim_drive S cx p ev salt N)"
  unfolding sim_drive_def by (rule call_core_kept [OF _ workspace_step.event])

lemma drive_each_kept: "pump_keeps p \<Longrightarrow> kept N (drive_each S cx p evs N)"
proof (induction evs arbitrary: N)
  case (Cons a evs)
  then show ?case by (cases a) (auto intro: kept_bind drive_kept)
qed (simp add: refl)

lemma republish_kept: "pump_keeps p \<Longrightarrow> kept N (sim_republish S cx p N)"
  unfolding sim_republish_def
  by (intro kept_bind drive_each_kept kept_trans [OF reconcile_keeps])

lemma reseal_each_kept: "pump_keeps p \<Longrightarrow> kept N (reseal_each S cx p salt rs N)"
proof (induction rs arbitrary: N)
  case (Cons a rs)
  have "kept M (sim_reseal_asset_key S cx p requester asset salt M)" for M requester asset
    unfolding sim_reseal_asset_key_def
    using call_core_kept [OF Cons.prems workspace_step.reseal] by (auto simp: refl split: option.split)
  with Cons show ?case by (cases a) (auto intro: kept_bind)
qed (simp add: refl)

lemma on_entry_kept: "pump_keeps p \<Longrightarrow> kept N (on_entry S cx p namespace key author ch salt N)"
  unfolding on_entry_def Let_def
  using kept_trans [OF frames(1) drive_kept] trans [OF frames(1) frames(5)]
  by (auto simp: refl frames(1) split: option.split)

lemma retry_each_kept: "pump_keeps p \<Longrightarrow> kept N (retry_each S cx p salt es N)"
proof (induction es arbitrary: N)
  case (Cons a es)
  then show ?case by (cases a) (auto intro: kept_bind on_entry_kept)
qed (simp add: refl)

lemma follow_up_kept:
  assumes p: "pump_keeps p"
  shows "kept N (follow_up S cx p salt P N)"
proof -
  have "kept M (retry_refused S cx p salt' M)" for M salt'
    unfolding retry_refused_def by (rule kept_trans [OF frames(5) retry_each_kept [OF p]])
  then show ?thesis
    unfolding follow_up_def
    by (intro kept_bind reseal_each_kept [OF p])
      (auto simp: refl drive_kept [OF p] republish_kept [OF p] split: option.split)
qed

lemma ask_for_repair_keeps: "R N (ask_for_repair cx target epoch N)"
  unfolding ask_for_repair_def
  using trans [OF frames(7) out] by (auto simp: refl frames(7) split: option.split prod.split bool.split)

lemma store_entry_keeps: "R N (store_entry S cx key ch N)"
proof -
  let ?N = "if sc_forge (si_scenario S) \<and> key \<noteq> sim_manifest_key S then N\<lparr>wn_last_published := Some ch\<rparr> else N"
  have "R N ?N" by (simp add: refl frames(6))
  then have "R N (observe key (cx_me cx) ch ?N)" using frames(1) trans by blast
  then show ?thesis unfolding store_entry_def Let_def by (rule trans [OF _ out]) simp
qed

lemma sim_effect_keeps: "R (fst st) (fst (sim_effect S cx e st))"
  by (cases st; cases e; simp add: refl out store_entry_keeps frames ask_for_repair_keeps)

lemma pump_kept: "pump_keeps (sim_apply_effects S cx n)"
proof (induction n)
  case 0
  show ?case by (simp add: pump_keeps_def kept_def frames(4))
next
  case (Suc n)
  show ?case
    unfolding pump_keeps_def
  proof (intro allI)
    fix effects salt N
    obtain M P where M: "fold (sim_effect S cx) effects (N, no_follow_ups) = (M, P)" by fastforce
    have "R N (fst (fold (sim_effect S cx) effects (N, no_follow_ups)))"
      by (rule fold_invariant_set [where P = "\<lambda>st. R N (fst st)"]) (auto simp: refl intro: trans [OF _ sim_effect_keeps])
    with M have "R N (sim_refresh_roster S M)" using trans [OF _ frames(4)] by simp
    from kept_trans [OF this follow_up_kept [OF Suc]] M
    show "kept N (sim_apply_effects S cx (Suc n) effects salt N)" by simp
  qed
qed

section \<open>Handlers that answer\<close>

text \<open>\<open>goes\<close>: a step that keeps the relation and what was refused in order. \<open>does\<close>: a handler that takes one.\<close>

definition goes :: "('c, 'r, 'd) ws_node \<Rightarrow> ('c, 'r, 'd) ws_node \<Rightarrow> bool" where
  "goes N M \<longleftrightarrow> R N M \<and> (refused_ok S N \<longrightarrow> refused_ok S M)"

definition does :: "('c, 'r, 'd) ws_node \<Rightarrow> ('c, 'r, 'd) ws_node option \<Rightarrow> bool" where
  "does N x \<longleftrightarrow> (refused_ok S N \<longrightarrow> (\<exists>M. x = Some M \<and> R N M \<and> refused_ok S M))"

lemma goesI: "R N M \<Longrightarrow> wn_refused M = wn_refused N \<Longrightarrow> goes N M"
  by (simp add: goes_def refused_ok_cong [of M N])

lemma goes_refl: "goes N N"
  by (simp add: goes_def refl)

lemma goes_trans: "goes N M \<Longrightarrow> goes M L \<Longrightarrow> goes N L"
  unfolding goes_def using trans by blast

lemma does_Some: "goes N M \<Longrightarrow> does N (Some M)"
  by (simp add: goes_def does_def)

lemma does_from: "goes N M \<Longrightarrow> does M x \<Longrightarrow> does N x"
  unfolding goes_def does_def using trans by blast

lemma does_bind: "does N x \<Longrightarrow> (\<And>M. does M (f M)) \<Longrightarrow> does N (Option.bind x f)"
  unfolding does_def using trans by fastforce

lemma does_bind_fst: "does N (map_option fst x) \<Longrightarrow> (\<And>M r. does M (f M r)) \<Longrightarrow> does N (Option.bind x (\<lambda>(M, r). f M r))"
  by (cases x) (use does_bind [of N "map_option fst x"] in \<open>auto simp: does_def trans\<close>, (metis trans)+)

lemma does_map: "does N x \<Longrightarrow> (\<And>M. goes M (f M)) \<Longrightarrow> does N (map_option f x)"
  unfolding does_def goes_def using trans by fastforce

lemma does_if: "does N x \<Longrightarrow> does N y \<Longrightarrow> does N (if b then x else y)"
  by simp

lemma bookkeeping [simp]:
  "goes N (N\<lparr>wn_repair_answers := c2\<rparr>)" "goes N (N\<lparr>wn_asset_view := v\<rparr>)" "goes N (N\<lparr>wn_segments := sg\<rparr>)"
  "goes N (N\<lparr>wn_contributed := ts\<rparr>)" "goes N (N\<lparr>wn_deferred_ops := ops\<rparr>)" "goes N (N\<lparr>wn_observed_ops := n\<rparr>)"
  "goes N (N\<lparr>wn_inbox := ms\<rparr>)" "goes N (N\<lparr>wn_approved := ds\<rparr>)" "goes N (N\<lparr>wn_contributed := ts, wn_edits_made := k\<rparr>)"
  "goes N (N\<lparr>wn_resyncs_done := k\<rparr>)" "goes N (N\<lparr>wn_rotations_done := k\<rparr>)" "goes N (N\<lparr>wn_overreaches_made := k\<rparr>)"
  "goes N (N\<lparr>wn_forgeries_made := k\<rparr>)" "goes N (N\<lparr>wn_left := b\<rparr>)" "goes N (N\<lparr>wn_refused_messages := n\<rparr>)"
  "goes N (observe key author ch N)" "goes N (reconcile N)" "goes N N"
  by (simp_all add: goesI frames reconcile_keeps goes_refl)

lemma emit_goes: "ordinary o' \<or> fine o' \<Longrightarrow> goes N (emit o' N)"
  by (simp add: goesI out)

lemma set_timer_goes: "t \<noteq> TickJoin \<Longrightarrow> goes N (set_timer t delay wanted N)"
  by (simp add: set_timer_def emit_goes)

lemma pump_does: "does N (sim_pump_full S cx effects salt N)"
  using pump_full_answers [of S N cx effects salt] pump_kept [of cx PUMP_DEPTH]
  unfolding does_def pump_keeps_def kept_def sim_pump_full_def by metis

lemma full_pump_keeps: "pump_keeps (sim_pump_full S cx)"
  unfolding sim_pump_full_def by (rule pump_kept)

lemma seeded_goes:
  assumes "on_core (\<lambda>W. f (reseed rng W)) N = (M, r)" and "\<And>W. workspace_step (si_env S) W (fst (f W))"
  shows "goes N M"
  using goesI [OF seeded_keeps [OF assms(2), of N rng] refused_on_core] assms(1) by simp

lemma seeded_does:
  assumes "\<And>W. workspace_step (si_env S) W (fst (f W))" and "\<And>M x. does M (k M x)"
  shows "does N (case on_core (\<lambda>W. f (reseed rng W)) N of (M, Some (Inr x)) \<Rightarrow> k M x | (M, _) \<Rightarrow> Some M)"
proof -
  obtain M r where r: "on_core (\<lambda>W. f (reseed rng W)) N = (M, r)" by fastforce
  note M = seeded_goes [OF r assms(1)]
  from does_from [OF M assms(2)] does_Some [OF M] show ?thesis by (simp add: r split: option.split sum.split)
qed

lemma call_core_does:
  "(\<And>W. workspace_step (si_env S) W (fst (f W))) \<Longrightarrow> does N (call_core S cx (sim_pump_full S cx) seed salt f N)"
  unfolding call_core_def by (rule seeded_does [OF _ pump_does])

lemma drive_does: "does N (drive_full S cx ev salt N)"
  unfolding sim_drive_def by (rule call_core_does [OF workspace_step.event])

lemma drive_each_does: "does N (drive_each S cx (sim_pump_full S cx) evs N)"
proof (induction evs arbitrary: N)
  case (Cons a evs)
  then show ?case by (cases a) (auto intro: does_bind drive_does)
qed (simp add: does_Some)

lemma republish_does: "does N (sim_republish S cx (sim_pump_full S cx) N)"
  unfolding sim_republish_def by (intro does_bind drive_each_does does_from [OF bookkeeping(17)])

lemma on_entry_does: "does N (on_entry S cx (sim_pump_full S cx) namespace key author ch salt N)"
proof -
  have "goes (observe key author ch N) ((observe key author ch N)\<lparr>wn_refused := wn_refused N @ [(key, author, ch)]\<rparr>)"
    if "key \<noteq> sim_manifest_key S"
    using that by (auto simp: goes_def frames(5)) (auto simp: refused_ok_def)
  then show ?thesis
    unfolding on_entry_def Let_def
    using goes_trans [OF bookkeeping(16), THEN does_Some] does_from [OF bookkeeping(16) drive_does]
    by (auto simp: does_Some split: option.split)
qed

lemma read_asset_goes: "goes N (fst (read_asset S N))"
proof -
  have "goes N (fst (on_core (open_asset_key (si_env S) ch) N))" for ch
    by (rule goesI [OF on_core_keeps]) (auto intro: workspace_step.open_key)
  then have step: "goes N M" if "on_core (open_asset_key (si_env S) ch) N = (M, r)" for ch M r
    using that by (metis fst_conv)
  show ?thesis
    by (auto simp: read_asset_def Let_def split: option.split prod.split asset_key_verdict.split intro: step)
qed

lemma on_segment_goes: "goes N (on_segment S namespace key bs N)"
proof -
  have "goes M (refresh_asset_view S M)" for M
    using read_asset_goes [of M] goes_trans [OF read_asset_goes bookkeeping(2), of M]
    by (cases "read_asset S M") (auto simp: refresh_asset_view_def split: option.split)
  note goes_trans [OF bookkeeping(3) this]
  then show ?thesis by (simp add: on_segment_def)
qed

lemma apply_op_does: "does N (map_option fst (apply_op S cx op N))"
proof -
  have "does M (map_option fst (map_option (\<lambda>N. (N, RespApplied)) (drive_full S cx ev 11 M)))" for ev M
    using drive_does [of M cx ev 11] by (simp add: option.map_comp comp_def option.map_ident)
  note drive = this does_from [OF bookkeeping(4) this]
  show ?thesis
    unfolding apply_op_def Let_def
    by (cases op) (auto simp: does_Some drive split: option.split)
qed

lemma complete_each_does: "does N (complete_each S cx ops N)"
proof (induction ops arbitrary: N)
  case (Cons a ops)
  have "does M (complete_each S cx ops (emit (OutComplete token resp) M))" for M token resp
    by (rule does_from [OF emit_goes Cons]) simp
  then show ?case by (cases a) (auto intro!: does_bind_fst apply_op_does)
qed (simp add: does_Some)

lemma flush_deferred_does: "does N (flush_deferred_ops S cx N)"
  unfolding flush_deferred_ops_def using does_from [OF bookkeeping(5) complete_each_does] by (simp add: does_Some)

lemma on_control_does: "does N (sim_on_control S cx m N)"
proof -
  obtain M b where M: "claim_answer_slot cx m N = (M, b)" by fastforce
  have claimed: "goes N M"
    using M by (auto simp: claim_answer_slot_def split: option.splits prod.splits)
  have "does L (do { N \<leftarrow> sim_pump_full S cx effects salt L; flush_deferred_ops S cx N })" for L effects salt
    by (rule does_bind [OF pump_does flush_deferred_does])
  note seeded_does [OF workspace_step.message this]
  then have "does L (case on_core (\<lambda>W. on_control (si_env S) now m (reseed rng W)) L of
      (N, Some (Inr effects)) \<Rightarrow> do { N \<leftarrow> sim_pump_full S cx effects salt N; flush_deferred_ops S cx N }
    | (N, _) \<Rightarrow> Some N)" for L now rng salt .
  from does_from [OF goes_trans [OF claimed bookkeeping(6)] this] claimed show ?thesis
    unfolding sim_on_control_def Let_def by (cases b) (simp_all add: M does_Some)
qed

lemma announce_endpoint_does: "does N (announce_endpoint S cx N)"
  unfolding announce_endpoint_def by (intro does_bind drive_does)

lemma flush_each_does: "does N (flush_each S cx ms N)"
proof (induction ms arbitrary: N)
  case (Cons m ms)
  have "does N (case m of Control c \<Rightarrow> sim_on_control S cx c N
       | Entry namespace key author ch \<Rightarrow> on_entry S cx (sim_pump_full S cx) namespace key author ch 0 N
       | Segment namespace key _ bs \<Rightarrow> Some (on_segment S namespace key bs N)
       | _ \<Rightarrow> Some N)" for N
    by (auto simp: does_Some on_control_does on_entry_does on_segment_goes split: msg.split)
  then show ?case unfolding flush_each.simps by (intro does_bind Cons.IH)
qed (simp add: does_Some)

lemma flush_inbox_does: "does N (flush_inbox S cx N)"
  unfolding flush_inbox_def by (rule does_from [OF bookkeeping(7) flush_each_does])

text \<open>Answering a greeting: the caller says that the welcome is fine.\<close>

lemma on_hello_does:
  assumes "\<And>to namespace log certs secret. fine (OutSend to (Welcome m namespace log certs secret))"
  shows "does N (on_hello S cx from' m share_key as_device_of N)"
proof -
  have welcomed: "goes M (emit (OutSend to (Welcome m namespace log certs secret)) M)" for M to namespace log certs secret
    by (rule emit_goes) (simp add: assms)
  have "goes M (case sc_invite_thief (si_scenario S) of None \<Rightarrow> M
      | Some thief \<Rightarrow> emit (OutSend thief (Welcome m namespace log certs secret)) M)" for M namespace log certs secret
    by (simp add: welcomed split: option.split)
  note does_from [OF goes_trans [OF welcomed this] republish_does]
  then show ?thesis
    unfolding on_hello_def Let_def
    by (intro does_if does_bind drive_does) (auto simp: does_Some split: option.split sum.split)
qed

lemma send_hello_goes:
  assumes "\<And>signer sk user. wn_signer N = Some signer \<Longrightarrow>
    fine (OutBroadcast (Hello (cc_verifying_key (e_crypto (si_env S)) signer) sk user))"
  shows "goes N (send_hello S N)"
  unfolding send_hello_def using assms by (auto intro: emit_goes split: option.split)

lemma forge_goes: "goes N (forge S N)"
proof -
  have "goes M (forge_entry S M)" for M
    by (auto simp: forge_entry_def emit_goes split: option.split)
  note this goes_trans [OF emit_goes this]
  then show ?thesis by (auto simp: forge_def Let_def split: option.split)
qed

lemma overreach_goes: "goes N (overreach S cx N)"
proof (cases "wn_state N")
  case (Some W)
  let ?B = "e_beekem (si_env S)" and ?X = "e_crypto (si_env S)"
  define K1 where "K1 victim n = fst (certify_device ?X victim (me W) n (w_cgka W))" for victim n
  define K2 where "K2 victim n n' = fst (certify_role ?X (me W) Admin n' (K1 victim n))" for victim n n'
  define K3 where "K3 victim sk n n' = fst (add_member ?B victim sk (K2 victim n n'))" for victim sk n n'
  have 1: "workspace_step (si_env S) W (W\<lparr>w_cgka := K1 victim n\<rparr>)" for victim n
    unfolding K1_def by (intro workspace_step.controller controller_step.intros)
  have 2: "workspace_step (si_env S) (W\<lparr>w_cgka := K1 victim n\<rparr>) (W\<lparr>w_cgka := K2 victim n n'\<rparr>)" for victim n n'
    using workspace_step.controller [of "si_env S" "W\<lparr>w_cgka := K1 victim n\<rparr>" "K2 victim n n'"]
    by (simp add: K2_def controller_step.intros)
  have 3: "workspace_step (si_env S) (W\<lparr>w_cgka := K2 victim n n'\<rparr>) (W\<lparr>w_cgka := K3 victim sk n n'\<rparr>)" for victim sk n n'
    using workspace_step.controller [of "si_env S" "W\<lparr>w_cgka := K2 victim n n'\<rparr>" "K3 victim sk n n'"]
    by (simp add: K3_def controller_step.intros)
  have "(workspace_step (si_env S))\<^sup>*\<^sup>* W (W\<lparr>w_cgka := K3 victim sk n n'\<rparr>)" for victim sk n n'
    using 1 [of victim n] 2 [of victim n n'] 3 [of victim n n' sk]
    by (meson converse_rtranclp_into_rtranclp rtranclp.rtrancl_refl)
  from goesI [OF steps_keep [OF Some this]]
  have state: "goes N (N\<lparr>wn_state := Some (W\<lparr>w_cgka := K3 victim sk n n'\<rparr>)\<rparr>)" for victim sk n n' by simp
  have "goes N (N\<lparr>wn_state := Some (W\<lparr>w_cgka := K\<rparr>)\<rparr>)"
    if "certify_device ?X victim (me W) n (w_cgka W) = (L, binding)" "certify_role ?X (me W) Admin n' L = (L', grant)"
      "add_member ?B victim sk L' = (K, added)" for victim n L binding n' L' grant sk K added
    using state [of victim sk n n'] that by (simp add: K3_def K2_def K1_def)
  note emitted = goes_trans [OF this emit_goes]
  show ?thesis
    unfolding overreach_def by (auto simp: Some Let_def split: prod.split sum.split option.split intro: emitted)
qed (simp add: overreach_def)

lemma attach_segments_goes: "goes N (fst (attach_segments S cx key segments is digest N))"
proof (induction "is" arbitrary: digest N)
  case (Cons index "is")
  have "goes M (emit (OutBroadcast (Segment namespace key' author bs)) (M\<lparr>wn_segments := sg\<rparr>))" for M namespace key' author bs sg
    by (rule goes_trans [OF bookkeeping(3) emit_goes]) simp
  note goes_trans [OF this Cons.IH]
  then show ?case by (auto simp: Let_def split: sum.split)
qed simp

lemma attach_asset_does: "does N (attach_asset S cx N)"
proof -
  let ?p = "sim_pump_full S cx"
  have declared: "does M (do { N \<leftarrow> sim_drive S cx ?p ev 0xA55E9 M;
      call_core S cx ?p 0xA55EA 0xA55EB (workspace_add_asset_version (si_env S) ASSET ASSET_V1 meta now) N })" for M ev meta now
    by (intro does_bind drive_does call_core_does workspace_step.add_version)
  have "does M (case attach_segments S cx key n is digest M of (N, None) \<Rightarrow> Some N
      | (N, Some digest) \<Rightarrow> do { N \<leftarrow> sim_drive S cx ?p ev 0xA55E9 N;
          call_core S cx ?p 0xA55EA 0xA55EB (workspace_add_asset_version (si_env S) ASSET ASSET_V1 (meta digest) now) N })"
    for M key n "is" digest ev meta now
  proof -
    obtain L x where L: "attach_segments S cx key n is digest M = (L, x)" by fastforce
    then have "goes M L" using attach_segments_goes [of M cx key n "is" digest] by simp
    from does_from [OF this declared] does_Some [OF this] show ?thesis by (auto simp: L split: option.split)
  qed
  note attached = does_bind [OF pump_does this]
  obtain M r where r: "on_core (\<lambda>W. seal_asset_key (si_env S) ASSET_V1 (reseed (node_rng S (cx_me cx) 0xA55E7) W)) N = (M, r)"
    by fastforce
  note M = seeded_goes [OF r workspace_step.seal]
  from does_from [OF M attached] does_Some [OF M] show ?thesis
    unfolding attach_asset_def r Let_def by (auto split: option.split sum.split)
qed

section \<open>Timers\<close>

lemma approve_each_does: "does N (approve_each S cx salt digests N)"
proof (induction digests arbitrary: N salt)
  case (Cons digest digests)
  show ?case
    unfolding approve_each.simps by (intro does_bind Cons.IH does_from [OF bookkeeping(8) drive_does])
qed (simp add: does_Some)

lemma propose_and_approve_does: "does N (propose_and_approve S cx action salt N)"
  unfolding propose_and_approve_def Let_def by (intro does_bind drive_does approve_each_does)

lemma quorum_timer_does: "does N (apply_quorum_timer S cx t N)"
proof (cases t)
  case TickApproveProposals
  show ?thesis
    unfolding TickApproveProposals apply_quorum_timer.simps
    by (intro does_bind approve_each_does does_Some emit_goes) simp
qed (auto simp: does_Some drive_does propose_and_approve_does split: option.split)

lemma write_after_revocation_does: "does N (write_after_revocation S cx N)"
  unfolding write_after_revocation_def
  by (intro does_bind drive_does) (auto simp: does_Some drive_does split: option.split)

lemma edit_tick_does: "does N (edit_tick S cx N)"
proof -
  have "does M (drive_full S cx ev salt (M\<lparr>wn_contributed := ts, wn_edits_made := k\<rparr>))" for M ev salt ts k
    by (rule does_from [OF bookkeeping(9) drive_does])
  then show ?thesis
    unfolding edit_tick_def Let_def by (intro does_bind does_Some set_timer_goes) (auto simp: does_Some)
qed

lemma send_log_goes: "goes N (sim_send_log S N)"
  by (auto simp: sim_send_log_def emit_goes split: option.split sum.split)

lemma resync_tick_does: "does N (resync_tick S cx N)"
proof -
  have start: "goes N (if wn_resyncs_done N mod RECONCILE_EVERY = 0 then reconcile N else N)" by simp
  have finish: "goes M (set_timer TickResync d b (L\<lparr>wn_resyncs_done := k\<rparr>))" if "goes M L" for M L d b k
    by (rule goes_trans [OF goes_trans [OF that bookkeeping(10)] set_timer_goes]) simp
  have "goes M (if wn_resyncs_done M mod LOG_REPAIR_EVERY = 0 then sim_send_log S M else M)" for M
    by (simp add: send_log_goes)
  note finish [OF this]
  then show ?thesis
    unfolding resync_tick_def Let_def
    by (intro does_bind drive_each_does does_from [OF start] does_Some)
qed

lemma rotate_tick_does: "does N (apply_timer S cx TickRotate N)"
  unfolding apply_timer.simps
  by (intro does_bind does_Some set_timer_goes) (auto simp: does_Some intro!: does_map drive_does)

lemma attack_ticks_do: "does N (apply_timer S cx TickOverreach N)" "does N (apply_timer S cx TickForge N)"
proof -
  have "goes N (set_timer TickOverreach d b (M\<lparr>wn_overreaches_made := k\<rparr>))" if "goes N M" for M d b k
    by (rule goes_trans [OF goes_trans [OF that bookkeeping(12)] set_timer_goes]) simp
  from this [OF overreach_goes] show "does N (apply_timer S cx TickOverreach N)" by (simp add: does_Some Let_def)
  have "goes N (set_timer TickForge d b (M\<lparr>wn_forgeries_made := k\<rparr>))" if "goes N M" for M d b k
    by (rule goes_trans [OF goes_trans [OF that bookkeeping(13)] set_timer_goes]) simp
  from this [OF forge_goes] show "does N (apply_timer S cx TickForge N)" by (simp add: does_Some Let_def)
qed

text \<open>Asking to join again: the caller says that the greeting and its next retry are fine.\<close>

lemma join_tick_does:
  assumes "\<And>signer sk user. wn_signer N = Some signer \<Longrightarrow>
    fine (OutBroadcast (Hello (cc_verifying_key (e_crypto (si_env S)) signer) sk user))" and "fine (OutTimer TickJoin JOIN_RETRY)"
  shows "does N (apply_timer S cx TickJoin N)"
  using goes_trans [OF send_hello_goes [OF assms(1)] emit_goes [of "OutTimer TickJoin JOIN_RETRY"]] assms(2) by (simp add: does_Some)

lemma apply_timer_does:
  assumes "t \<noteq> TickJoin"
  shows "does N (apply_timer S cx t N)"
proof (cases t)
  case TickLeave
  show ?thesis unfolding TickLeave apply_timer.simps by (intro does_map drive_does) simp
qed (use assms in \<open>auto simp: does_Some edit_tick_does resync_tick_does attach_asset_does quorum_timer_does drive_does
    write_after_revocation_does rotate_tick_does attack_ticks_do simp del: apply_timer.simps(5,6,13) apply_quorum_timer.simps
    split: option.split\<close>)

lemma arm_timers_goes: "goes N (arm_timers S cx N)"
proof -
  have "goes N (set_timer t d b M)" if "goes N M" "t \<noteq> TickJoin" for t d b M
    by (rule goes_trans [OF that(1) set_timer_goes [OF that(2)]])
  then show ?thesis unfolding arm_timers_def Let_def by simp
qed

end

section \<open>How a node comes to a state\<close>

text \<open>A state as founding and joining make it, drawing from any generator.\<close>

definition born :: "('c, 'r, 'd) env \<Rightarrow> ('c, 'r, 'd) workspace \<Rightarrow> bool" where
  "born E W \<longleftrightarrow> (\<exists>K. controller_initial (e_beekem E) (e_crypto E) K
     \<and> ((\<exists>secret n. W = joined (e_loro E) K secret n) \<or> (\<exists>secret threshold. found E K secret threshold = Inr W)))"

lemma born_reachable: "born E W \<Longrightarrow> workspace_reachable E W"
  unfolding born_def by (metis controller.surjective controller.update_convs(11) workspace_reachable.founded workspace_reachable.joined)

text \<open>The nodes that greet the others: all but the founder, an outsider and a thief.\<close>

definition joiner :: "('c, 'r, 'd, 'h) sim \<Rightarrow> node_id \<Rightarrow> bool" where
  "joiner S n \<longleftrightarrow> n \<noteq> FOUNDER \<and> sc_outsider (si_scenario S) \<noteq> Some n \<and> sc_invite_thief (si_scenario S) \<noteq> Some n"

text \<open>Two nodes that differ in nothing but who they take themselves for, as node \<open>n\<close> may.\<close>

definition same_self :: "('c, 'r, 'd, 'h) sim \<Rightarrow> node_id \<Rightarrow> ('c, 'r, 'd) ws_node \<Rightarrow> ('c, 'r, 'd) ws_node \<Rightarrow> bool" where
  "same_self S n N M \<longleftrightarrow> wn_state M = wn_state N \<and> wn_disk M = wn_disk N \<and> wn_out M = wn_out N
     \<and> (wn_started N \<longrightarrow> wn_started M) \<and> wn_signer M \<in> {wn_signer N, Some (signer_of S n 0xA1)}
     \<and> ((wn_started M, wn_me M) = (wn_started N, wn_me N) \<or> wn_me M = n)"

locale sim_life = sim_relation S fine R
  for S :: "('c, 'r, 'd, 'h) sim" and fine :: "sim_output \<Rightarrow> bool"
    and R :: "('c, 'r, 'd) ws_node \<Rightarrow> ('c, 'r, 'd) ws_node \<Rightarrow> bool" +
  fixes n :: node_id
  assumes identity: "same_self S n N M \<Longrightarrow> R N M"
    and birth: "wn_state N = None \<Longrightarrow> born (si_env S) W \<Longrightarrow> R N (N\<lparr>wn_state := Some W\<rparr>)"
    and saved: "R N (save S N)"
    and rebooted: "R N (reboot S N)"
begin

lemma refused_save [simp]: "wn_refused (save S N) = wn_refused N"
proof -
  obtain M r where r: "on_core (sim_export S) N = (M, r)" by fastforce
  have "wn_refused M = wn_refused N" using refused_on_core [of "sim_export S" N] r by simp
  then show ?thesis by (auto simp: save_def r split: option.split sum.split)
qed

lemma save_goes: "goes N (save S N)"
  by (rule goesI [OF saved refused_save])

lemma reboot_goes: "goes N (reboot S N)"
proof -
  have "wn_refused (reboot S N) = []" by (auto simp: reboot_def wipe_def split: option.split sum.split)
  then show ?thesis by (simp add: goes_def rebooted refused_ok_def)
qed

lemma identity_goes: "same_self S n N M \<Longrightarrow> wn_refused M = wn_refused N \<Longrightarrow> goes N M"
  by (rule goesI [OF identity])

lemma born_goes:
  assumes "wn_state N = None" and "born (si_env S) W" and "same_self S n (N\<lparr>wn_state := Some W\<rparr>) M" and "wn_refused M = wn_refused N"
  shows "goes N M"
proof (rule goes_trans)
  show "goes N (N\<lparr>wn_state := Some W\<rparr>)" by (rule goesI [OF birth [OF assms(1,2)]]) simp
  show "goes (N\<lparr>wn_state := Some W\<rparr>) M" by (rule identity_goes) (simp_all add: assms)
qed

lemma on_welcome_does: "does N (on_welcome S cx from' invitee namespace log certs secret N)"
proof (cases "wn_state N = None")
  case True
  let ?E = "si_env S"
  have "does N (do { N \<leftarrow> announce_endpoint S cx M; N \<leftarrow> flush_inbox S cx N; flush_deferred_ops S cx N })" if "goes N M" for M
    by (rule does_from [OF that], intro does_bind announce_endpoint_does flush_inbox_does flush_deferred_does)
  moreover have "goes N (N\<lparr>wn_initialisations := k, wn_state := Some (joined (e_loro ?E) K secret n), wn_namespace := ns, wn_bootstrap := b\<rparr>)"
    if "controller_join (e_beekem ?E) (e_crypto ?E) tree signer sk log certs rng = Inr K" for K k n ns b tree signer sk rng
    by (rule born_goes [OF True]) (use controller_initial.intros(2) [OF that] in \<open>auto simp: born_def same_self_def\<close>)
  ultimately show ?thesis
    by (auto simp: on_welcome_def Let_def does_Some split: option.split sum.split)
qed (simp add: on_welcome_def does_Some)

section \<open>Callbacks\<close>

lemma apply_msg_does:
  assumes "\<And>m sk user to namespace log certs secret. msg' = Hello m sk user \<Longrightarrow> fine (OutSend to (Welcome m namespace log certs secret))"
  shows "does N (apply_msg S cx from' msg' N)"
proof -
  have "goes N (on_stolen_welcome from' namespace N)" for namespace
    by (auto simp: on_stolen_welcome_def same_self_def intro!: identity_goes)
  then show ?thesis
    using on_hello_does [of _ N cx from'] assms
    by (cases msg') (auto simp: apply_msg_def does_Some on_welcome_does on_control_does on_entry_does on_segment_goes)
qed

lemma on_msg_does:
  assumes "\<And>m sk user to namespace log certs secret. msg' = Hello m sk user \<Longrightarrow> fine (OutSend to (Welcome m namespace log certs secret))"
  shows "does N (on_msg S cx from' msg' N)"
  unfolding on_msg_def by (intro does_if does_map apply_msg_does save_goes) (simp_all add: does_Some assms)

lemma on_timer_does:
  assumes "\<And>signer sk user. t = TickJoin \<Longrightarrow> wn_signer N = Some signer \<Longrightarrow>
      fine (OutBroadcast (Hello (cc_verifying_key (e_crypto (si_env S)) signer) sk user))"
    and "t = TickJoin \<Longrightarrow> fine (OutTimer TickJoin JOIN_RETRY)"
  shows "does N (on_timer S cx t N)"
  unfolding on_timer_def
  by (cases "t = TickJoin"; intro does_map save_goes) (use join_tick_does [of N cx] apply_timer_does [of t N cx] assms in auto)

lemma on_client_op_does: "does N (map_option fst (on_client_op S cx op token N))"
proof -
  have "map_option fst (map_option (\<lambda>(N, resp). (save S N, OpDone resp)) x) = map_option (save S) (map_option fst x)" for x
    by (cases x) auto
  with does_map [OF apply_op_does save_goes, of N cx op] show ?thesis by (simp add: on_client_op_def does_Some)
qed

lemma first_start_does:
  assumes "wn_state N = None" and "wn_signer N = Some signer" and "cx_me cx = n" and "member_bytes_of S n = cc_verifying_key (e_crypto (si_env S)) signer"
    and "\<And>sk user d. joiner S n \<Longrightarrow> fine (OutBroadcast (Hello (member_bytes_of S n) sk user)) \<and> fine (OutTimer TickJoin d)"
  shows "does N (first_start S cx signer N)"
proof -
  let ?E = "si_env S"
  have founded: "does N (map_option (save S) (announce_endpoint S cx (N\<lparr>wn_state := Some W, wn_initialisations := k\<rparr>)))"
    if "controller_create (e_beekem ?E) (e_crypto ?E) tree signer' rng = Inr K" "found ?E K secret threshold = Inr W" for tree signer' rng K secret threshold W k
  proof (intro does_map save_goes does_from [OF _ announce_endpoint_does] born_goes [OF assms(1)])
    show "born ?E W" using controller_initial.intros(1) [OF that(1)] that(2) by (auto simp: born_def)
  qed (simp_all add: same_self_def)
  let ?N = "N\<lparr>wn_bootstrap := bs_insert (inviter S N) (wn_bootstrap N)\<rparr>"
  have seeded: "goes N ?N" by (rule identity_goes) (simp_all add: same_self_def)
  have "does N (Some (if sc_stagger_join (si_scenario S) then emit (OutTimer TickJoin d) ?N
      else emit (OutTimer TickJoin d') (send_hello S ?N)))" if "joiner S n" for d d'
  proof -
    have "goes ?N (send_hello S ?N)" by (rule send_hello_goes) (use assms that in auto)
    then have "goes N (emit (OutTimer TickJoin d') (send_hello S ?N))"
      using assms(5) [OF that] by (blast intro: goes_trans seeded emit_goes)
    moreover have "goes N (emit (OutTimer TickJoin d) ?N)"
      using assms(5) [OF that] by (blast intro: goes_trans seeded emit_goes)
    ultimately show ?thesis by (simp add: does_Some)
  qed
  then show ?thesis
    using founded assms(3) by (auto simp: first_start_def Let_def joiner_def does_Some split: sum.split)
qed

text \<open>Starting: from a node that has taken up its identity and counts as started.\<close>

lemma on_start_from:
  assumes "cx_me cx = n" and "wn_started N \<or> wn_state N = None"
    and "\<And>sk user d. joiner S n \<Longrightarrow> fine (OutBroadcast (Hello (member_bytes_of S n) sk user)) \<and> fine (OutTimer TickJoin d)"
  obtains M where "same_self S n N M" and "wn_refused M = wn_refused N" and "wn_started M" and "does M (on_start S cx N)"
proof -
  define M where "M = N\<lparr>wn_me := cx_me cx, wn_signer := Some (signer_of S (cx_me cx) 0xA1),
      wn_share_secret := Some (snd (bk_gen_share_secret (e_beekem (si_env S)) (node_rng S (cx_me cx) 0xB2))),
      wn_repair_sent := cooldown_new SIM_REPAIR_COOLDOWN, wn_repair_answers := cooldown_new REPAIR_ANSWER_COOLDOWN\<rparr>"
  have started: "M\<lparr>wn_started := True\<rparr> = M" if "wn_started N" using that by (simp add: M_def)
  have "does (M\<lparr>wn_started := True\<rparr>) (first_start S cx (signer_of S (cx_me cx) 0xA1) (M\<lparr>wn_started := True\<rparr>))" if "wn_state N = None"
    by (rule first_start_does) (use that assms(1,3) in \<open>simp_all add: M_def member_bytes_of_def\<close>)
  note first = does_map [OF this arm_timers_goes]
  have "goes M (arm_timers S cx (reboot S M))" by (rule goes_trans [OF reboot_goes arm_timers_goes])
  note again = does_Some [OF this]
  have "does (M\<lparr>wn_started := True\<rparr>) (on_start S cx N)"
  proof (cases "wn_started N")
    case True
    then have "on_start S cx N = Some (arm_timers S cx (reboot S M))" by (simp add: on_start_def Let_def M_def)
    with again started [OF True] show ?thesis by simp
  next
    case False
    then have "on_start S cx N = map_option (arm_timers S cx)
        (first_start S cx (signer_of S (cx_me cx) 0xA1) (M\<lparr>wn_started := True\<rparr>))" by (simp add: on_start_def Let_def M_def)
    with first False assms(2) show ?thesis by simp
  qed
  then show thesis by (intro that [of "M\<lparr>wn_started := True\<rparr>"]) (simp_all add: M_def same_self_def assms(1))
qed

lemma on_start_does:
  assumes "cx_me cx = n" and "wn_started N \<or> wn_state N = None"
    and "\<And>sk user d. joiner S n \<Longrightarrow> fine (OutBroadcast (Hello (member_bytes_of S n) sk user)) \<and> fine (OutTimer TickJoin d)"
  shows "does N (on_start S cx N)"
  using on_start_from [OF assms] by (metis does_from identity_goes)

end

end
