(* ===== verification/Sim_Network.thy ===== *)
theory Sim_Network
  imports Sim_Relations
begin

text \<open>
  A simulated network: nodes that are started (again and again), timers that fire, messages that arrive in any
  order, any number of times or never, clients that invoke operations. The scheduler is not part of this
  repository, so nothing is assumed of it: \<open>net_step\<close> allows every schedule. What holds in every network so
  reached is derived from one interpretation of the contract of \<open>Sim_Relations\<close>.
\<close>

section \<open>The network\<close>

record ('c, 'r, 'd) network =
  nw_nodes :: "node_id \<Rightarrow> ('c, 'r, 'd) ws_node"
  nw_sent :: "(node_id \<times> sim_output) set"

text \<open>What a node asked for may bring a message to node \<open>n\<close>.\<close>

fun carries :: "sim_output \<Rightarrow> node_id \<Rightarrow> msg \<Rightarrow> bool" where
  "carries (OutBroadcast m) n m' = (m' = m)"
| "carries (OutSend to m) n m' = (to = n \<and> m' = m)"
| "carries _ n m' = False"

text \<open>After a callback the node's requests are the network's.\<close>

definition settle :: "node_id \<Rightarrow> ('c, 'r, 'd) ws_node \<Rightarrow> ('c, 'r, 'd) network \<Rightarrow> ('c, 'r, 'd) network" where
  "settle n M V = \<lparr>nw_nodes = (nw_nodes V)(n := M\<lparr>wn_out := []\<rparr>), nw_sent = nw_sent V \<union> Pair n ` set (wn_out M)\<rparr>"

definition network_initial :: "('c, 'r, 'd) network" where
  "network_initial = \<lparr>nw_nodes = (\<lambda>_. node_default), nw_sent = {}\<rparr>"

inductive net_step :: "('c, 'r, 'd, 'h) sim \<Rightarrow> ('c, 'r, 'd) network \<Rightarrow> ('c, 'r, 'd) network \<Rightarrow> bool" for S where
  start: "cx_me cx = n \<Longrightarrow> on_start S cx (nw_nodes V n) = Some M \<Longrightarrow> net_step S V (settle n M V)"
| deliver: "cx_me cx = n \<Longrightarrow> wn_started (nw_nodes V n) \<Longrightarrow> (from', o') \<in> nw_sent V \<Longrightarrow> carries o' n m
    \<Longrightarrow> on_msg S cx from' m (nw_nodes V n) = Some M \<Longrightarrow> net_step S V (settle n M V)"
| fire: "cx_me cx = n \<Longrightarrow> wn_started (nw_nodes V n) \<Longrightarrow> (n, OutTimer t delay) \<in> nw_sent V
    \<Longrightarrow> on_timer S cx t (nw_nodes V n) = Some M \<Longrightarrow> net_step S V (settle n M V)"
| invoke: "cx_me cx = n \<Longrightarrow> wn_started (nw_nodes V n)
    \<Longrightarrow> on_client_op S cx op token (nw_nodes V n) = Some (M, outcome) \<Longrightarrow> net_step S V (settle n M V)"

definition net_reachable :: "('c, 'r, 'd, 'h) sim \<Rightarrow> ('c, 'r, 'd) network \<Rightarrow> bool" where
  "net_reachable S = (net_step S)\<^sup>*\<^sup>* network_initial"

lemma settle_simps [simp]:
  "nw_nodes (settle n M V) k = (if k = n then M\<lparr>wn_out := []\<rparr> else nw_nodes V k)"
  "nw_sent (settle n M V) = nw_sent V \<union> Pair n ` set (wn_out M)"
  by (simp_all add: settle_def)

lemma net_invariant [consumes 1, case_names initial step]:
  assumes "net_reachable S V" and "P network_initial"
    and "\<And>U V. net_reachable S U \<Longrightarrow> P U \<Longrightarrow> net_step S U V \<Longrightarrow> P V"
  shows "P V"
  using assms(1) [unfolded net_reachable_def]
proof (induction rule: rtranclp_induct)
  case (step U V)
  from assms(3) [OF _ step.IH step.hyps(2)] step.hyps(1) show ?case by (simp add: net_reachable_def)
qed (rule assms(2))

section \<open>What a node keeps\<close>

text \<open>Its part in the join handshake: only joiners greet, in their own name, and only joiners are welcomed.\<close>

fun handshake :: "('c, 'r, 'd, 'h) sim \<Rightarrow> node_id \<Rightarrow> sim_output \<Rightarrow> bool" where
  "handshake S n (OutBroadcast (Hello m sk user)) = (joiner S n \<and> m = member_bytes_of S n)"
| "handshake S n (OutSend to (Welcome m namespace log certs secret)) = (\<exists>k. joiner S k \<and> m = member_bytes_of S k)"
| "handshake S n (OutTimer TickJoin d) = joiner S n"
| "handshake S n _ = False"

definition asks :: "(sim_output \<Rightarrow> bool) \<Rightarrow> ('c, 'r, 'd) ws_node \<Rightarrow> ('c, 'r, 'd) ws_node \<Rightarrow> bool" where
  "asks fine N M \<longleftrightarrow> (\<exists>os. wn_out M = wn_out N @ os \<and> (\<forall>o' \<in> set os. ordinary o' \<or> fine o'))"

text \<open>Its identity.\<close>

definition self_ok :: "('c, 'r, 'd, 'h) sim \<Rightarrow> node_id \<Rightarrow> ('c, 'r, 'd) ws_node \<Rightarrow> bool" where
  "self_ok S n N \<longleftrightarrow> wn_signer N \<in> {None, Some (signer_of S n 0xA1)} \<and> (wn_started N \<longrightarrow> wn_me N = n)"

text \<open>Its state is one the core can be in, and its disk holds the checkpoint of such a state.\<close>

definition checkpointed :: "('c, 'r, 'd, 'h) sim \<Rightarrow> bytes \<Rightarrow> bool" where
  "checkpointed S bs \<longleftrightarrow> (\<exists>W W1. workspace_reachable (si_env S) W \<and> sim_export S W = (W1, Inr bs))"

definition node_sound :: "('c, 'r, 'd, 'h) sim \<Rightarrow> ('c, 'r, 'd) ws_node \<Rightarrow> bool" where
  "node_sound S N \<longleftrightarrow> (\<forall>W. wn_state N = Some W \<longrightarrow> workspace_reachable (si_env S) W)
     \<and> (\<forall>d. wn_disk N = Some d \<longrightarrow> checkpointed S (dk_state d))"

text \<open>What the checkpoint format has to give: what is loaded is again a state the core can be in.\<close>

definition loads_reachable :: "('c, 'r, 'd, 'h) sim \<Rightarrow> bool" where
  "loads_reachable S \<longleftrightarrow> (\<forall>bs W. checkpointed S bs \<longrightarrow> sim_import S bs = Inr W \<longrightarrow> workspace_reachable (si_env S) W)"

definition snapshot_codec_faithful :: "('c, 'r, 'd, 'h) sim \<Rightarrow> bool" where
  "snapshot_codec_faithful S \<longleftrightarrow> (\<forall>ss bs. si_encode_snapshot S ss = Some bs \<longrightarrow> si_decode_snapshot S bs = Some ss)"

lemma exportE:
  assumes "sim_export S W = (W1, Inr bs)"
  obtains ss where "workspace_snapshot_of (si_env S) W = (W1, Inr ss)" and "si_encode_snapshot S ss = Some bs"
  using assms by (auto simp: sim_export_def serialized_def split: option.splits elim!: and_then_InrE)

lemma faithful_loads:
  assumes "snapshot_codec_faithful S"
  shows "loads_reachable S"
  unfolding loads_reachable_def checkpointed_def
proof (intro allI impI)
  fix bs V
  assume "\<exists>W W1. workspace_reachable (si_env S) W \<and> sim_export S W = (W1, Inr bs)" and V: "sim_import S bs = Inr V"
  then obtain W W1 ss where W: "workspace_reachable (si_env S) W" "workspace_snapshot_of (si_env S) W = (W1, Inr ss)"
    and "si_encode_snapshot S ss = Some bs"
    by (blast elim: exportE)
  with assms V have "workspace_from_snapshot (si_env S) ss (si_seed S 0) = Inr V"
    by (auto simp: snapshot_codec_faithful_def sim_import_def serialized_def)
  with W show "workspace_reachable (si_env S) V" by (rule workspace_reachable.restarted)
qed

lemma export_moves: "workspace_step (si_env S) W (fst (sim_export S W))"
proof -
  have "fst (sim_export S W) = fst (workspace_snapshot_of (si_env S) W)"
    by (auto simp: sim_export_def and_then_def split: prod.split sum.split)
  then show ?thesis by (simp add: workspace_step.snapshot)
qed

text \<open>What \<open>save\<close> does: nothing before there is a state; then the state is exported and, if that works, on disk.\<close>

lemma save_None: "wn_state N = None \<Longrightarrow> save S N = N"
  by (simp add: save_def on_core_def)

lemma save_Some:
  assumes "wn_state N = Some W"
  shows "save S N = N\<lparr>wn_state := Some (fst (sim_export S W)), wn_disk := (case snd (sim_export S W) of
      Inl _ \<Rightarrow> wn_disk N
    | Inr bs \<Rightarrow> Some \<lparr>dk_state = bs, dk_index = wn_index N, dk_replica = wn_replica N,
        dk_segments = wn_segments N, dk_bootstrap = wn_bootstrap N, dk_contributed = wn_contributed N\<rparr>)\<rparr>"
  using assms by (auto simp: save_def on_core_def split: prod.splits sum.splits)

lemma save_sound: "node_sound S N \<Longrightarrow> node_sound S (save S N)"
proof (cases "wn_state N")
  case (Some W)
  assume N: "node_sound S N"
  then have W: "workspace_reachable (si_env S) W" using Some by (simp add: node_sound_def)
  moreover have "checkpointed S bs" if "snd (sim_export S W) = Inr bs" for bs
    using W that by (auto simp: checkpointed_def) (metis prod.collapse)
  ultimately show ?thesis
    using N workspace_reachable.stepped [OF W export_moves]
    by (auto simp: save_Some [OF Some] node_sound_def split: sum.splits)
qed (simp add: save_None)

lemma reboot_sound: "loads_reachable S \<Longrightarrow> node_sound S N \<Longrightarrow> node_sound S (reboot S N)"
  by (auto simp: node_sound_def reboot_def wipe_def sim_refresh_roster_def loads_reachable_def split: option.split sum.split)

definition keeps_sound :: "('c, 'r, 'd, 'h) sim \<Rightarrow> ('c, 'r, 'd) ws_node \<Rightarrow> ('c, 'r, 'd) ws_node \<Rightarrow> bool" where
  "keeps_sound S N M \<longleftrightarrow> (loads_reachable S \<longrightarrow> node_sound S N \<longrightarrow> node_sound S M)"

text \<open>Whatever they are called with, the callbacks answer and keep a sound node sound.\<close>

interpretation sound: sim_life S "\<lambda>_. True" "keeps_sound S" n for S n
proof
  fix N M L :: "('a, 'b, 'c) ws_node" and W W' o'
  show "keeps_sound S N L" if "keeps_sound S N M" "keeps_sound S M L" using that by (simp add: keeps_sound_def)
  show "keeps_sound S N M" if "essentials M = essentials N"
    using that by (simp add: keeps_sound_def essentials_def node_sound_def)
  show "keeps_sound S N (N\<lparr>wn_state := Some W'\<rparr>)" if "wn_state N = Some W" "workspace_step (si_env S) W W'"
    using that workspace_reachable.stepped by (auto simp: keeps_sound_def node_sound_def)
  show "keeps_sound S N (emit o' N)" by (simp add: keeps_sound_def node_sound_def emit_def)
  show "keeps_sound S N M" if "same_self S n N M" using that by (simp add: keeps_sound_def same_self_def node_sound_def)
  show "keeps_sound S N (N\<lparr>wn_state := Some W\<rparr>)" if "wn_state N = None" "born (si_env S) W"
    using that born_reachable by (auto simp: keeps_sound_def node_sound_def)
  show "keeps_sound S N (save S N)" by (simp add: keeps_sound_def save_sound)
  show "keeps_sound S N (reboot S N)" by (simp add: keeps_sound_def reboot_sound)
qed

text \<open>Its identity and what it asks for, too.\<close>

definition lives :: "('c, 'r, 'd, 'h) sim \<Rightarrow> node_id \<Rightarrow> ('c, 'r, 'd) ws_node \<Rightarrow> ('c, 'r, 'd) ws_node \<Rightarrow> bool" where
  "lives S n N M \<longleftrightarrow> (wn_started N \<longrightarrow> wn_started M) \<and> (self_ok S n N \<longrightarrow> self_ok S n M)
     \<and> asks (handshake S n) N M \<and> keeps_sound S N M"

lemma asks_same: "wn_out M = wn_out N \<Longrightarrow> asks fine N M"
  by (simp add: asks_def)

lemma asks_trans: "asks fine N M \<Longrightarrow> asks fine M L \<Longrightarrow> asks fine N L"
  by (auto simp: asks_def)

lemma save_parts: "wn_out (save S N) = wn_out N" "wn_started (save S N) = wn_started N" "self_ok S' n (save S N) = self_ok S' n N"
  by (cases "wn_state N"; simp add: save_None save_Some self_ok_def)+

lemma reboot_parts: "wn_out (reboot S N) = wn_out N" "wn_started (reboot S N) = wn_started N" "self_ok S' n (reboot S N) = self_ok S' n N"
  by (auto simp: reboot_def wipe_def sim_refresh_roster_def self_ok_def split: option.split sum.split)

interpretation life: sim_life S "handshake S n" "lives S n" n for S n
proof
  fix N M L :: "('a, 'b, 'c) ws_node" and W W' o'
  show "lives S n N L" if "lives S n N M" "lives S n M L"
    using that asks_trans [of "handshake S n" N M L] sound.trans [of S N M L] by (simp add: lives_def)
  show "lives S n N M" if "essentials M = essentials N"
    using that sound.frame [OF that] by (auto simp: lives_def essentials_def self_ok_def asks_same)
  show "lives S n N (N\<lparr>wn_state := Some W'\<rparr>)" if "wn_state N = Some W" "workspace_step (si_env S) W W'"
    using sound.core [OF that] by (simp add: lives_def self_ok_def asks_same)
  show "lives S n N (emit o' N)" if "ordinary o' \<or> handshake S n o'"
    using that sound.out [of o'] by (auto simp: lives_def self_ok_def asks_def emit_def)
  show "lives S n N M" if "same_self S n N M"
    using that sound.identity [OF that] by (auto simp: lives_def same_self_def self_ok_def asks_same)
  show "lives S n N (N\<lparr>wn_state := Some W\<rparr>)" if "wn_state N = None" "born (si_env S) W"
    using sound.birth [OF that] by (simp add: lives_def self_ok_def asks_same)
  show "lives S n N (save S N)"
    using sound.saved [of S N] by (simp add: lives_def save_parts asks_same)
  show "lives S n N (reboot S N)"
    using sound.rebooted [of S N] by (simp add: lives_def reboot_parts asks_same)
qed

section \<open>What the network keeps\<close>

definition node_ok :: "('c, 'r, 'd, 'h) sim \<Rightarrow> node_id \<Rightarrow> ('c, 'r, 'd) ws_node \<Rightarrow> bool" where
  "node_ok S n N \<longleftrightarrow> refused_ok S N \<and> (wn_started N \<or> wn_state N = None) \<and> self_ok S n N
     \<and> (loads_reachable S \<longrightarrow> node_sound S N) \<and> wn_out N = []"

definition sent_ok :: "('c, 'r, 'd, 'h) sim \<Rightarrow> (node_id \<times> sim_output) set \<Rightarrow> bool" where
  "sent_ok S os \<longleftrightarrow> (\<forall>(n, o') \<in> os. ordinary o' \<or> handshake S n o')"

definition network_ok :: "('c, 'r, 'd, 'h) sim \<Rightarrow> ('c, 'r, 'd) network \<Rightarrow> bool" where
  "network_ok S V \<longleftrightarrow> (\<forall>n. node_ok S n (nw_nodes V n)) \<and> sent_ok S (nw_sent V)"

lemma does_started:
  assumes "sim_relation.does S (lives S n) N x" and "x = Some M" and "node_ok S n N" and "wn_started N"
  shows "lives S n N M \<and> refused_ok S M \<and> wn_started M"
  using assms by (auto simp: life.does_def node_ok_def lives_def)

lemma start_lives:
  assumes "node_ok S n N" and "cx_me cx = n" and "on_start S cx N = Some M"
  shows "lives S n N M \<and> refused_ok S M \<and> wn_started M"
proof -
  have "wn_started N \<or> wn_state N = None" using assms(1) by (simp add: node_ok_def)
  from life.on_start_from [OF assms(2) this, of S] obtain N' where N': "same_self S n N N'" "wn_refused N' = wn_refused N"
    "wn_started N'" "sim_relation.does S (lives S n) N' (on_start S cx N)"
    by (auto simp del: split_paired_All)
  from N'(2) have "refused_ok S N'" using assms(1) by (simp add: node_ok_def refused_ok_def)
  with N'(4) assms(3) have "lives S n N' M" "refused_ok S M" by (auto simp: life.does_def)
  moreover have "lives S n N N'" using N'(1) by (rule life.identity)
  ultimately show ?thesis using N'(3) life.trans [of S n N N' M] by (simp add: lives_def [of S n N' M])
qed

lemma deliver_lives:
  assumes "node_ok S n N" and "wn_started N" and "sent_ok S os" and "(from', o') \<in> os" and "carries o' n m"
    and "on_msg S cx from' m N = Some M"
  shows "lives S n N M \<and> refused_ok S M \<and> wn_started M"
proof (rule does_started [OF life.on_msg_does assms(6,1,2)])
  fix member sk user to namespace log certs secret
  assume "m = Hello member sk user"
  with assms(5) have "o' = OutBroadcast (Hello member sk user) \<or> o' = OutSend n (Hello member sk user)"
    by (cases o') auto
  moreover have "ordinary o' \<or> handshake S from' o'" using assms(3,4) by (auto simp: sent_ok_def)
  ultimately show "handshake S n (OutSend to (Welcome member namespace log certs secret))" by auto
qed

lemma fire_lives:
  assumes "node_ok S n N" and "wn_started N" and "sent_ok S os" and "(n, OutTimer t delay) \<in> os"
    and "on_timer S cx t N = Some M"
  shows "lives S n N M \<and> refused_ok S M \<and> wn_started M"
proof (rule does_started [OF life.on_timer_does assms(5,1,2)])
  have join: "joiner S n" if "t = TickJoin" using assms(3,4) that by (auto simp: sent_ok_def)
  show "handshake S n (OutTimer TickJoin JOIN_RETRY)" if "t = TickJoin" using join that by simp
  show "handshake S n (OutBroadcast (Hello (cc_verifying_key (e_crypto (si_env S)) signer) sk user))"
    if "t = TickJoin" "wn_signer N = Some signer" for signer sk user
    using join that assms(1) by (auto simp: node_ok_def self_ok_def member_bytes_of_def)
qed

lemma invoke_lives:
  assumes "node_ok S n N" and "wn_started N" and "on_client_op S cx op token N = Some (M, outcome)"
  shows "lives S n N M \<and> refused_ok S M \<and> wn_started M"
  by (rule does_started [OF life.on_client_op_does [where cx = cx and op = op and token = token] _ assms(1,2)]) (simp add: assms(3))

text \<open>Every callback of the network, with what it is called on.\<close>

lemma net_step_lives:
  assumes "net_step S U V" and "network_ok S U"
  obtains n M where "V = settle n M U" and "lives S n (nw_nodes U n) M" and "refused_ok S M" and "wn_started M"
proof -
  have ok: "node_ok S n (nw_nodes U n)" "sent_ok S (nw_sent U)" for n using assms(2) by (simp_all add: network_ok_def)
  from assms(1) show thesis
  proof cases
    case (start cx n M)
    from that [OF start(1)] start_lives [OF ok(1) start(2,3)] show thesis by blast
  next
    case (deliver cx n from' o' m M)
    from that [OF deliver(1)] deliver_lives [OF ok(1) deliver(3) ok(2) deliver(4-6)] show thesis by blast
  next
    case (fire cx n t delay M)
    from that [OF fire(1)] fire_lives [OF ok(1) fire(3) ok(2) fire(4,5)] show thesis by blast
  next
    case (invoke cx n op token M outcome)
    from that [OF invoke(1)] invoke_lives [OF ok(1) invoke(3,4)] show thesis by blast
  qed
qed

lemma reachable_network_ok: "net_reachable S V \<Longrightarrow> network_ok S V"
proof (induction rule: net_invariant)
  case initial
  show ?case
    by (simp add: network_ok_def network_initial_def node_ok_def node_default_def refused_ok_def self_ok_def node_sound_def sent_ok_def)
next
  case (step U V)
  then obtain n M where V: "V = settle n M U" and M: "lives S n (nw_nodes U n) M" "refused_ok S M" "wn_started M"
    by (blast elim: net_step_lives)
  have n: "node_ok S n (nw_nodes U n)" using step.IH by (simp add: network_ok_def)
  then have "node_ok S n (M\<lparr>wn_out := []\<rparr>)"
    using M by (auto simp: node_ok_def lives_def keeps_sound_def refused_ok_def self_ok_def node_sound_def)
  moreover have "sent_ok S (Pair n ` set (wn_out M))"
    using M(1) n by (auto simp: lives_def asks_def node_ok_def sent_ok_def)
  ultimately show ?case using step.IH by (auto simp: V network_ok_def sent_ok_def)
qed

end
