(* ===== verification/Sim_Outsiders.thy ===== *)
theory Sim_Outsiders
  imports Sim_Network
begin

text \<open>
  Whoever is not invited learns nothing. A node without a state asks the core nothing, so no timer and no client
  changes what it holds; what is left is what messages bring: nothing to an outsider, whom no one welcomes and
  who admits no one, and only ciphertext to the thief of an invitation, who cannot use it.
\<close>

section \<open>Nodes without a state\<close>

definition holdings where
  "holdings N = (wn_state N, wn_disk N, wn_index N, wn_replica N, wn_segments N, wn_asset_view N, wn_contributed N, wn_bootstrap N,
     wn_roster N, wn_inbox N, wn_observed_ops N, wn_stolen_invite N)"

named_theorems stateless

lemma holdings_emit [stateless]: "holdings (emit o' N) = holdings N" "holdings (set_timer t d b N) = holdings N"
  "wn_state (emit o' N) = wn_state N"
  by (simp_all add: holdings_def emit_def set_timer_def)

lemma holdings_counters [stateless]:
  "holdings (N\<lparr>wn_resyncs_done := k\<rparr>) = holdings N" "holdings (N\<lparr>wn_rotations_done := k\<rparr>) = holdings N"
  "holdings (N\<lparr>wn_overreaches_made := k\<rparr>) = holdings N" "holdings (N\<lparr>wn_forgeries_made := k\<rparr>) = holdings N"
  "holdings (N\<lparr>wn_left := b\<rparr>) = holdings N" "holdings (N\<lparr>wn_refused_messages := n\<rparr>) = holdings N"
  "holdings (N\<lparr>wn_deferred_ops := ops\<rparr>) = holdings N"
  "holdings (reconcile N) = holdings N" "wn_state (reconcile N) = wn_state N"
  by (simp_all add: holdings_def reconcile_def)

lemma stateless_calls [stateless]:
  assumes "wn_state N = None"
  shows "on_core f N = (N, None)" "call_core S cx p seed salt g N = Some N" "sim_drive S cx p ev salt N = Some N"
    "sim_send_log S N = N" "overreach S cx N = N" "attach_asset S cx N = Some N" "save S N = N" "node_proposals N = []"
    "of_state x h N = x"
  using assms by (simp_all add: on_core_def call_core_def sim_drive_def sim_send_log_def overreach_def attach_asset_def save_def
      node_proposals_def of_state_def)

lemma stateless_drive_each [stateless]: "wn_state N = None \<Longrightarrow> drive_each S cx p evs N = Some N"
  by (induction evs) (auto simp: stateless)

lemma stateless_forge [stateless]: "holdings (forge S N) = holdings N"
  by (auto simp: forge_def forge_entry_def Let_def stateless split: option.split)

lemma stateless_hello [stateless]: "holdings (send_hello S N) = holdings N"
  by (auto simp: send_hello_def stateless split: option.split)

lemma stateless_arm [stateless]: "holdings (arm_timers S cx N) = holdings N"
  by (simp add: arm_timers_def Let_def stateless)

lemma stateless_resync [stateless]:
  assumes "wn_state N = None"
  shows "\<exists>M. resync_tick S cx N = Some M \<and> holdings M = holdings N"
  unfolding resync_tick_def Let_def by (simp add: stateless assms)

lemma stateless_quorum [stateless]:
  assumes "wn_state N = None"
  shows "\<exists>M. apply_quorum_timer S cx t N = Some M \<and> holdings M = holdings N"
  using assms
  by (cases t) (simp_all add: stateless propose_and_approve_def proposal_digests_def bs_of_def Let_def split: option.split)

lemma stateless_timer:
  assumes "wn_state N = None"
  shows "\<exists>M. apply_timer S cx t N = Some M \<and> holdings M = holdings N"
  by (cases t) (use stateless_quorum [OF assms, of S cx] in
      \<open>simp_all add: assms stateless edit_tick_def write_after_revocation_def Let_def del: apply_quorum_timer.simps split: option.split\<close>)

section \<open>Whoever is not invited\<close>

definition untouched :: "('c, 'r, 'd) ws_node \<Rightarrow> bool" where
  "untouched N \<longleftrightarrow> holdings N = (None, None, [], [], [], None, [], [], [], [], 0, False)"

definition fenced :: "('c, 'r, 'd) ws_node \<Rightarrow> bool" where
  "fenced N \<longleftrightarrow> wn_state N = None \<and> wn_disk N = None \<and> wn_segments N = [] \<and> wn_asset_view N = None \<and> wn_contributed N = []
     \<and> wn_roster N = [] \<and> (\<not> wn_stolen_invite N \<longrightarrow> untouched N)"

text \<open>Not the founder, not a joiner; and nobody who joins goes by this node's name, unless it takes invitations anyway.\<close>

definition uninvited :: "('c, 'r, 'd, 'h) sim \<Rightarrow> node_id \<Rightarrow> bool" where
  "uninvited S n \<longleftrightarrow> n \<noteq> FOUNDER \<and> \<not> joiner S n
     \<and> (sc_invite_thief (si_scenario S) = Some n \<or> (\<forall>k. joiner S k \<longrightarrow> member_bytes_of S k \<noteq> member_bytes_of S n))"

text \<open>What one callback leaves of such a node: fenced, and no more of a thief than its scenario says.\<close>

definition stays_out :: "('c, 'r, 'd, 'h) sim \<Rightarrow> node_id \<Rightarrow> ('c, 'r, 'd) ws_node \<Rightarrow> ('c, 'r, 'd) ws_node \<Rightarrow> bool" where
  "stays_out S n N M \<longleftrightarrow> fenced M \<and> (wn_stolen_invite M \<longrightarrow> wn_stolen_invite N \<or> sc_invite_thief (si_scenario S) = Some n)"

lemma fenced_holdings: "holdings M = holdings N \<Longrightarrow> fenced N \<Longrightarrow> stays_out S n N M"
  by (auto simp: stays_out_def fenced_def untouched_def holdings_def)

lemma fenced_same: "fenced N \<Longrightarrow> stays_out S n N N"
  by (rule fenced_holdings) simp

lemma out_timer:
  assumes "fenced N" and "on_timer S cx t N = Some M"
  shows "stays_out S n N M"
proof -
  have "wn_state N = None" using assms(1) by (simp add: fenced_def)
  from stateless_timer [OF this, of S cx t] obtain L where L: "apply_timer S cx t N = Some L" "holdings L = holdings N" by blast
  moreover from L(2) have "wn_state L = None" using \<open>wn_state N = None\<close> by (simp add: holdings_def)
  ultimately show ?thesis using assms fenced_holdings [of L N] by (simp add: on_timer_def stateless)
qed

lemma out_client: "fenced N \<Longrightarrow> on_client_op S cx op token N = Some (M, outcome) \<Longrightarrow> stays_out S n N M"
  by (rule fenced_holdings) (auto simp: on_client_op_def fenced_def stateless)

lemma out_start:
  assumes "uninvited S n" and "cx_me cx = n" and "fenced N" and "on_start S cx N = Some M"
  shows "stays_out S n N M"
proof -
  define N1 where "N1 = N\<lparr>wn_me := cx_me cx, wn_signer := Some (signer_of S (cx_me cx) 0xA1),
      wn_share_secret := Some (snd (bk_gen_share_secret (e_beekem (si_env S)) (node_rng S (cx_me cx) 0xB2))),
      wn_repair_sent := cooldown_new SIM_REPAIR_COOLDOWN, wn_repair_answers := cooldown_new REPAIR_ANSWER_COOLDOWN\<rparr>"
  have N1: "holdings N1 = holdings N" by (simp add: N1_def holdings_def)
  show ?thesis
  proof (cases "wn_started N")
    case True
    then have "M = arm_timers S cx (reboot S N1)" using assms(4) by (simp add: on_start_def Let_def N1_def)
    moreover have "stays_out S n N (wipe N1)"
      using assms(3) N1 by (auto simp: stays_out_def fenced_def untouched_def holdings_def wipe_def)
    moreover have "reboot S N1 = wipe N1" using assms(3) by (simp add: reboot_def N1_def fenced_def)
    ultimately show ?thesis
      using stateless_arm [of S cx "wipe N1"] by (auto simp: stays_out_def fenced_def untouched_def holdings_def)
  next
    case False
    have "first_start S cx signer L = Some L" for signer and L :: "('a, 'b, 'c) ws_node"
      using assms(1,2) by (auto simp: first_start_def uninvited_def joiner_def Let_def)
    with False assms(4) have "M = arm_timers S cx (N1\<lparr>wn_started := True\<rparr>)" by (simp add: on_start_def Let_def N1_def)
    then have "holdings M = holdings N" using N1 by (simp add: stateless) (simp add: holdings_def)
    then show ?thesis using assms(3) by (rule fenced_holdings)
  qed
qed

text \<open>Messages: \<open>invitee\<close> is a joiner in every welcome that is under way.\<close>

lemma out_welcome:
  assumes "uninvited S n" and "node_ok S n N" and "wn_started N" and "fenced N" and "joiner S k"
  shows "\<exists>M. apply_msg S cx from' (Welcome (member_bytes_of S k) namespace log certs secret) N = Some M \<and> stays_out S n N M"
proof (cases "is_invite_thief S N")
  case True
  then have "sc_invite_thief (si_scenario S) = Some n" using assms(2,3) by (simp add: is_invite_thief_def node_ok_def self_ok_def)
  then have "stays_out S n N (on_stolen_welcome from' namespace N)"
    using assms(4) by (auto simp: on_stolen_welcome_def stays_out_def fenced_def)
  with True show ?thesis by (simp add: apply_msg_def)
next
  case False
  then have "member_bytes_of S k \<noteq> member_bytes_of S n"
    using assms(1-3,5) by (auto simp: is_invite_thief_def node_ok_def self_ok_def uninvited_def)
  then have "on_welcome S cx from' (member_bytes_of S k) namespace log certs secret N = Some N"
    using assms(2) by (auto simp: on_welcome_def Let_def node_ok_def self_ok_def member_bytes_of_def split: option.splits)
  with False fenced_same [OF assms(4)] show ?thesis by (simp add: apply_msg_def)
qed

lemma out_other:
  assumes "n \<noteq> FOUNDER" and "cx_me cx = n" and "fenced N" and "sim_admits from' m N"
    and "\<And>invitee namespace log certs secret. m \<noteq> Welcome invitee namespace log certs secret"
  shows "\<exists>M. apply_msg S cx from' m N = Some M \<and> stays_out S n N M"
proof (cases m)
  case (Hello member sk user)
  have "\<not> answers_hello cx user N" using assms(1-3) by (simp add: answers_hello_def fenced_def stateless split: option.split)
  with fenced_same [OF assms(3)] show ?thesis by (simp add: Hello apply_msg_def on_hello_def)
qed (use assms(3-5) in \<open>auto simp: apply_msg_def is_on_roster_def fenced_def untouched_def holdings_def stays_out_def observe_def\<close>)

lemma out_msg:
  assumes "uninvited S n" and "cx_me cx = n" and "node_ok S n N" and "wn_started N" and "fenced N"
    and "sent_ok S os" and "(from', o') \<in> os" and "carries o' n m" and "on_msg S cx from' m N = Some M"
  shows "stays_out S n N M"
proof (cases "sim_admits from' m N")
  case True
  have "\<exists>L. apply_msg S cx from' m N = Some L \<and> stays_out S n N L"
  proof (cases "\<exists>invitee namespace log certs secret. m = Welcome invitee namespace log certs secret")
    case True
    then obtain invitee namespace log certs secret where m: "m = Welcome invitee namespace log certs secret" by blast
    have "ordinary o' \<or> handshake S from' o'" using assms(6,7) by (auto simp: sent_ok_def)
    with m assms(8) obtain k where "joiner S k" "invitee = member_bytes_of S k" by (cases o') auto
    with out_welcome [OF assms(1,3-5)] show ?thesis by (simp add: m)
  next
    case False
    with out_other [OF _ assms(2,5) True] assms(1) show ?thesis by (simp add: uninvited_def)
  qed
  with True assms(9) show ?thesis by (auto simp: on_msg_def stays_out_def fenced_def stateless)
next
  case False
  with assms(9) have "holdings M = holdings N" by (auto simp: on_msg_def stateless)
  then show ?thesis using assms(5) by (rule fenced_holdings)
qed

lemma uninvited_stays_out:
  assumes "net_reachable S V" and "uninvited S n"
  shows "fenced (nw_nodes V n) \<and> (wn_stolen_invite (nw_nodes V n) \<longrightarrow> sc_invite_thief (si_scenario S) = Some n)"
  using assms(1)
proof (induction rule: net_invariant)
  case initial
  show ?case by (simp add: network_initial_def fenced_def untouched_def holdings_def node_default_def)
next
  case (step U V)
  let ?N = "nw_nodes U n"
  have ok: "node_ok S n ?N" "sent_ok S (nw_sent U)" using reachable_network_ok [OF step.hyps(1)] by (simp_all add: network_ok_def)
  have N: "fenced ?N" using step.IH by blast
  from step.hyps(2) obtain k M where V: "V = settle k M U" and "k = n \<longrightarrow> stays_out S n ?N M"
    by cases (use out_start [OF assms(2) _ N] out_msg [OF assms(2) _ ok(1) _ N ok(2)] out_timer [OF N, of S _ _ _ n]
        out_client [OF N, of S _ _ _ _ _ n] in metis)+
  with step.IH show ?case by (auto simp: stays_out_def fenced_def untouched_def holdings_def)
qed

section \<open>Properties\<close>

text \<open>
  C24. Greetings are honest and so are welcomes: in every network the simulator reaches, a node that greets the
  others is one that is meant to join and names its own member id, and every welcome is made out to the member id
  of such a node, whatever the insider, the forger or the thief of the scenario sent.
\<close>

theorem only_joiners_welcomed:
  assumes "net_reachable S V" and "(from', o') \<in> nw_sent V"
  shows "(\<forall>m sk user. o' = OutBroadcast (Hello m sk user) \<longrightarrow> joiner S from' \<and> m = member_bytes_of S from')
    \<and> (\<forall>to m namespace log certs secret. o' = OutSend to (Welcome m namespace log certs secret)
         \<longrightarrow> (\<exists>k. joiner S k \<and> m = member_bytes_of S k))"
proof -
  have "ordinary o' \<or> handshake S from' o'"
    using reachable_network_ok [OF assms(1)] assms(2) by (auto simp: network_ok_def sent_ok_def)
  then show ?thesis by auto
qed

text \<open>
  C8. An outsider sees nothing: in every network the simulator reaches, a node that asks nobody to join holds no
  entry, no payload, no segment and no pending message, has observed no membership operation, and reads no
  document and no asset, provided nobody who joins goes by its member id.
\<close>

theorem outsider_sees_nothing:
  assumes "net_reachable S V" and "sc_outsider (si_scenario S) = Some n" and "n \<noteq> FOUNDER"
    and "sc_invite_thief (si_scenario S) \<noteq> Some n" and "\<forall>k. joiner S k \<longrightarrow> member_bytes_of S k \<noteq> member_bytes_of S n"
  shows "\<not> has_joined (nw_nodes V n) \<and> wn_index (nw_nodes V n) = [] \<and> wn_replica (nw_nodes V n) = []
    \<and> wn_segments (nw_nodes V n) = [] \<and> wn_inbox (nw_nodes V n) = [] \<and> wn_observed_ops (nw_nodes V n) = 0
    \<and> wn_asset_view (nw_nodes V n) = None \<and> document_text_of S doc (nw_nodes V n) = ''''"
proof -
  have "uninvited S n" using assms(2-5) by (simp add: uninvited_def joiner_def)
  from uninvited_stays_out [OF assms(1) this] assms(4) have N: "fenced (nw_nodes V n)" "untouched (nw_nodes V n)"
    by (auto simp: fenced_def)
  then show ?thesis by (simp add: fenced_def untouched_def holdings_def has_joined_def document_text_of_def of_state_def)
qed

text \<open>
  C11. A stolen invitation is of no use: in every network the simulator reaches, the node that is sent a copy of
  every welcome never comes to a state, keeps nothing on its disk, and reads no document and no asset; until the
  theft it holds no entry either.
\<close>

theorem thief_reads_nothing:
  assumes "net_reachable S V" and "sc_invite_thief (si_scenario S) = Some n" and "n \<noteq> FOUNDER"
  shows "\<not> has_joined (nw_nodes V n) \<and> wn_disk (nw_nodes V n) = None \<and> wn_asset_view (nw_nodes V n) = None
    \<and> read_asset S (nw_nodes V n) = (nw_nodes V n, None) \<and> document_text_of S doc (nw_nodes V n) = ''''
    \<and> (\<not> wn_stolen_invite (nw_nodes V n) \<longrightarrow> wn_index (nw_nodes V n) = [] \<and> wn_replica (nw_nodes V n) = [])"
proof -
  have "uninvited S n" using assms(2,3) by (simp add: uninvited_def joiner_def)
  from uninvited_stays_out [OF assms(1) this] show ?thesis
    by (simp add: fenced_def untouched_def holdings_def has_joined_def document_text_of_def of_state_def read_asset_def Let_def)
qed

end
