(* ===== verification/Sim_Properties.thy ===== *)
theory Sim_Properties
  imports Sim_Outsiders Networked_Properties
begin

text \<open>
  What holds in every network the simulator can reach, whatever the schedule: nodes run the core and never get
  stuck, a node comes to a state once, whoever is not invited learns nothing, and what was acknowledged survives
  a crash.
\<close>

section \<open>Nodes run the core\<close>

text \<open>
  C3. The simulator runs the core: in every network it reaches, under any schedule of starts, crashes,
  deliveries, timers and client operations, the state of a node is one the core can reach, and what its disk
  gives back after a crash is too.
\<close>

theorem simulation_refines_core:
  assumes "net_reachable S V" and "snapshot_codec_faithful S" and "wn_state (nw_nodes V n) = Some W"
  shows "workspace_reachable (si_env S) W
    \<and> (\<forall>d W'. wn_disk (nw_nodes V n) = Some d \<longrightarrow> sim_import S (dk_state d) = Inr W' \<longrightarrow> workspace_reachable (si_env S) W')"
proof -
  note loads = faithful_loads [OF assms(2)]
  with reachable_network_ok [OF assms(1)] have "node_sound S (nw_nodes V n)" by (simp add: network_ok_def node_ok_def)
  with loads assms(3) show ?thesis by (auto simp: node_sound_def loads_reachable_def)
qed

text \<open>
  C29. No callback gets stuck: in every network the simulator reaches, starting a node, a message from anyone, any
  timer and any client operation are answered; the recursion of the effect pump never runs out.
\<close>

theorem simulation_never_stuck:
  assumes "net_reachable S V" and "cx_me cx = n"
  shows "on_start S cx (nw_nodes V n) \<noteq> None \<and> on_msg S cx from' m (nw_nodes V n) \<noteq> None
    \<and> on_timer S cx t (nw_nodes V n) \<noteq> None \<and> on_client_op S cx op token (nw_nodes V n) \<noteq> None"
proof -
  let ?N = "nw_nodes V n"
  have ok: "refused_ok S ?N" "wn_started ?N \<or> wn_state ?N = None"
    using reachable_network_ok [OF assms(1)] by (simp_all add: network_ok_def node_ok_def)
  have answers: "x \<noteq> None" if "sim_relation.does S (keeps_sound S) ?N x" for x
    using that ok(1) by (auto simp: sound.does_def)
  from answers [OF sound.on_start_does [OF assms(2) ok(2)]] answers [OF sound.on_msg_does]
    answers [OF sound.on_timer_does] answers [OF sound.on_client_op_does]
  show ?thesis by simp
qed

section \<open>Coming to a state\<close>

text \<open>What handlers change of a node's standing: nothing, apart from founding, joining, saving and crashing.\<close>

definition same_standing :: "('c, 'r, 'd) ws_node \<Rightarrow> ('c, 'r, 'd) ws_node \<Rightarrow> bool" where
  "same_standing N M \<longleftrightarrow> (wn_state M = None \<longleftrightarrow> wn_state N = None) \<and> wn_disk M = wn_disk N
     \<and> wn_initialisations M = wn_initialisations N"

interpretation standing: sim_relation S "\<lambda>_. True" same_standing for S
  by unfold_locales (simp_all add: same_standing_def essentials_def emit_def)

text \<open>A handler that leaves the standing alone, or takes a node without a state to one.\<close>

definition enters :: "('c, 'r, 'd) ws_node \<Rightarrow> ('c, 'r, 'd) ws_node \<Rightarrow> bool" where
  "enters N M \<longleftrightarrow> same_standing N M \<or> (wn_state N = None \<and> wn_state M \<noteq> None \<and> wn_disk M = wn_disk N
     \<and> wn_initialisations M = wn_initialisations N + 1)"

lemma standing_does: "sim_relation.does S same_standing N x \<Longrightarrow> refused_ok S N \<Longrightarrow> x = Some M \<Longrightarrow> same_standing N M \<and> refused_ok S M"
  by (simp add: standing.does_def)

lemma on_welcome_enters:
  assumes "on_welcome S cx from' invitee namespace log certs secret N = Some M" and "refused_ok S N"
  shows "enters N M"
proof -
  have "enters N M" if "wn_state N = None"
    and "do { N \<leftarrow> announce_endpoint S cx (N\<lparr>wn_initialisations := wn_initialisations N + 1, wn_state := Some W,
            wn_namespace := namespace, wn_bootstrap := bs_insert from' (wn_bootstrap N)\<rparr>);
          N \<leftarrow> flush_inbox S cx N; flush_deferred_ops S cx N } = Some M" for W
  proof -
    let ?N = "N\<lparr>wn_initialisations := wn_initialisations N + 1, wn_state := Some W,
            wn_namespace := namespace, wn_bootstrap := bs_insert from' (wn_bootstrap N)\<rparr>"
    have "sim_relation.does S same_standing ?N (do { N \<leftarrow> announce_endpoint S cx ?N; N \<leftarrow> flush_inbox S cx N; flush_deferred_ops S cx N })"
      by (intro standing.does_bind standing.announce_endpoint_does standing.flush_inbox_does standing.flush_deferred_does)
    from standing_does [OF this _ that(2)] assms(2) have "same_standing ?N M" by (simp add: refused_ok_def)
    with that(1) show ?thesis by (simp add: enters_def same_standing_def)
  qed
  then show ?thesis
    using assms(1) standing.refl
    by (auto simp: on_welcome_def Let_def enters_def same_standing_def split: if_splits option.splits sum.splits)
qed

lemma apply_msg_enters:
  assumes "apply_msg S cx from' m N = Some M" and "refused_ok S N"
  shows "enters N M"
proof -
  have same: "enters N M" if "sim_relation.does S same_standing N (Some M)"
    using standing_does [OF that assms(2)] by (simp add: enters_def)
  note plain = enters_def same_standing_def observe_def
  show ?thesis
  proof (cases m)
    case (Hello member sk user)
    have "sim_relation.does S same_standing N (on_hello S cx from' member sk user N)" by (rule standing.on_hello_does) simp
    with same assms(1) show ?thesis by (simp add: Hello apply_msg_def)
  next
    case (Welcome invitee namespace log certs secret)
    with assms on_welcome_enters [OF _ assms(2)] show ?thesis
      by (auto simp: apply_msg_def on_stolen_welcome_def plain split: if_splits)
  next
    case (Control c)
    with assms(1) same standing.on_control_does [of S N cx c] show ?thesis by (auto simp: apply_msg_def plain split: if_splits)
  next
    case (Entry namespace key author ch)
    with assms(1) same standing.on_entry_does [of S N cx namespace key author ch 3] show ?thesis
      by (auto simp: apply_msg_def plain split: if_splits)
  next
    case (Segment namespace key author bs)
    with assms(1) same standing.does_Some [OF standing.on_segment_goes, of S N namespace key bs] show ?thesis
      by (auto simp: apply_msg_def plain split: if_splits)
  qed
qed

text \<open>What the checkpoint format has to give besides: a state the core can be in is exported and loads again, to one.\<close>

definition checkpoints_load :: "('c, 'r, 'd, 'h) sim \<Rightarrow> bool" where
  "checkpoints_load S \<longleftrightarrow> (\<forall>W. workspace_reachable (si_env S) W \<longrightarrow> (\<exists>W1 bs V. sim_export S W = (W1, Inr bs)
     \<and> sim_import S bs = Inr V \<and> workspace_reachable (si_env S) V))"

lemma checkpoints_loads: "checkpoints_load S \<Longrightarrow> loads_reachable S"
  unfolding checkpoints_load_def loads_reachable_def checkpointed_def by fastforce

text \<open>A node has a state and a checkpoint, after one initialisation, or neither, after none.\<close>

definition enrolled :: "('c, 'r, 'd) ws_node \<Rightarrow> bool" where
  "enrolled N \<longleftrightarrow> (wn_state N = None \<longleftrightarrow> wn_disk N = None) \<and> wn_initialisations N = (if wn_state N = None then 0 else 1)"

lemma saved_enrolled:
  assumes "enrolled N" and "enters N M" and "checkpoints_load S" and "node_sound S M"
  shows "enrolled (save S M)"
proof (cases "wn_state M")
  case (Some W)
  with assms(3,4) obtain W1 bs where "sim_export S W = (W1, Inr bs)" by (fastforce simp: checkpoints_load_def node_sound_def)
  with Some assms(1,2) show ?thesis by (auto simp: save_Some [OF Some] enrolled_def enters_def same_standing_def split: if_splits)
qed (use assms(1,2) in \<open>auto simp: save_None enrolled_def enters_def same_standing_def\<close>)

lemma reboot_enrolled:
  assumes "enrolled N" and "checkpoints_load S" and "node_sound S N"
  shows "enrolled (reboot S N)"
proof -
  have "\<exists>V. sim_import S (dk_state d) = Inr V" if "wn_disk N = Some d" for d
    using that assms(2,3) by (fastforce simp: node_sound_def checkpointed_def checkpoints_load_def)
  then show ?thesis
    using assms(1) by (auto simp: reboot_def wipe_def sim_refresh_roster_def enrolled_def split: option.split sum.split)
qed

lemma standing_enrolled: "enrolled N \<Longrightarrow> same_standing N M \<Longrightarrow> enrolled M"
  by (auto simp: enrolled_def same_standing_def)

lemma sound_does: "sim_relation.does S (keeps_sound S) N x \<Longrightarrow> refused_ok S N \<Longrightarrow> x = Some M \<Longrightarrow> loads_reachable S \<Longrightarrow> node_sound S N \<Longrightarrow> node_sound S M"
  by (auto simp: sound.does_def keeps_sound_def)

lemma founding_enrolled:
  assumes "announce_endpoint S cx (N\<lparr>wn_state := Some W, wn_initialisations := wn_initialisations N + 1\<rparr>) = Some M"
    and "wn_state N = None" and "born (si_env S) W" and "enrolled N" and "refused_ok S N" and "node_sound S N" and "checkpoints_load S"
  shows "enrolled (save S M)"
proof (rule saved_enrolled [OF assms(4) _ assms(7)])
  let ?N = "N\<lparr>wn_state := Some W, wn_initialisations := wn_initialisations N + 1\<rparr>"
  have N: "refused_ok S ?N" "node_sound S ?N" using assms(3,5,6) born_reachable by (auto simp: refused_ok_def node_sound_def)
  show "enters N M"
    using standing_does [OF standing.announce_endpoint_does N(1) assms(1)] assms(2) by (simp add: enters_def same_standing_def)
  show "node_sound S M"
    by (rule sound_does [OF sound.announce_endpoint_does N(1) assms(1) checkpoints_loads [OF assms(7)] N(2)])
qed

lemma first_start_enrolled:
  assumes "first_start S cx signer N = Some M"
    and "wn_state N = None" and "enrolled N" and "refused_ok S N" and "node_sound S N" and "checkpoints_load S"
  shows "enrolled M"
proof (cases "cx_me cx = FOUNDER")
  case True
  have "born (si_env S) W" if "controller_create (e_beekem (si_env S)) (e_crypto (si_env S)) tree signer rng = Inr K"
    "found (si_env S) K secret threshold = Inr W" for tree rng K secret threshold W
    using controller_initial.intros(1) [OF that(1)] that(2) by (auto simp: born_def)
  with founding_enrolled [OF _ assms(2) _ assms(3-6)] assms(1,3) True show ?thesis
    by (auto simp: first_start_def Let_def split: sum.splits)
next
  case False
  with assms(1) have "same_standing N M"
    by (auto simp: first_start_def Let_def same_standing_def emit_def send_hello_def split: if_splits option.splits)
  with assms(3) show ?thesis by (rule standing_enrolled)
qed

lemma on_start_enrolled:
  assumes "on_start S cx N = Some M" and "enrolled N" and "node_ok S n N" and "checkpoints_load S"
  shows "enrolled M"
proof -
  define N1 where "N1 = N\<lparr>wn_me := cx_me cx, wn_signer := Some (signer_of S (cx_me cx) 0xA1),
      wn_share_secret := Some (snd (bk_gen_share_secret (e_beekem (si_env S)) (node_rng S (cx_me cx) 0xB2))),
      wn_repair_sent := cooldown_new SIM_REPAIR_COOLDOWN, wn_repair_answers := cooldown_new REPAIR_ANSWER_COOLDOWN\<rparr>"
  have N: "enrolled N1" "node_sound S N1" "refused_ok S N1" "wn_started N1 \<or> wn_state N1 = None"
    using assms(2,3) checkpoints_loads [OF assms(4)]
    by (simp_all add: N1_def enrolled_def node_ok_def node_sound_def refused_ok_def)
  have arm: "enrolled (arm_timers S cx L)" if "enrolled L" for L
    using standing.arm_timers_goes [of S L cx] standing_enrolled [OF that] by (simp add: standing.goes_def)
  show ?thesis
  proof (cases "wn_started N1")
    case True
    then have "M = arm_timers S cx (reboot S N1)" using assms(1) by (simp add: on_start_def Let_def N1_def)
    with arm [OF reboot_enrolled [OF N(1) assms(4) N(2)]] show ?thesis by simp
  next
    case False
    then obtain L where L: "first_start S cx (signer_of S (cx_me cx) 0xA1) (N1\<lparr>wn_started := True\<rparr>) = Some L" "M = arm_timers S cx L"
      using assms(1) by (auto simp: on_start_def Let_def N1_def)
    have "enrolled L"
      by (rule first_start_enrolled [OF L(1)]) (use N False assms(4) in \<open>simp_all add: enrolled_def node_sound_def refused_ok_def\<close>)
    with arm L(2) show ?thesis by simp
  qed
qed

lemma on_msg_enrolled:
  assumes "on_msg S cx from' m N = Some M" and "enrolled N" and "node_ok S n N" and "checkpoints_load S"
  shows "enrolled M"
proof -
  have N: "refused_ok S N" "node_sound S N" using assms(3) checkpoints_loads [OF assms(4)] by (simp_all add: node_ok_def)
  have "enrolled (save S L)" if "apply_msg S cx from' m N = Some L" for L
    using saved_enrolled [OF assms(2) apply_msg_enters [OF that N(1)] assms(4)]
      sound_does [OF sound.apply_msg_does N(1) that checkpoints_loads [OF assms(4)] N(2)] by simp
  then show ?thesis using assms(1,2) by (auto simp: on_msg_def enrolled_def split: if_splits)
qed

lemma on_timer_enrolled:
  assumes "on_timer S cx t N = Some M" and "enrolled N" and "node_ok S n N" and "checkpoints_load S"
  shows "enrolled M"
proof -
  have N: "refused_ok S N" "node_sound S N" using assms(3) checkpoints_loads [OF assms(4)] by (simp_all add: node_ok_def)
  obtain L where L: "apply_timer S cx t N = Some L" "M = save S L" using assms(1) by (auto simp: on_timer_def)
  have "sim_relation.does S same_standing N (apply_timer S cx t N)"
    by (cases "t = TickJoin") (use standing.join_tick_does [of N S cx] standing.apply_timer_does [of t S N cx] in auto)
  moreover have "sim_relation.does S (keeps_sound S) N (apply_timer S cx t N)"
    by (cases "t = TickJoin") (use sound.join_tick_does [of N S cx] sound.apply_timer_does [of t S N cx] in auto)
  ultimately show ?thesis
    using saved_enrolled [OF assms(2) _ assms(4)] standing_does [OF _ N(1) L(1)]
      sound_does [OF _ N(1) L(1) checkpoints_loads [OF assms(4)] N(2)] L(2) by (simp add: enters_def)
qed

lemma on_client_op_enrolled:
  assumes "on_client_op S cx op token N = Some (M, outcome)" and "enrolled N" and "node_ok S n N" and "checkpoints_load S"
  shows "enrolled M"
proof (cases "wn_state N = None")
  case False
  have N: "refused_ok S N" "node_sound S N" using assms(3) checkpoints_loads [OF assms(4)] by (simp_all add: node_ok_def)
  from False obtain L resp where "apply_op S cx op N = Some (L, resp)" and M: "M = save S L" using assms(1) by (auto simp: on_client_op_def)
  then have L: "map_option fst (apply_op S cx op N) = Some L" by simp
  from saved_enrolled [OF assms(2) _ assms(4)] standing_does [OF standing.apply_op_does N(1) L]
    sound_does [OF sound.apply_op_does N(1) L checkpoints_loads [OF assms(4)] N(2)]
  show ?thesis by (simp add: M enters_def)
qed (use assms(1,2) in \<open>auto simp: on_client_op_def enrolled_def\<close>)

lemma reachable_enrolled: "net_reachable S V \<Longrightarrow> checkpoints_load S \<Longrightarrow> enrolled (nw_nodes V n)"
proof (induction arbitrary: n rule: net_invariant)
  case initial
  show ?case by (simp add: network_initial_def enrolled_def node_default_def)
next
  case (step U V)
  have ok: "node_ok S n (nw_nodes U n)" for n using reachable_network_ok [OF step.hyps(1)] by (simp add: network_ok_def)
  note IH = step.IH [OF step.prems]
  have "\<exists>k M. V = settle k M U \<and> enrolled M"
    using step.hyps(2)
    by cases (use on_start_enrolled [OF _ IH ok step.prems] on_msg_enrolled [OF _ IH ok step.prems]
        on_timer_enrolled [OF _ IH ok step.prems] on_client_op_enrolled [OF _ IH ok step.prems] in blast)+
  then obtain k M where V: "V = settle k M U" and "enrolled (M\<lparr>wn_out := []\<rparr>)" by (auto simp: enrolled_def)
  with IH [of n] show ?case by (simp add: V)
qed


section \<open>Crashes\<close>

text \<open>A checkpoint that could be written brings the same texts back.\<close>

lemma checkpoint_restores:
  assumes "workspace_reachable (si_env S) W" and "exports_work (e_loro (si_env S))" and "snapshots_restore (e_loro (si_env S))"
    and "snapshot_codec_faithful S"
    and "\<And>V ss. workspace_snapshot_of (si_env S) V = (fst (sim_export S W), Inr ss) \<Longrightarrow> si_encode_snapshot S ss \<noteq> None"
    and "controller_from_snapshot (e_beekem (si_env S)) (e_crypto (si_env S)) (controller_snapshot (w_cgka (fst (sim_export S W)))) (si_seed S 0) = Inr K"
  obtains W1 bs W2 where "sim_export S W = (W1, Inr bs)" and "sim_import S bs = Inr W2" and "w_cgka W2 = K"
    and "w_namespace W2 = w_namespace W1"
    and "\<And>doc. document_text (e_loro (si_env S)) doc W2 = document_text (e_loro (si_env S)) doc W1"
proof -
  let ?E = "si_env S"
  have fin: "finite (dom (w_docs W))" "finite (dom (w_last_ref W))" "finite (dom (w_published_up_to W))"
    using reachable_ok [OF assms(1)] by (auto simp: workspace_ok_def maps_finite_def)
  obtain W1 ss where W1: "workspace_snapshot_of ?E W = (W1, Inr ss)" "w_cgka W1 = w_cgka W" "w_namespace W1 = w_namespace W"
      "\<forall>doc. document_text (e_loro ?E) doc W1 = document_text (e_loro ?E) doc W"
    using snapshot_works [OF assms(2) fin(1)] by blast
  have fst: "fst (sim_export S W) = W1" by (simp add: sim_export_def W1(1))
  with assms(5) W1(1) obtain bs where bs: "si_encode_snapshot S ss = Some bs" by blast
  with W1(1) have export: "sim_export S W = (W1, Inr bs)" by (simp add: sim_export_def serialized_def)
  from restart_restores [OF W1(1) assms(3) fin, of "si_seed S 0" K] assms(6) fst W1(2) obtain W2 where
    W2: "workspace_from_snapshot ?E ss (si_seed S 0) = Inr W2" "w_cgka W2 = K" "w_namespace W2 = w_namespace W"
      "\<forall>doc. document_text (e_loro ?E) doc W2 = document_text (e_loro ?E) doc W"
    by auto
  have "sim_import S bs = Inr W2"
    using bs W2(1) assms(4) by (simp add: sim_import_def serialized_def snapshot_codec_faithful_def)
  from that [OF export this W2(2)] W1(3,4) W2(3,4) show thesis by simp
qed


section \<open>Addresses\<close>

lemma le_round_trip: "from_le_bytes (le_bytes 8 (n :: node_id)) = n"
  by (simp add: from_le_bytes_def le_bytes_def be_word_be_bytes)

lemma le_from: "length bs = 8 \<Longrightarrow> le_bytes 8 (from_le_bytes bs) = bs"
  using be_bytes_foldl [where 'w = 64 and bs = "rev bs" and a = 0]
  by (simp add: from_le_bytes_def le_bytes_def be_word_def)

lemma endpoint_bytes: "be_bytes 32 (endpoint_of n) = ENDPOINT_TAG @ le_bytes 8 n @ replicate 16 0"
proof -
  let ?bs = "ENDPOINT_TAG @ le_bytes 8 n @ replicate 16 0"
  have "length ?bs = 32" by (simp add: ENDPOINT_TAG_def le_bytes_def)
  then obtain w where "be_word 32 ?bs = Some (w :: bytes32)" using be_word_Some_iff [of 32 ?bs] by blast
  then show ?thesis using be_bytes_of_be_word by (simp add: endpoint_of_def)
qed

text \<open>
  Addresses of nodes and endpoint ids correspond: the endpoint id of a node gives the node back, and an
  endpoint id that stands for a node is the one of that node.
\<close>

theorem endpoint_round_trip: "node_of_endpoint b = Some n \<longleftrightarrow> b = endpoint_of n"
proof
  assume "b = endpoint_of n"
  moreover have "length ENDPOINT_TAG = 8" "length (le_bytes 8 n) = 8" by (simp_all add: ENDPOINT_TAG_def le_bytes_def)
  ultimately show "node_of_endpoint b = Some n"
    by (simp add: node_of_endpoint_def endpoint_bytes Let_def le_round_trip)
next
  assume n: "node_of_endpoint b = Some n"
  let ?bs = "be_bytes 32 b"
  have parts: "take 8 ?bs = ENDPOINT_TAG" "drop 16 ?bs = replicate 16 0" "n = from_le_bytes (take 8 (drop 8 ?bs))"
    using n by (auto simp: node_of_endpoint_def Let_def split: if_splits)
  have "le_bytes 8 n = take 8 (drop 8 ?bs)" by (simp add: parts(3) le_from)
  with parts(1,2) have "?bs = ENDPOINT_TAG @ le_bytes 8 n @ replicate 16 0"
    using append_take_drop_id [of 8 "drop 8 ?bs"] append_take_drop_id [of 8 ?bs] by (metis add_numeral_left drop_drop numeral_Bit0)
  with endpoint_bytes [of n] have "?bs = be_bytes 32 (endpoint_of n)" by simp
  then show "b = endpoint_of n" by (rule be_bytes_inj) simp
qed

end
