(* ===== verification/Sim_Examples.thy ===== *)
theory Sim_Examples
  imports Sim_Properties Networked_Examples
begin

text \<open>
  A simulator over the small libraries of the other examples, and the properties of the simulated network applied
  to networks it reaches.
\<close>

definition demo_sim :: "(control_op list workspace_snapshot \<Rightarrow> bytes option) \<Rightarrow> scenario \<Rightarrow> (control_op list, nat, demo_doc, bytes) sim" where
  "demo_sim encode C = \<lparr>si_env = demo_env, si_aead = demo_aead, si_hasher = demo_hasher,
     si_encode_snapshot = encode, si_decode_snapshot = (\<lambda>_. Some demo_saved),
     si_seed = unat, si_gen_signer = (\<lambda>r. (Suc r, of_nat r)), si_init_add = (\<lambda>tree m pk. Add m pk [] []),
     si_sign = (\<lambda>_ _. None), si_scenario = C\<rparr>"

lemma demo_sim_simps [simp]:
  "si_env (demo_sim encode C) = demo_env" "si_seed (demo_sim encode C) = unat" "si_scenario (demo_sim encode C) = C"
  "si_encode_snapshot (demo_sim encode C) = encode" "si_decode_snapshot (demo_sim encode C) bs = Some demo_saved"
  by (simp_all add: demo_sim_def)

text \<open>Nodes have names of their own.\<close>

lemma demo_signer: "signer_of (demo_sim encode C) n salt = ucast (n * 0x9E3779B9 + salt)"
  by (simp add: signer_of_def node_rng_def demo_sim_def)

lemma demo_member: "member_bytes_of (demo_sim encode C) n = ucast (n * 0x9E3779B9 + 0xA1)"
  by (simp add: member_bytes_of_def demo_signer)

lemma demo_members_distinct: "member_bytes_of (demo_sim encode C) n = member_bytes_of (demo_sim encode C) k \<longleftrightarrow> n = k"
proof
  assume "member_bytes_of (demo_sim encode C) n = member_bytes_of (demo_sim encode C) k"
  then have "ucast (ucast (n * 0x9E3779B9 + 0xA1) :: bytes32) = (ucast (ucast (k * 0x9E3779B9 + 0xA1) :: bytes32) :: u64)"
    by (simp only: demo_member)
  then have "n * 0x9E3779B9 = k * 0x9E3779B9" by (simp add: ucast_up_ucast_id is_up)
  then have "n * 0x9E3779B9 * 0xe85ee980144cbc89 = k * 0x9E3779B9 * 0xe85ee980144cbc89" by (rule arg_cong)
  moreover have "0x9E3779B9 * 0xe85ee980144cbc89 = (1 :: u64)" by code_simp
  ultimately show "n = k" by (simp only: mult.assoc mult_1_right)
qed simp

section \<open>A founder that has started\<close>

definition sim_founder :: "(control_op list, nat) controller" where
  "sim_founder = projr (controller_create demo_beekem demo_crypto 0 161 195)"

lemma sim_founder_created: "controller_create demo_beekem demo_crypto tree 161 195 = Inr sim_founder"
  by (simp add: sim_founder_def controller_create_def demo_beekem_def polled_def Let_def)

lemma sim_founder_founds: "is_ok (found demo_env sim_founder workspace_secret_bytes 1)"
  by code_simp

definition at_zero :: "node_id \<Rightarrow> ctx" where
  "at_zero n = \<lparr>cx_me = n, cx_now = 0\<rparr>"

lemma at_zero_me [simp]: "cx_me (at_zero n) = n"
  by (simp add: at_zero_def)

lemma founder_starts: "\<exists>M W. on_start (demo_sim encode Honest) (at_zero FOUNDER) node_default = Some M \<and> wn_state M = Some W"
proof -
  let ?S = "demo_sim encode Honest" and ?cx = "at_zero FOUNDER"
  obtain W where W: "found demo_env sim_founder workspace_secret_bytes 1 = Inr W" using sim_founder_founds by (auto simp: is_ok_iff)
  define N where "N = (node_default :: (control_op list, nat, demo_doc) ws_node)\<lparr>wn_me := 0, wn_signer := Some (signer_of ?S 0 0xA1),
      wn_share_secret := Some (snd (bk_gen_share_secret demo_beekem (node_rng ?S 0 0xB2))),
      wn_repair_sent := cooldown_new SIM_REPAIR_COOLDOWN, wn_repair_answers := cooldown_new REPAIR_ANSWER_COOLDOWN, wn_started := True\<rparr>"
  let ?N = "N\<lparr>wn_state := Some W, wn_initialisations := wn_initialisations N + 1\<rparr>"
  have "controller_create demo_beekem demo_crypto (sim_tree_id ?S) (signer_of ?S 0 0xA1) (node_rng ?S 0 0xC3) = Inr sim_founder"
    using sim_founder_created by (simp add: demo_signer node_rng_def)
  then have first: "on_start ?S ?cx node_default = map_option (arm_timers ?S ?cx) (map_option (save ?S) (announce_endpoint ?S ?cx ?N))"
    by (simp add: on_start_def first_start_def Let_def N_def node_default_def FOUNDER_def W Honest_def)
  have "refused_ok ?S ?N" by (simp add: N_def node_default_def refused_ok_def)
  with standing.announce_endpoint_does [of ?S ?N ?cx] obtain M where M: "announce_endpoint ?S ?cx ?N = Some M" "wn_state M \<noteq> None"
    by (auto simp: standing.does_def same_standing_def)
  then have "wn_state (save ?S M) \<noteq> None" by (auto simp: save_Some)
  then have "wn_state (arm_timers ?S ?cx (save ?S M)) \<noteq> None"
    using standing.arm_timers_goes [of ?S "save ?S M" ?cx] by (auto simp: standing.goes_def same_standing_def)
  with first M(1) show ?thesis by auto
qed

lemma founder_network:
  "\<exists>V W. net_reachable (demo_sim encode Honest) V \<and> wn_state (nw_nodes V FOUNDER) = Some W"
proof -
  let ?S = "demo_sim encode Honest"
  obtain M W where "on_start ?S (at_zero FOUNDER) (nw_nodes network_initial FOUNDER) = Some M" and W: "wn_state M = Some W"
    using founder_starts [of encode] by (auto simp: network_initial_def)
  then have "net_step ?S network_initial (settle FOUNDER M network_initial)" by (intro net_step.start [of "at_zero FOUNDER"]) simp_all
  then have "net_reachable ?S (settle FOUNDER M network_initial)" by (auto simp: net_reachable_def)
  with W show ?thesis by (intro exI [of _ "settle FOUNDER M network_initial"]) simp
qed

text \<open>A checkpoint format that knows one snapshot, and one that takes every snapshot for it.\<close>

definition one_snapshot :: "control_op list workspace_snapshot \<Rightarrow> bytes option" where
  "one_snapshot ss = (if ss = demo_saved then Some [1] else None)"

definition any_snapshot :: "control_op list workspace_snapshot \<Rightarrow> bytes option" where
  "any_snapshot ss = Some [1]"

lemma one_snapshot_faithful: "snapshot_codec_faithful (demo_sim one_snapshot C)"
  by (simp add: snapshot_codec_faithful_def one_snapshot_def)

lemma demo_saved_loads: "\<exists>W. workspace_from_snapshot demo_env demo_saved rng = Inr W \<and> workspace_reachable demo_env W"
proof -
  obtain K where K: "controller_from_snapshot demo_beekem demo_crypto (controller_snapshot (w_cgka demo_ws)) rng = Inr K"
    by (simp add: controller_from_snapshot_def)
  have "finite (dom (w_docs demo_ws))" "finite (dom (w_last_ref demo_ws))" "finite (dom (w_published_up_to demo_ws))"
    by (simp_all add: demo_ws_def joined_def)
  with restart_restores [OF demo_saved_snapshot, of rng K] K demo_snapshots_restore
  obtain W where W: "workspace_from_snapshot demo_env demo_saved rng = Inr W" by auto
  with workspace_reachable.restarted [OF demo_reachable demo_saved_snapshot W] show ?thesis by blast
qed

lemma any_snapshot_loads: "checkpoints_load (demo_sim any_snapshot C)"
  unfolding checkpoints_load_def
proof (intro allI impI)
  fix W
  assume "workspace_reachable (si_env (demo_sim any_snapshot C)) W"
  then have "finite (dom (w_docs W))" using reachable_ok by (auto simp: workspace_ok_def maps_finite_def)
  then obtain W1 ss where "workspace_snapshot_of demo_env W = (W1, Inr ss)" using snapshot_works [of demo_env W] demo_exports_work by auto
  then have "sim_export (demo_sim any_snapshot C) W = (W1, Inr [1])" by (simp add: sim_export_def serialized_def any_snapshot_def)
  with demo_saved_loads show "\<exists>W1 bs V. sim_export (demo_sim any_snapshot C) W = (W1, Inr bs) \<and> sim_import (demo_sim any_snapshot C) bs = Inr V
      \<and> workspace_reachable (si_env (demo_sim any_snapshot C)) V"
    by (auto simp: sim_import_def serialized_def)
qed

section \<open>Witnesses\<close>

theorem simulation_refines_core_witness:
  "\<exists>V W. net_reachable (demo_sim one_snapshot Honest) V \<and> wn_state (nw_nodes V FOUNDER) = Some W \<and> workspace_reachable demo_env W"
proof -
  obtain V W where V: "net_reachable (demo_sim one_snapshot Honest) V" "wn_state (nw_nodes V FOUNDER) = Some W" using founder_network by blast
  from simulation_refines_core [OF V(1) one_snapshot_faithful V(2)] V show ?thesis by auto
qed

theorem simulation_never_stuck_witness:
  "\<exists>V. net_reachable (demo_sim one_snapshot Honest) V \<and> has_joined (nw_nodes V FOUNDER)
     \<and> on_msg (demo_sim one_snapshot Honest) (at_zero FOUNDER) 1 (Hello 162 3 None) (nw_nodes V FOUNDER) \<noteq> None"
proof -
  obtain V W where V: "net_reachable (demo_sim one_snapshot Honest) V" "wn_state (nw_nodes V FOUNDER) = Some W" using founder_network by blast
  from simulation_never_stuck [OF V(1) at_zero_me] V show ?thesis by (auto simp: has_joined_def)
qed


text \<open>A node that has started, in any scenario.\<close>

lemma started_network: "\<exists>V. net_reachable (demo_sim encode C) V \<and> wn_started (nw_nodes V n)"
proof -
  let ?S = "demo_sim encode C"
  have ok: "node_ok ?S n (nw_nodes network_initial n)"
    using reachable_network_ok [of ?S network_initial] by (simp add: net_reachable_def network_ok_def)
  then have "sim_relation.does ?S (keeps_sound ?S) (nw_nodes network_initial n) (on_start ?S (at_zero n) (nw_nodes network_initial n))"
    by (intro sound.on_start_does [of _ n]) (auto simp: node_ok_def)
  with ok obtain M where M: "on_start ?S (at_zero n) (nw_nodes network_initial n) = Some M" by (auto simp: sound.does_def node_ok_def)
  then have "net_step ?S network_initial (settle n M network_initial)" by (intro net_step.start [of "at_zero n"]) simp_all
  then have "net_reachable ?S (settle n M network_initial)" by (auto simp: net_reachable_def)
  with start_lives [OF ok at_zero_me M] show ?thesis by (intro exI [of _ "settle n M network_initial"]) simp
qed

lemma arm_timers_sends: "set (wn_out N) \<subseteq> set (wn_out (arm_timers S cx N))"
proof -
  have step: "set (wn_out M) \<subseteq> set (wn_out (set_timer t d b M))" for t d b and M :: "('a, 'b, 'c) ws_node"
    by (auto simp: set_timer_def emit_def)
  show ?thesis unfolding arm_timers_def Let_def by (intro order_trans [OF _ step] order_refl)
qed

theorem only_joiners_welcomed_witness:
  "\<exists>V m sk user. (1, OutBroadcast (Hello m sk user)) \<in> nw_sent V \<and> net_reachable (demo_sim one_snapshot Honest) V
     \<and> m = member_bytes_of (demo_sim one_snapshot Honest) 1"
proof -
  let ?S = "demo_sim one_snapshot Honest" and ?N = "nw_nodes network_initial 1 :: (control_op list, nat, demo_doc) ws_node"
  obtain L m sk user where "on_start ?S (at_zero 1) ?N = Some (arm_timers ?S (at_zero 1) L)"
    and "OutBroadcast (Hello m sk user) \<in> set (wn_out L)"
    by (simp add: network_initial_def node_default_def on_start_def first_start_def Let_def FOUNDER_def Honest_def send_hello_def emit_def)
  then obtain M where M: "on_start ?S (at_zero 1) ?N = Some M" "OutBroadcast (Hello m sk user) \<in> set (wn_out M)"
    using arm_timers_sends by blast
  then have "net_step ?S network_initial (settle 1 M network_initial)" by (intro net_step.start [of "at_zero 1"]) simp_all
  then have V: "net_reachable ?S (settle 1 M network_initial)" by (auto simp: net_reachable_def)
  have sent: "(1, OutBroadcast (Hello m sk user)) \<in> nw_sent (settle 1 M network_initial)" using M(2) by simp
  from only_joiners_welcomed [OF V sent] V sent show ?thesis by blast
qed

theorem outsider_sees_nothing_witness:
  "\<exists>V. net_reachable (demo_sim one_snapshot Outsider) V \<and> wn_started (nw_nodes V 3) \<and> wn_index (nw_nodes V 3) = []"
proof -
  obtain V where V: "net_reachable (demo_sim one_snapshot Outsider) V" "wn_started (nw_nodes V 3)" using started_network by blast
  have "\<forall>k. joiner (demo_sim one_snapshot Outsider) k \<longrightarrow>
      member_bytes_of (demo_sim one_snapshot Outsider) k \<noteq> member_bytes_of (demo_sim one_snapshot Outsider) 3"
    by (auto simp: demo_members_distinct joiner_def Outsider_def)
  with outsider_sees_nothing [OF V(1), of 3 DOC] V show ?thesis by (auto simp: Outsider_def Honest_def FOUNDER_def)
qed

theorem thief_reads_nothing_witness:
  "\<exists>V. net_reachable (demo_sim one_snapshot StolenInvite) V \<and> wn_started (nw_nodes V 3) \<and> wn_asset_view (nw_nodes V 3) = None"
proof -
  obtain V where V: "net_reachable (demo_sim one_snapshot StolenInvite) V" "wn_started (nw_nodes V 3)" using started_network by blast
  with thief_reads_nothing [OF V(1), of 3 DOC] show ?thesis by (auto simp: StolenInvite_def FOUNDER_def)
qed

text \<open>A node that holds the founder's workspace reads a document, crashes and starts again.\<close>

definition reading_node :: "(control_op list, nat, demo_doc) ws_node" where
  "reading_node = node_default\<lparr>wn_state := Some demo_ws, wn_started := True, wn_contributed := [''<0:0>'']\<rparr>"


end
