(* ===== verification/Spec2Isabelle.thy ===== *)
theory Spec2Isabelle
  imports Capability_Security Examples Cooldown Blinding Asset Keys_Examples Manifest_Properties
    Workspace_Properties Workspace_Examples Peers_Examples Sim_Examples
begin

text \<open>
  A verification development of \<open>iroh-beekem\<close>: end-to-end encrypted, peer-to-peer workspaces. The crate
  \<open>iroh-beekem-core\<close> (\<open>src/crates/iroh-beekem-core/src\<close>) is a state machine without input or output: a
  driver feeds it events and control messages and performs the effects it returns. It stands on a group
  key agreement (\<open>beekem\<close>), CRDT documents (\<open>loro\<close>), a serialiser (\<open>postcard\<close>), signatures and hashes.
  The crate \<open>iroh-beekem\<close> (\<open>src/crates/iroh-beekem/src\<close>) is that driver: it keeps a workspace on a node
  with a replicated index, a blob store, gossip and files, and has the calls of an application. The crate
  \<open>iroh-beekem-sim\<close> (\<open>src/crates/iroh-beekem-sim/src/lib.rs\<close>) is a second driver: nodes of a deterministic
  simulation that found, join, crash and restart, with scripted attackers.

  \<^bold>\<open>The parts and their theories.\<close>

  \<^item> \<open>Prelude\<close>: machine integers and byte arrays, ordered maps and sets as sorted lists, the
    question-mark operator on state-changing functions (\<open>and_then\<close>), stores that only grow (locale
    \<open>grow_only\<close>) and loops that run until a round changes nothing (locale \<open>settling_loop\<close>).
  \<^item> \<open>Core_Error\<close>: \<open>error.rs\<close>. \<open>Cooldown\<close>: \<open>cooldown.rs\<close>. \<open>Blinding\<close>: \<open>blinding.rs\<close>. \<open>Asset\<close>:
    \<open>asset.rs\<close>. Each of the last three holds its definitions and its properties.
  \<^item> \<open>Capability\<close>: \<open>capability.rs\<close>, the signed certificates and the store that derives from them
    who owns which device, who administers, which proposals are executed and which role a user has.
    \<open>Capability_Closure\<close> relates the loop of \<open>recompute\<close> to derivation rules, \<open>Capability_Store\<close>
    gives the store's invariant and shows it is a store that only grows, \<open>Capability_Security\<close> has the
    properties.
  \<^item> \<open>Keys\<close>: \<open>keys.rs\<close> and the controller's half of \<open>snapshot.rs\<close>, the key controller: members,
    operations, authorization by certificates, parked operations, encryption. \<open>Keys_Properties\<close> has the
    invariant of its steps and the properties of merging, joining and restarting.
  \<^item> \<open>Loro\<close> and \<open>Manifest\<close>: what the crate calls of a document, \<open>version.rs\<close>, and \<open>manifest.rs\<close>;
    \<open>Manifest_Properties\<close> their properties.
  \<^item> \<open>Protocol\<close>: the events and effects of \<open>state.rs\<close> and the messages of \<open>wire.rs\<close>.
  \<^item> \<open>Workspace\<close>, \<open>Publishing\<close>, \<open>Draining\<close> and \<open>Handlers\<close>: \<open>state.rs\<close>. The state, construction,
    snapshots and guards; what is published and under which key; the queue of chunks that cannot be
    read yet; the handlers with \<open>handle\<close> and \<open>on_control\<close>.
  \<^item> \<open>Workspace_Relations\<close>: every handler keeps every relation between states that allows the
    elementary changes (locales \<open>workspace_changes\<close>, \<open>workspace_relation\<close>, \<open>queue_blind\<close>).
    \<open>Workspace_Invariants\<close> interprets them for the queue, for what only grows and for the namespace,
    and has the reachable states. \<open>Workspace_Effects\<close> does the same for the effect lists
    (locale \<open>effect_law\<close>). \<open>Workspace_Properties\<close> has the properties.
  \<^item> \<open>Facade_Error\<close>, \<open>Identity\<close>, \<open>Invite\<close>, \<open>Roster\<close>, \<open>Store\<close>, \<open>Node\<close>: the files \<open>error.rs\<close>,
    \<open>identity.rs\<close>, \<open>invite.rs\<close>, \<open>roster.rs\<close>, \<open>store.rs\<close> and \<open>node.rs\<close> of the crate \<open>iroh-beekem\<close>, each
    with its lemmas. A file system is a record of what \<open>std::fs\<close> answers, faults and torn writes
    included; files are slots that only whole writes change (locale interpreted as \<open>slots\<close>), and roster
    entries are independent of each other (\<open>rosters\<close>).
  \<^item> \<open>Driver\<close>, \<open>Networked\<close>, \<open>Attachments\<close>, \<open>Lifecycle\<close>, \<open>Application\<close>: \<open>workspace.rs\<close>. The effect pump;
    the loops and the calls that drive it; binary assets; founding, joining, reopening, leaving and
    deleting; the one-event calls and the views.
  \<^item> \<open>Driver_Depth\<close> shows that the pump ends. \<open>Driver_Relations\<close> has one step relation for everything
    that can happen to a running workspace and the contract under which a relation is kept by all of it
    (locale \<open>driver_relation\<close>); it is interpreted for the steps of the core, for the device's own
    identity, for its neighbours and for its files. \<open>Device_Life\<close> adds starting, stopping and failing, and
    refines a device to the core's reachable states. \<open>Asset_Transfer\<close> carries a file through the index and
    back, \<open>Networked_Properties\<close> has the properties of calls, invitations and joining, \<open>Peers\<close> what two
    devices agree on.
  \<^item> \<open>Sim_Scenario\<close>, \<open>Sim_Node\<close>, \<open>Sim_Callbacks\<close>: \<open>iroh-beekem-sim\<close>. The schedule, scenarios, messages and
    client operations; the node, its replica, its admission and its effect pump; its handlers and the four
    callbacks. \<open>Sim_Depth\<close> shows that this pump ends too. \<open>Sim_Relations\<close> has the contract under which a
    relation is kept by every handler (locale \<open>sim_relation\<close>) and by every callback (\<open>sim_life\<close>).
    \<open>Sim_Network\<close> has the network, in which any schedule is allowed, and interprets the contract for the
    states of the core, for identities and for what nodes send; \<open>Sim_Outsiders\<close> shows what those learn who
    are not invited, and \<open>Sim_Properties\<close> has the other properties of the network.
  \<^item> \<open>Examples\<close>, \<open>Keys_Examples\<close>, \<open>Workspace_Examples\<close>, \<open>Networked_Examples\<close>, \<open>Peers_Examples\<close>, \<open>Sim_Examples\<close>:
    concrete instances of the libraries, the properties applied to them, and the scenarios in which the code departs from its comments.

  \<^bold>\<open>How the state corresponds.\<close> A struct is a record (\<open>CapabilityStore\<close> is \<open>capability_store\<close>,
  \<open>CgkaController\<close> is \<open>controller\<close>, \<open>WorkspaceState\<close> is \<open>workspace\<close>), an enum a datatype, a method on
  \<open>&mut self\<close> a function to the new state and a result: what changed before an early return stays
  changed. The random generator that callers pass along is a field of the controller; the clock is an
  argument. The networked workspace is the record \<open>inner\<close> (\<open>Inner\<close> and what its tasks share), the outside
  world one state that each operation of the transport may change. A simulated node is the record \<open>ws_node\<close>
  (\<open>WorkspaceNode\<close>); what it asks of the simulator's context is appended to \<open>wn_out\<close>. Interior
  mutability (Loro commits behind \<open>&self\<close>) is written out as a new state.

  \<^bold>\<open>What the properties show.\<close> The certificate store converges whatever the order of arrival, its
  answers are exactly what the derivation rules give, and strangers cannot change them. The controller
  applies only operations that are signed, come from known members and are authorised, and refuses the
  rest. The workspace keeps its bounds in every reachable state, announces keys before content, lets
  nobody write or administer who may not, loses no parked chunk, converges on one namespace, answers
  repairs for members only and comes back from its snapshots. On a device, whatever the application, the
  network, the disk and restarts do, the workspace is one that the core reaches by its own steps; what a
  call acknowledged survives a restart; what was attached is what is exported; an invitation is worth one
  admission of the device it names, and only an administrator's; only writers' entries are read; and one
  workspace of a node does not touch another. Between devices, equal certificates give equal answers, and
  neighbours that exchange their logs have equal certificates. In a simulated network, under any schedule of
  starts, crashes, messages lost, repeated and reordered, timers and client operations, every node is in a state
  the core reaches and answers every callback; it comes to a state at most once; only those meant to join greet
  and are welcomed; an outsider holds and observes nothing; a stolen invitation gives no state and no plaintext;
  and an acknowledged operation survives a crash. The loops end, with a bound on their
  rounds. Behaviour that a comment denies is listed as findings of the manifest.

  \<^bold>\<open>Bounds and fuel.\<close> The loops (\<open>closure_loop\<close>, \<open>pending_loop\<close>, \<open>drain_loop\<close>, \<open>make_room\<close>) are
  defined with termination proofs; \<open>run_rounds\<close> only states how many rounds they take. The two functions
  with fuel are the pumps \<open>apply_effects\<close> and \<open>sim_apply_effects\<close>, whose effects pump further effects: their
  fuel is the depth of that nesting. \<open>pump_terminates\<close> shows that four is always enough for the first, and
  \<open>simulation_never_stuck\<close> that the second does not run out in any network that is reached.
  Counters are words of their Rust width, so additions wrap as a release build does; sequence numbers,
  generations and drain counts saturate where the code saturates. \<open>usize\<close> is \<open>nat\<close>.

  \<^bold>\<open>Parameters.\<close> \<open>beekem\<close>, \<open>cert_crypto\<close>, \<open>hash_lib\<close>, \<open>aead_lib\<close>, \<open>loro\<close>, \<open>codec\<close>,
  \<open>wire_codec\<close>, \<open>store_codec\<close>, \<open>invite_crypto\<close>, \<open>hasher\<close> and \<open>transport\<close> are records of functions for
  code that is not in this repository. A property that relies on their behaviour says so in its
  hypotheses: digests that do not collide on the certificates at hand, or on any that verify, a merge that
  reports no change when it made none, a snapshot that can be imported again, codecs that decode what they encoded, signatures
  that verify, an index and a blob store that keep what they are given (\<open>replica_faithful\<close>). The transport
  of the other properties answers whatever it likes, errors included.

  The scheduler of the simulation, \<open>propsim\<close>, is not in this repository either: \<open>net_step\<close> assumes nothing of
  it. That a checkpoint loads again (\<open>checkpoints_load\<close>) and that member ids differ are hypotheses where they
  are used.

  \<^bold>\<open>Not modelled.\<close> Of the facade: the asynchronous
  runtime, so that the calls and loops of one workspace do not interleave at their suspension points; the
  setup of endpoint, router and blob collector in \<open>node.rs\<close>; temporary tags as such (dropping one is an
  operation of the transport). Of the simulator: the strategies that draw random workloads (their values are
  \<open>workload_value\<close>) and the timing of its network. Of all crates: \<open>Debug\<close>, \<open>Clone\<close> and \<open>Drop\<close>, plain
  accessors, the byte formats, the random peer id of a new document,
  and zeroising of secrets. The iteration order of hash maps is not specified by the language; where it
  could show, the model uses the order of the keys. A panic is not a value of the model: the one that
  matters is stated separately (\<open>unhex_panics\<close>).
\<close>

end
